(* ===== verification/Prelude.thy ===== *)
theory Prelude
  imports Main
begin

text \<open>
  Shared ground of the development: the Python exceptions the modelled code can raise, results
  that are either an exception or a value, Python's indexing and slicing of sequences, and the
  generic list lemmas the component theories use. Nothing here is specific to a component.
\<close>

section \<open>Exceptions and results\<close>

datatype py_exn =
    IndexError
  | KeyError
  | ValueError string
  | TypeError
  | AttributeError
  | AssertionError
  | ZeroDivisionError
  | OverflowError
  | NameError string
  | OSError
  | UnicodeDecodeError
  | WafError string
  | SystemExit int string
  | Diverge

text \<open>
  \<open>SystemExit\<close> carries the exit status and the text the exiting code wrote to the error
  stream. \<open>Diverge\<close> is not an exception of Python: it is the value of a call that never returns, and
  it propagates like an exception that nothing catches.
\<close>

type_synonym 'a result = "py_exn + 'a"

definition bindE :: "'a result \<Rightarrow> ('a \<Rightarrow> 'b result) \<Rightarrow> 'b result" where
  "bindE m f = (case m of Inl e \<Rightarrow> Inl e | Inr x \<Rightarrow> f x)"

lemma bindE_simps [simp]:
  "bindE (Inl e) f = Inl e"
  "bindE (Inr x) f = f x"
  by (simp_all add: bindE_def)

lemma bindE_cong [fundef_cong]:
  "m = m' \<Longrightarrow> (\<And>x. m' = Inr x \<Longrightarrow> f x = g x) \<Longrightarrow> bindE m f = bindE m' g"
  by (cases m') (auto simp: bindE_def)

lemma bindE_eq_Inr: "bindE r h = Inr b \<longleftrightarrow> (\<exists>a. h a = Inr b \<and> r = Inr a)"
  by (cases r) auto

lemma bindE_eq_Inl: "bindE m f = Inl e \<longleftrightarrow> m = Inl e \<or> (\<exists>x. m = Inr x \<and> f x = Inl e)"
  by (cases m) auto

lemma bindE_assoc: "bindE (bindE m f) g = bindE m (\<lambda>x. bindE (f x) g)"
  by (cases m) auto

text \<open>Running a list of state changes, stopping at the first exception.\<close>

fun seqE :: "('s \<Rightarrow> 's result) list \<Rightarrow> 's \<Rightarrow> 's result" where
  "seqE [] s = Inr s"
| "seqE (f # fs) s = bindE (f s) (seqE fs)"

lemma seqE_append: "seqE (fs @ gs) s = bindE (seqE fs s) (seqE gs)"
  by (induction fs arbitrary: s) (auto simp: bindE_def split: sum.splits)

lemma seqE_raise: "f s = Inl e \<Longrightarrow> seqE (f # fs) s = Inl e"
  by simp

lemma seqE_step: "f s = Inr s' \<Longrightarrow> seqE (f # fs) s = seqE fs s'"
  by simp

lemma seqE_invariant:
  assumes "\<And>f s s'. f \<in> set fs \<Longrightarrow> P s \<Longrightarrow> f s = Inr s' \<Longrightarrow> P s'"
    and "P s" and "seqE fs s = Inr s'"
  shows "P s'"
  using assms
proof (induction fs arbitrary: s)
  case Nil
  then show ?case by simp
next
  case (Cons f fs)
  from Cons.prems(3) obtain s1 where s1: "f s = Inr s1" and rest: "seqE fs s1 = Inr s'"
    by (auto simp: bindE_eq_Inr)
  have "P s1" by (rule Cons.prems(1) [where f = f and s = s]) (use Cons.prems(2) s1 in auto)
  show ?case
    using Cons.IH [OF _ \<open>P s1\<close> rest] Cons.prems(1) by (meson list.set_intros(2))
qed

text \<open>A Python \<open>for\<close> loop over a list whose body may raise.\<close>

fun forE :: "'a list \<Rightarrow> ('a \<Rightarrow> 's \<Rightarrow> 's result) \<Rightarrow> 's \<Rightarrow> 's result" where
  "forE [] f s = Inr s"
| "forE (x # xs) f s = bindE (f x s) (forE xs f)"

lemma forE_append: "forE (xs @ ys) f s = bindE (forE xs f s) (forE ys f)"
  by (induction xs arbitrary: s) (simp_all add: bindE_def split: sum.splits)

lemma forE_single: "forE [x] f s = f x s"
  by (cases "f x s") simp_all

fun mapE :: "('a \<Rightarrow> 'b result) \<Rightarrow> 'a list \<Rightarrow> 'b list result" where
  "mapE f [] = Inr []"
| "mapE f (x # xs) = bindE (f x) (\<lambda>y. bindE (mapE f xs) (\<lambda>ys. Inr (y # ys)))"

lemma mapE_Inr: "(\<And>x. x \<in> set xs \<Longrightarrow> f x = Inr (g x)) \<Longrightarrow> mapE f xs = Inr (map g xs)"
  by (induction xs) auto

lemma mapE_length: "mapE f as = Inr bs \<Longrightarrow> length as = length bs"
proof (induction as arbitrary: bs)
  case (Cons a as)
  then show ?case by (cases "f a") (auto simp: bindE_eq_Inr)
qed simp

lemma mapE_nth: "mapE f xs = Inr ys \<Longrightarrow> i < length xs \<Longrightarrow> f (xs ! i) = Inr (ys ! i)"
  by (induction xs arbitrary: ys i) (auto simp: bindE_eq_Inr nth_Cons split: nat.splits)

lemma mapE_cong [fundef_cong]:
  "xs = ys \<Longrightarrow> (\<And>x. x \<in> set ys \<Longrightarrow> f x = g x) \<Longrightarrow> mapE f xs = mapE g ys"
  by (induction ys arbitrary: xs) auto

lemma forE_invariant:
  assumes "\<And>x s s'. x \<in> set xs \<Longrightarrow> P s \<Longrightarrow> f x s = Inr s' \<Longrightarrow> P s'"
    and "P s" and "forE xs f s = Inr s'"
  shows "P s'"
  using assms
proof (induction xs arbitrary: s)
  case Nil
  then show ?case by simp
next
  case (Cons x xs)
  from Cons.prems(3) obtain s1 where s1: "f x s = Inr s1" and rest: "forE xs f s1 = Inr s'"
    by (auto simp: bindE_eq_Inr)
  have "P s1" by (rule Cons.prems(1) [where x = x and s = s]) (use Cons.prems(2) s1 in auto)
  show ?case
    using Cons.IH [OF _ \<open>P s1\<close> rest] Cons.prems(1) by (meson list.set_intros(2))
qed

text \<open>
  \<open>keeps P f\<close>: from a state with \<open>P\<close>, the step \<open>f\<close> returns, and \<open>P\<close> holds
  again. The rules for the combinators are collected in \<open>keeps_intros\<close>.
\<close>

named_theorems keeps_intros

definition keeps :: "('s \<Rightarrow> bool) \<Rightarrow> ('s \<Rightarrow> 's result) \<Rightarrow> bool" where
  "keeps P f \<longleftrightarrow> (\<forall>s. P s \<longrightarrow> (\<exists>s'. f s = Inr s' \<and> P s'))"

lemma keepsD: "keeps P f \<Longrightarrow> P s \<Longrightarrow> \<exists>s'. f s = Inr s' \<and> P s'"
  by (simp add: keeps_def)

lemma keeps_Inr [keeps_intros]: "keeps P Inr"
  by (simp add: keeps_def)

lemma keeps_if [keeps_intros]:
  "(b \<Longrightarrow> keeps P f) \<Longrightarrow> (\<not> b \<Longrightarrow> keeps P g) \<Longrightarrow> keeps P (if b then f else g)"
  by simp

lemma keeps_bindE [keeps_intros]:
  "keeps P f \<Longrightarrow> keeps P g \<Longrightarrow> keeps P (\<lambda>s. bindE (f s) g)"
  unfolding keeps_def by (metis bindE_simps(2))

lemma keeps_seqE: "(\<And>f. f \<in> set fs \<Longrightarrow> keeps P f) \<Longrightarrow> keeps P (seqE fs)"
proof (induction fs)
  case Nil
  then show ?case by (simp add: keeps_def)
next
  case (Cons f fs)
  then have "keeps P (\<lambda>s. bindE (f s) (seqE fs))" by (auto intro: keeps_bindE)
  then show ?case by (simp add: keeps_def)
qed

lemma keeps_seqE_list [keeps_intros]:
  "keeps P (seqE [])"
  "keeps P f \<Longrightarrow> keeps P (seqE fs) \<Longrightarrow> keeps P (seqE (f # fs))"
  by (simp_all add: keeps_def) (metis bindE_simps(2))

lemma keeps_forE [keeps_intros]:
  "(\<And>x. x \<in> set xs \<Longrightarrow> keeps P (f x)) \<Longrightarrow> keeps P (forE xs f)"
proof (induction xs)
  case Nil
  then show ?case by (simp add: keeps_def)
next
  case (Cons x xs)
  then have "keeps P (\<lambda>s. bindE (f x s) (forE xs f))" by (auto intro: keeps_bindE)
  then show ?case by (simp add: keeps_def)
qed

text \<open>Steps given pointwise, and steps that first read an element of a list.\<close>

lemma keeps_ext: "(\<And>s. F s = G s) \<Longrightarrow> keeps P G \<Longrightarrow> keeps P F"
  by (simp add: keeps_def)

lemma keeps_Let [keeps_intros]:
  "(\<And>y. keeps P (f y)) \<Longrightarrow> keeps P (let y = x in f y)"
  "(\<And>y. keeps P (h y)) \<Longrightarrow> keeps P (\<lambda>s. let y = x in h y s)"
  by (simp_all add: Let_def)

lemma keeps_if_fun [keeps_intros]:
  "(b \<Longrightarrow> keeps P f) \<Longrightarrow> (\<not> b \<Longrightarrow> keeps P g) \<Longrightarrow> keeps P (\<lambda>s. if b then f s else g s)"
  by (cases b) simp_all

lemma keeps_option [keeps_intros]:
  "(x = None \<Longrightarrow> keeps P f) \<Longrightarrow> (\<And>y. x = Some y \<Longrightarrow> keeps P (h y)) \<Longrightarrow>
     keeps P (case x of None \<Rightarrow> f | Some y \<Rightarrow> h y)"
  "(x = None \<Longrightarrow> keeps P f) \<Longrightarrow> (\<And>y. x = Some y \<Longrightarrow> keeps P (h y)) \<Longrightarrow>
     keeps P (\<lambda>s. case x of None \<Rightarrow> f s | Some y \<Rightarrow> h y s)"
  by (cases x; simp)+

lemma keeps_prod [keeps_intros]:
  "(\<And>a b. x = (a, b) \<Longrightarrow> keeps P (f a b)) \<Longrightarrow> keeps P (case x of (a, b) \<Rightarrow> f a b)"
  "(\<And>a b. x = (a, b) \<Longrightarrow> keeps P (h a b)) \<Longrightarrow> keeps P (\<lambda>s. case x of (a, b) \<Rightarrow> h a b s)"
  by (cases x; simp)+

section \<open>Python sequences\<close>

text \<open>The value under a key of a dictionary, when it is there.\<close>

definition the_key :: "'a option \<Rightarrow> 'a result" where
  "the_key x = (case x of None \<Rightarrow> Inl KeyError | Some y \<Rightarrow> Inr y)"

lemma the_key_simps [simp]: "the_key None = Inl KeyError" "the_key (Some y) = Inr y"
  by (simp_all add: the_key_def)

text \<open>
  \<open>xs[i]\<close>: a negative index counts from the end, and an index out of range raises
  \<open>IndexError\<close>.
\<close>

definition py_index :: "'a list \<Rightarrow> int \<Rightarrow> 'a result" where
  "py_index xs i =
     (if - int (length xs) \<le> i \<and> i < int (length xs)
      then Inr (xs ! nat (i mod int (length xs))) else Inl IndexError)"

lemma py_index_nat [simp]: "i < length xs \<Longrightarrow> py_index xs (int i) = Inr (xs ! i)"
  by (simp add: py_index_def)

lemma py_index_out [simp]: "length xs \<le> i \<Longrightarrow> py_index xs (int i) = Inl IndexError"
  by (simp add: py_index_def)

lemma keeps_index [keeps_intros]:
  "i < length xs \<Longrightarrow> (\<And>x. keeps P (f x)) \<Longrightarrow> keeps P (\<lambda>s. bindE (py_index xs (int i)) (\<lambda>x. f x s))"
  by simp

lemma py_index_last [simp]: "xs \<noteq> [] \<Longrightarrow> py_index xs (- 1) = Inr (last xs)"
proof -
  assume "xs \<noteq> []"
  then have "nat (int (length xs) - 1) = length xs - 1" and "1 \<le> length xs"
    by (cases xs; simp)+
  then show ?thesis using \<open>xs \<noteq> []\<close> by (simp add: py_index_def last_conv_nth zmod_minus1)
qed

lemma py_index_neg:
  assumes "0 < k" and "k \<le> length xs"
  shows "py_index xs (- int k) = Inr (xs ! (length xs - k))"
proof -
  have "- int k mod int (length xs) = (- int k + int (length xs)) mod int (length xs)"
    by (rule mod_add_self2 [symmetric])
  also have "\<dots> = - int k + int (length xs)" using assms by (intro mod_pos_pos_trivial) auto
  also have "\<dots> = int (length xs - k)" using assms by (simp add: of_nat_diff)
  finally show ?thesis using assms unfolding py_index_def by (simp only: nat_int) simp
qed

text \<open>\<open>xs[lo:hi]\<close> with both bounds given; a bound out of range is clipped.\<close>

definition clip :: "nat \<Rightarrow> int \<Rightarrow> nat" where
  "clip n i = (if i < 0 then nat (max 0 (int n + i)) else min n (nat i))"

definition py_slice :: "'a list \<Rightarrow> int \<Rightarrow> int \<Rightarrow> 'a list" where
  "py_slice xs lo hi =
     (let l = clip (length xs) lo; h = clip (length xs) hi in take (h - l) (drop l xs))"

abbreviation py_from :: "'a list \<Rightarrow> int \<Rightarrow> 'a list" where
  "py_from xs lo \<equiv> py_slice xs lo (int (length xs))"

abbreviation py_upto :: "'a list \<Rightarrow> int \<Rightarrow> 'a list" where
  "py_upto xs hi \<equiv> py_slice xs 0 hi"

lemma clip_le: "clip n i \<le> n"
  by (auto simp: clip_def)

lemma clip_nat [simp]: "clip n (int k) = min n k"
  by (simp add: clip_def)

lemma py_upto_nat [simp]: "py_slice xs 0 (int k) = take k xs"
  by (simp add: py_slice_def clip_def min_def)

lemma py_from_nat [simp]: "py_slice xs (int k) (int (length xs)) = drop k xs"
  by (simp add: py_slice_def clip_def min_def)

lemma py_upto_neg: "0 < k \<Longrightarrow> py_slice xs 0 (- int k) = take (length xs - k) xs"
  by (auto simp: py_slice_def clip_def max_def nat_diff_distrib)

section \<open>Lists\<close>

lemma takeWhile_all_iff: "takeWhile P xs = xs \<longleftrightarrow> (\<forall>x\<in>set xs. P x)"
  by (induction xs) auto

lemma dropWhile_takeWhile_split: "xs = takeWhile P xs @ dropWhile P xs"
  by simp

lemma last_filter_append: "filter P ys \<noteq> [] \<Longrightarrow> last (filter P (xs @ ys)) = last (filter P ys)"
  by simp

lemma take_Suc_nth: "i < length xs \<Longrightarrow> take (Suc i) xs = take i xs @ [xs ! i]"
  by (rule take_Suc_conv_app_nth)

fun first_some :: "('a \<Rightarrow> 'b option) \<Rightarrow> 'a list \<Rightarrow> 'b option" where
  "first_some f [] = None"
| "first_some f (x # xs) = (case f x of Some y \<Rightarrow> Some y | None \<Rightarrow> first_some f xs)"

lemma first_some_append:
  "first_some f (xs @ ys) = (case first_some f xs of Some y \<Rightarrow> Some y | None \<Rightarrow> first_some f ys)"
  by (induction xs) (auto split: option.splits)

lemma first_some_concat:
  "first_some f (concat xss) = first_some (first_some f) xss"
  by (induction xss) (auto simp: first_some_append split: option.splits)

lemma first_some_map: "first_some f (map g xs) = first_some (\<lambda>x. f (g x)) xs"
  by (induction xs) (auto split: option.splits)

lemma first_some_None: "first_some f xs = None \<longleftrightarrow> (\<forall>x\<in>set xs. f x = None)"
  by (induction xs) (auto split: option.splits)

lemma first_some_SomeD: "first_some f xs = Some y \<Longrightarrow> \<exists>x\<in>set xs. f x = Some y"
  by (induction xs) (auto split: option.splits)

lemma first_some_cong [fundef_cong]:
  "xs = ys \<Longrightarrow> (\<And>x. x \<in> set ys \<Longrightarrow> f x = g x) \<Longrightarrow> first_some f xs = first_some g ys"
  by (induction ys arbitrary: xs) (auto split: option.splits)

end
