(* ===== verification/Py_String.thy ===== *)
theory Py_String
  imports Prelude "HOL-Library.Char_ord" "HOL-Library.List_Lexorder"
begin

text \<open>
  Python's string methods, as far as the modelled code calls them, on HOL's \<open>string\<close>: a
  character stands for a code point below 256. The literals of the source that hold a backslash
  are written with a backquote in its place and read through \<open>lit\<close>, because HOL's string
  literals have no backslash.
\<close>

section \<open>Literals and character classes\<close>

definition lit :: "string \<Rightarrow> string" where
  "lit s = map (\<lambda>c. if c = CHR ''`'' then CHR 0x5C else c) s"

abbreviation newline :: char where "newline \<equiv> CHR 0x0A"
abbreviation backslash :: char where "backslash \<equiv> CHR 0x5C"

text \<open>\<open>str.isspace\<close> of a \<open>unicode\<close> object, on code points below 256.\<close>

definition is_space :: "char \<Rightarrow> bool" where
  "is_space c \<longleftrightarrow> (let n = of_char c :: nat in
     (9 \<le> n \<and> n \<le> 13) \<or> (28 \<le> n \<and> n \<le> 32) \<or> n = 133 \<or> n = 160)"

definition is_digit :: "char \<Rightarrow> bool" where
  "is_digit c \<longleftrightarrow> (let n = of_char c :: nat in 48 \<le> n \<and> n \<le> 57)"

definition is_upper :: "char \<Rightarrow> bool" where
  "is_upper c \<longleftrightarrow> (let n = of_char c :: nat in 65 \<le> n \<and> n \<le> 90)"

definition is_lower :: "char \<Rightarrow> bool" where
  "is_lower c \<longleftrightarrow> (let n = of_char c :: nat in 97 \<le> n \<and> n \<le> 122)"

text \<open>\<open>isalnum\<close> of a \<open>unicode\<close> object, on code points below 256: letters and numerals.\<close>

definition is_alnum :: "char \<Rightarrow> bool" where
  "is_alnum c \<longleftrightarrow> is_digit c \<or> is_upper c \<or> is_lower c \<or>
     (let n = of_char c :: nat in
       n \<in> {170, 178, 179, 181, 185, 186, 188, 189, 190} \<or>
       (192 \<le> n \<and> n \<noteq> 215 \<and> n \<noteq> 247))"

text \<open>\<open>lower\<close> of a \<open>unicode\<close> object and \<open>upper\<close> of a byte string.\<close>

definition lower_char :: "char \<Rightarrow> char" where
  "lower_char c = (let n = of_char c :: nat in
     if (65 \<le> n \<and> n \<le> 90) \<or> (192 \<le> n \<and> n \<le> 222 \<and> n \<noteq> 215) then char_of (n + 32) else c)"

definition upper_char :: "char \<Rightarrow> char" where
  "upper_char c = (let n = of_char c :: nat in if 97 \<le> n \<and> n \<le> 122 then char_of (n - 32) else c)"

abbreviation lower :: "string \<Rightarrow> string" where "lower \<equiv> map lower_char"
abbreviation upper :: "string \<Rightarrow> string" where "upper \<equiv> map upper_char"

definition isspace :: "string \<Rightarrow> bool" where
  "isspace s \<longleftrightarrow> s \<noteq> [] \<and> list_all is_space s"

section \<open>Prefixes, suffixes, stripping\<close>

definition startswith :: "string \<Rightarrow> string \<Rightarrow> bool" where
  "startswith s p \<longleftrightarrow> take (length p) s = p"

definition endswith :: "string \<Rightarrow> string \<Rightarrow> bool" where
  "endswith s p \<longleftrightarrow> length p \<le> length s \<and> drop (length s - length p) s = p"

lemma startswith_iff: "startswith s p \<longleftrightarrow> (\<exists>t. s = p @ t)"
  by (auto simp: startswith_def) (metis append_take_drop_id)

lemma endswith_iff: "endswith s p \<longleftrightarrow> (\<exists>t. s = t @ p)"
  by (auto simp: endswith_def) (metis append_take_drop_id)

lemma startswith_code [code]:
  "startswith s [] = True"
  "startswith [] (p # ps) = False"
  "startswith (c # s) (p # ps) = (c = p \<and> startswith s ps)"
  by (auto simp: startswith_def)

lemma startswith_simps [simp]:
  "startswith s []"
  "\<not> startswith [] (p # ps)"
  "startswith (c # s) (p # ps) \<longleftrightarrow> c = p \<and> startswith s ps"
  by (auto simp: startswith_def)

lemma startswith_append [simp]: "startswith (p @ t) p"
  by (simp add: startswith_iff)

lemma endswith_append [simp]: "endswith (t @ p) p"
  by (simp add: endswith_iff)

lemma startswith_refl [simp]: "startswith s s"
  by (simp add: startswith_def)

lemma endswith_refl [simp]: "endswith s s"
  by (simp add: endswith_def)

lemma startswith_trans: "startswith s p \<Longrightarrow> startswith p q \<Longrightarrow> startswith s q"
  by (auto simp: startswith_iff)

lemma endswith_trans: "endswith s p \<Longrightarrow> endswith p q \<Longrightarrow> endswith s q"
  by (auto simp: endswith_iff)

definition lstrip :: "string \<Rightarrow> string" where
  "lstrip s = dropWhile is_space s"

definition rstrip :: "string \<Rightarrow> string" where
  "rstrip s = rev (dropWhile is_space (rev s))"

definition strip :: "string \<Rightarrow> string" where
  "strip s = rstrip (lstrip s)"

text \<open>\<open>s.lstrip(cs)\<close>, \<open>s.rstrip(cs)\<close> and \<open>s.strip(cs)\<close> with the characters given.\<close>

definition lstrip_chars :: "string \<Rightarrow> string \<Rightarrow> string" where
  "lstrip_chars s cs = dropWhile (\<lambda>c. c \<in> set cs) s"

definition rstrip_chars :: "string \<Rightarrow> string \<Rightarrow> string" where
  "rstrip_chars s cs = rev (dropWhile (\<lambda>c. c \<in> set cs) (rev s))"

definition strip_chars :: "string \<Rightarrow> string \<Rightarrow> string" where
  "strip_chars s cs = rstrip_chars (lstrip_chars s cs) cs"

section \<open>Searching and counting\<close>

fun str_find_aux :: "string \<Rightarrow> string \<Rightarrow> nat \<Rightarrow> int" where
  "str_find_aux [] p i = (if p = [] then int i else - 1)"
| "str_find_aux (c # cs) p i = (if startswith (c # cs) p then int i else str_find_aux cs p (Suc i))"

text \<open>\<open>s.find(p)\<close> and \<open>s.find(p, start)\<close> for \<open>0 \<le> start\<close>.\<close>

definition str_find :: "string \<Rightarrow> string \<Rightarrow> int" where
  "str_find s p = str_find_aux s p 0"

definition str_find_at :: "string \<Rightarrow> string \<Rightarrow> nat \<Rightarrow> int" where
  "str_find_at s p k = (if k \<le> length s then str_find_aux (drop k s) p k else - 1)"

definition str_in :: "string \<Rightarrow> string \<Rightarrow> bool" where
  "str_in s p \<longleftrightarrow> 0 \<le> str_find s p"

lemma str_find_aux_range: "str_find_aux s p i = - 1 \<or> (int i \<le> str_find_aux s p i \<and> str_find_aux s p i \<le> int (i + length s))"
proof (induction s p i rule: str_find_aux.induct)
  case (2 c cs p i)
  then show ?case by auto
qed auto

lemma str_find_aux_found:
  "str_find_aux s p i = int (i + k) \<Longrightarrow> k \<le> length s \<and> startswith (drop k s) p"
proof (induction s p i arbitrary: k rule: str_find_aux.induct)
  case (1 p i)
  then show ?case by (auto split: if_splits)
next
  case (2 c cs p i)
  show ?case
  proof (cases "startswith (c # cs) p")
    case True
    with 2 show ?thesis by auto
  next
    case False
    with 2 have r: "str_find_aux cs p (Suc i) = int (i + k)" by simp
    from str_find_aux_range[of cs p "Suc i"] r obtain k' where k: "k = Suc k'"
      by (cases k) auto
    with 2 False r show ?thesis by auto
  qed
qed

lemma str_find_aux_least:
  "k \<le> length s \<Longrightarrow> startswith (drop k s) p \<Longrightarrow> 0 \<le> str_find_aux s p i \<and> str_find_aux s p i \<le> int (i + k)"
proof (induction s p i arbitrary: k rule: str_find_aux.induct)
  case (1 p i)
  then show ?case by (cases p) auto
next
  case (2 c cs p i)
  show ?case
  proof (cases "startswith (c # cs) p")
    case True
    then show ?thesis by auto
  next
    case False
    with 2 obtain k' where "k = Suc k'" by (cases k) auto
    with 2 False show ?thesis by fastforce
  qed
qed

lemma str_find_none: "str_find s p = - 1 \<longleftrightarrow> (\<forall>a b. s \<noteq> a @ p @ b)"
proof
  assume l: "str_find s p = - 1"
  show "\<forall>a b. s \<noteq> a @ p @ b"
  proof (intro allI notI)
    fix a b assume "s = a @ p @ b"
    with str_find_aux_least[of "length a" s p 0] l show False by (simp add: str_find_def)
  qed
next
  assume r: "\<forall>a b. s \<noteq> a @ p @ b"
  show "str_find s p = - 1"
  proof (rule ccontr)
    assume "str_find s p \<noteq> - 1"
    with str_find_aux_range[of s p 0] obtain k where "str_find_aux s p 0 = int (0 + k)"
      by (auto simp: str_find_def dest: zero_le_imp_eq_int)
    then have "startswith (drop k s) p" using str_find_aux_found by blast
    then have "s = take k s @ p @ drop (k + length p) s"
      by (auto simp: startswith_iff) (metis append.assoc append_take_drop_id append_eq_conv_conj drop_drop add.commute)
    with r show False by blast
  qed
qed

lemma str_in_iff: "str_in s p \<longleftrightarrow> (\<exists>a b. s = a @ p @ b)"
proof -
  have "str_in s p \<longleftrightarrow> str_find s p \<noteq> - 1"
    using str_find_aux_range[of s p 0] by (auto simp: str_in_def str_find_def)
  then show ?thesis by (auto simp: str_find_none)
qed

lemma str_find_Some: "str_find s p = int k \<Longrightarrow> k \<le> length s \<and> startswith (drop k s) p"
  using str_find_aux_found[of s p 0 k] by (simp add: str_find_def)

text \<open>\<open>s.rfind(p, 0, e)\<close>: the last occurrence that lies in \<open>s[:e]\<close>.\<close>

fun str_rfind_aux :: "string \<Rightarrow> string \<Rightarrow> nat \<Rightarrow> int \<Rightarrow> int" where
  "str_rfind_aux [] p i best = (if p = [] then int i else best)"
| "str_rfind_aux (c # cs) p i best =
     str_rfind_aux cs p (Suc i) (if startswith (c # cs) p then int i else best)"

definition str_rfind :: "string \<Rightarrow> string \<Rightarrow> int" where
  "str_rfind s p = str_rfind_aux s p 0 (- 1)"

definition str_rfind_upto :: "string \<Rightarrow> string \<Rightarrow> int \<Rightarrow> int" where
  "str_rfind_upto s p e = str_rfind (py_upto s e) p"

lemma str_rfind_aux_range:
  "str_rfind_aux s p i best = best \<or> (int i \<le> str_rfind_aux s p i best \<and> str_rfind_aux s p i best \<le> int (i + length s))"
proof (induction s p i best rule: str_rfind_aux.induct)
  case (2 c cs p i best)
  then show ?case by (auto split: if_splits)
qed auto

lemma str_rfind_range: "- 1 \<le> str_rfind s p \<and> str_rfind s p \<le> int (length s)"
  using str_rfind_aux_range[of s p 0 "- 1"] by (auto simp: str_rfind_def)

lemma str_rfind_aux_char:
  "str_rfind_aux (s @ [c]) [d] i best = (if c = d then int (i + length s) else str_rfind_aux s [d] i best)"
  by (induction s arbitrary: i best) auto

lemma str_rfind_snoc: "str_rfind (s @ [c]) [d] = (if c = d then int (length s) else str_rfind s [d])"
  by (simp add: str_rfind_def str_rfind_aux_char)

lemma str_rfind_absent: "d \<notin> set s \<Longrightarrow> str_rfind s [d] = - 1"
proof (induction s rule: rev_induct)
  case Nil
  then show ?case by (simp add: str_rfind_def)
next
  case (snoc c s)
  then show ?case by (auto simp: str_rfind_snoc)
qed

text \<open>\<open>s.count(p)\<close> for a non-empty \<open>p\<close>: occurrences that do not overlap, from the left.\<close>

fun str_count :: "string \<Rightarrow> string \<Rightarrow> nat" where
  "str_count [] p = 0"
| "str_count (c # cs) p =
     (if startswith (c # cs) p then Suc (str_count (drop (length p - 1) cs) p) else str_count cs p)"

lemma str_count_char: "str_count s [c] = length (filter (\<lambda>x. x = c) s)"
  by (induction s "[c]" rule: str_count.induct) auto

lemma str_count_char_append [simp]: "str_count (s @ t) [c] = str_count s [c] + str_count t [c]"
  by (simp add: str_count_char)

lemma str_count_char_zero: "str_count s [c] = 0 \<longleftrightarrow> c \<notin> set s"
  by (auto simp: str_count_char filter_empty_conv)

section \<open>Replacing, splitting, joining\<close>

text \<open>\<open>s.replace(old, new)\<close> for a non-empty \<open>old\<close>.\<close>

fun str_replace :: "string \<Rightarrow> string \<Rightarrow> string \<Rightarrow> string" where
  "str_replace [] old new = []"
| "str_replace (c # cs) old new =
     (if startswith (c # cs) old then new @ str_replace (drop (length old - 1) cs) old new
      else c # str_replace cs old new)"

lemma str_replace_char: "str_replace s [a] [b] = map (\<lambda>c. if c = a then b else c) s"
  by (induction s "[a]" "[b]" rule: str_replace.induct) auto

text \<open>\<open>s.split(sep)\<close> for a non-empty separator.\<close>

fun str_split_aux :: "string \<Rightarrow> string \<Rightarrow> string \<Rightarrow> string list" where
  "str_split_aux [] sep acc = [rev acc]"
| "str_split_aux (c # cs) sep acc =
     (if startswith (c # cs) sep then rev acc # str_split_aux (drop (length sep - 1) cs) sep []
      else str_split_aux cs sep (c # acc))"

definition str_split :: "string \<Rightarrow> string \<Rightarrow> string list" where
  "str_split s sep = str_split_aux s sep []"

fun str_join :: "string \<Rightarrow> string list \<Rightarrow> string" where
  "str_join sep [] = []"
| "str_join sep [x] = x"
| "str_join sep (x # y # xs) = x @ sep @ str_join sep (y # xs)"

lemma str_split_aux_nonempty: "str_split_aux s sep acc \<noteq> []"
  by (induction s sep acc rule: str_split_aux.induct) auto

lemma str_split_nonempty [simp]: "str_split s sep \<noteq> []"
  by (simp add: str_split_def str_split_aux_nonempty)

lemma str_join_Cons: "xs \<noteq> [] \<Longrightarrow> str_join sep (x # xs) = x @ sep @ str_join sep xs"
  by (cases xs) auto

lemma str_join_split_aux: "sep \<noteq> [] \<Longrightarrow> str_join sep (str_split_aux s sep acc) = rev acc @ s"
proof (induction s sep acc rule: str_split_aux.induct)
  case (1 sep acc)
  then show ?case by simp
next
  case (2 c cs sep acc)
  show ?case
  proof (cases "startswith (c # cs) sep")
    case True
    then obtain t where t: "c # cs = sep @ t" by (auto simp: startswith_iff)
    with "2.prems" have "drop (length sep - 1) cs = t" by (cases sep) auto
    with 2 True have "str_join sep (str_split_aux (c # cs) sep acc) = rev acc @ sep @ t"
      by (simp add: str_join_Cons str_split_aux_nonempty)
    with t show ?thesis by simp
  next
    case False
    with 2 show ?thesis by simp
  qed
qed

lemma str_join_split: "sep \<noteq> [] \<Longrightarrow> str_join sep (str_split s sep) = s"
  by (simp add: str_split_def str_join_split_aux)

lemma str_split_aux_char_free: "x \<in> set (str_split_aux s [c] acc) \<Longrightarrow> c \<notin> set acc \<Longrightarrow> c \<notin> set x"
  by (induction s "[c]" acc rule: str_split_aux.induct) (auto split: if_splits)

lemma str_split_char_free: "x \<in> set (str_split s [c]) \<Longrightarrow> c \<notin> set x"
  unfolding str_split_def by (drule str_split_aux_char_free) auto

lemma str_split_aux_free: "c \<notin> set s \<Longrightarrow> str_split_aux s [c] acc = [rev acc @ s]"
  by (induction s arbitrary: acc) auto

lemma str_split_aux_char_append: "c \<notin> set x \<Longrightarrow> str_split_aux (x @ c # s) [c] acc = (rev acc @ x) # str_split_aux s [c] []"
  by (induction x arbitrary: acc) auto

lemma str_split_join:
  "xs \<noteq> [] \<Longrightarrow> \<forall>x\<in>set xs. c \<notin> set x \<Longrightarrow> str_split (str_join [c] xs) [c] = xs"
proof (induction "[c]" xs rule: str_join.induct)
  case (2 x)
  then show ?case by (simp add: str_split_def str_split_aux_free)
next
  case (3 x y xs)
  then show ?case by (simp add: str_split_def str_split_aux_char_append)
qed auto

lemma str_last_split_aux_char:
  "last (str_split_aux s [c] acc) = (if c \<in> set s then rev (takeWhile (\<lambda>x. x \<noteq> c) (rev s)) else rev acc @ s)"
proof (induction s "[c]" acc rule: str_split_aux.induct)
  case (1 acc)
  then show ?case by simp
next
  case (2 d cs acc)
  show ?case
  proof (cases "d = c")
    case True
    with 2 show ?thesis
      by (auto simp: str_split_aux_nonempty takeWhile_append takeWhile_eq_all_conv)
  next
    case False
    with 2 show ?thesis by (auto simp: takeWhile_append)
  qed
qed

text \<open>\<open>s.split()\<close>: the maximal runs of characters that are not white space.\<close>

fun str_words_aux :: "string \<Rightarrow> string \<Rightarrow> string list" where
  "str_words_aux [] acc = (if acc = [] then [] else [rev acc])"
| "str_words_aux (c # cs) acc =
     (if is_space c then (if acc = [] then str_words_aux cs [] else rev acc # str_words_aux cs [])
      else str_words_aux cs (c # acc))"

definition str_words :: "string \<Rightarrow> string list" where
  "str_words s = str_words_aux s []"

lemma str_words_aux_set:
  "w \<in> set (str_words_aux s acc) \<Longrightarrow> list_all (\<lambda>c. \<not> is_space c) acc \<Longrightarrow>
     w \<noteq> [] \<and> list_all (\<lambda>c. \<not> is_space c) w"
proof (induction s acc rule: str_words_aux.induct)
  case (1 acc)
  then show ?case by (simp add: list_all_iff split: if_splits)
next
  case (2 c cs acc)
  show ?case
  proof (cases "is_space c")
    case True
    with 2 show ?thesis by (cases "acc = []") (auto simp: list_all_iff)
  next
    case False
    with 2 show ?thesis by simp
  qed
qed

lemma str_words_set: "w \<in> set (str_words s) \<Longrightarrow> w \<noteq> [] \<and> (\<forall>c\<in>set w. \<not> is_space c)"
  using str_words_aux_set[of w s "[]"] by (auto simp: str_words_def list_all_iff)

section \<open>Numbers\<close>

text \<open>The decimal numeral of a number, as \<open>%d\<close> and \<open>str\<close> print it.\<close>

fun str_digits :: "nat \<Rightarrow> string" where
  "str_digits n = (if n < 10 then [char_of (48 + n)] else str_digits (n div 10) @ [char_of (48 + n mod 10)])"

declare str_digits.simps [simp del]

definition str_int :: "int \<Rightarrow> string" where
  "str_int i = (if i < 0 then CHR ''-'' # str_digits (nat (- i)) else str_digits (nat i))"

lemma str_digits_nonempty: "str_digits n \<noteq> []"
  by (subst str_digits.simps) simp

end
