(* ===== verification/Py_Regex.thy ===== *)
theory Py_Regex
  imports Py_String "HOL-Library.Sublist"
begin

text \<open>
  Python's \<open>re\<close> module as the modelled code uses it: the abstract syntax of patterns, a
  compiler from the pattern text (\<open>re_compile\<close>), the backtracking matcher with its captures
  (\<open>matches\<close> lists every way to match, in the order the engine tries them), and
  \<open>match\<close>, \<open>search\<close>, \<open>findall\<close>, \<open>sub\<close> and \<open>split\<close>. The
  lemmas relate the matcher to a declarative semantics (\<open>sem\<close>), show that a match never
  changes the subject, and give a lazy evaluator (\<open>run\<close>) that returns the first match.
\<close>

section \<open>Patterns\<close>

datatype char_item =
    One char
  | Range char char
  | Digit
  | NonDigit
  | WordChar
  | NonWordChar
  | SpaceChar
  | NonSpaceChar

text \<open>Without the \<open>UNICODE\<close> flag the classes are the ASCII ones.\<close>

definition re_word :: "char \<Rightarrow> bool" where
  "re_word c \<longleftrightarrow> is_digit c \<or> is_upper c \<or> is_lower c \<or> c = CHR ''_''"

definition re_space :: "char \<Rightarrow> bool" where
  "re_space c \<longleftrightarrow> c \<in> {CHR 0x20, CHR 0x09, CHR 0x0A, CHR 0x0D, CHR 0x0C, CHR 0x0B}"

fun item_matches :: "char_item \<Rightarrow> char \<Rightarrow> bool" where
  "item_matches (One a) c = (c = a)"
| "item_matches (Range a b) c =
     ((of_char a :: nat) \<le> of_char c \<and> (of_char c :: nat) \<le> of_char b)"
| "item_matches Digit c = is_digit c"
| "item_matches NonDigit c = (\<not> is_digit c)"
| "item_matches WordChar c = re_word c"
| "item_matches NonWordChar c = (\<not> re_word c)"
| "item_matches SpaceChar c = re_space c"
| "item_matches NonSpaceChar c = (\<not> re_space c)"

datatype regex =
    Eps
  | Lit char
  | Any
  | Class bool "char_item list"
  | Bol
  | Eol
  | WordB
  | Cat regex regex
  | Alt regex regex
  | Rep bool nat "nat option" regex
  | Group nat regex
  | Backref nat
  | Ahead bool regex
  | NotBehind string

text \<open>
  \<open>Class neg items\<close> is \<open>[...]\<close> or \<open>[^...]\<close>; \<open>Rep greedy lo hi r\<close> is
  \<open>r{lo,hi}\<close>, with \<open>hi = None\<close> for no upper bound and \<open>greedy = False\<close> for
  the forms with a trailing question mark; \<open>Ahead True r\<close> and \<open>Ahead False r\<close> are the
  two lookaheads; \<open>NotBehind p\<close> is the negative lookbehind of a literal.
\<close>

section \<open>The matcher\<close>

text \<open>
  A state of the engine: the characters already passed (nearest first), the characters still to
  read, and the captures, newest first, each a group number with the start and the text captured.
\<close>

type_synonym caps = "(nat \<times> nat \<times> string) list"

datatype mst = MS (before: string) (rest: string) (caps: caps)

definition subject :: "mst \<Rightarrow> string" where
  "subject st = rev (before st) @ rest st"

definition eat :: "(char \<Rightarrow> bool) \<Rightarrow> mst \<Rightarrow> mst list" where
  "eat P st = (case rest st of [] \<Rightarrow> []
     | c # cs \<Rightarrow> if P c then [MS (c # before st) cs (caps st)] else [])"

definition guard :: "bool \<Rightarrow> mst \<Rightarrow> mst list" where
  "guard b st = (if b then [st] else [])"

definition class_matches :: "bool \<Rightarrow> char_item list \<Rightarrow> char \<Rightarrow> bool" where
  "class_matches neg items c \<longleftrightarrow> neg \<noteq> list_ex (\<lambda>i. item_matches i c) items"

definition at_word :: "string \<Rightarrow> bool" where
  "at_word s = (case s of [] \<Rightarrow> False | c # _ \<Rightarrow> re_word c)"

definition at_end :: "string \<Rightarrow> bool" where
  "at_end s \<longleftrightarrow> s = [] \<or> s = [newline]"

text \<open>Recording a group: the text between the state it was entered in and the state it was left in.\<close>

definition capture :: "nat \<Rightarrow> mst \<Rightarrow> mst \<Rightarrow> mst" where
  "capture n st st' = MS (before st') (rest st')
     ((n, length (before st), take (length (rest st) - length (rest st')) (rest st)) # caps st')"

definition back_ref :: "nat \<Rightarrow> mst \<Rightarrow> mst list" where
  "back_ref n st = (case map_of (caps st) n of None \<Rightarrow> []
     | Some (_, t) \<Rightarrow> if startswith (rest st) t
         then [MS (rev t @ before st) (drop (length t) (rest st)) (caps st)] else [])"

text \<open>
  Repetition of a body: below the lower bound the body must match; from there on the greedy form
  prefers one more iteration. An iteration that consumed nothing is the last one, as in the
  engine. The fuel is the length of the remaining text plus the lower bound plus one: every
  iteration either lowers the bound or consumes a character.
\<close>

definition dec :: "nat option \<Rightarrow> nat option" where
  "dec mx = map_option (\<lambda>n. n - 1) mx"

primrec rep_matches ::
  "nat \<Rightarrow> bool \<Rightarrow> (mst \<Rightarrow> mst list) \<Rightarrow> nat \<Rightarrow> nat option \<Rightarrow> mst \<Rightarrow> mst list" where
  "rep_matches 0 g body mn mx st = []"
| "rep_matches (Suc f) g body mn mx st =
     (let more = (if mx = Some 0 then [] else concat (map (\<lambda>st'.
                    if mn = 0 \<and> rest st' = rest st then [st']
                    else rep_matches f g body (mn - 1) (dec mx) st') (body st)));
          stop = (if mn = 0 then [st] else [])
      in if g then more @ stop else stop @ more)"

primrec matches :: "regex \<Rightarrow> mst \<Rightarrow> mst list" where
  "matches Eps st = [st]"
| "matches (Lit c) st = eat (\<lambda>x. x = c) st"
| "matches Any st = eat (\<lambda>x. x \<noteq> newline) st"
| "matches (Class neg items) st = eat (class_matches neg items) st"
| "matches Bol st = guard (before st = []) st"
| "matches Eol st = guard (at_end (rest st)) st"
| "matches WordB st = guard (at_word (before st) \<noteq> at_word (rest st)) st"
| "matches (Cat r s) st = concat (map (matches s) (matches r st))"
| "matches (Alt r s) st = matches r st @ matches s st"
| "matches (Rep g mn mx r) st = rep_matches (length (rest st) + mn + 1) g (matches r) mn mx st"
| "matches (Group n r) st = map (capture n st) (matches r st)"
| "matches (Backref n) st = back_ref n st"
| "matches (Ahead pos r) st = guard (pos \<longleftrightarrow> matches r st \<noteq> []) st"
| "matches (NotBehind p) st = guard (\<not> startswith (before st) (rev p)) st"

section \<open>Matching, searching, substituting\<close>

datatype match_obj = Match_Obj (m_start: nat) (m_text: string) (m_caps: caps)

definition m_end :: "match_obj \<Rightarrow> nat" where
  "m_end m = m_start m + length (m_text m)"

text \<open>\<open>m.group(n)\<close>: \<open>None\<close> for a group that took no part; \<open>m.start(n)\<close> is then -1.\<close>

definition m_group :: "match_obj \<Rightarrow> nat \<Rightarrow> string option" where
  "m_group m n = (if n = 0 then Some (m_text m) else map_option snd (map_of (m_caps m) n))"

definition m_group_start :: "match_obj \<Rightarrow> nat \<Rightarrow> int" where
  "m_group_start m n = (case map_of (m_caps m) n of None \<Rightarrow> - 1 | Some (k, _) \<Rightarrow> int k)"

definition first_match :: "regex \<Rightarrow> mst \<Rightarrow> mst option" where
  "first_match r st = (case matches r st of [] \<Rightarrow> None | st' # _ \<Rightarrow> Some st')"

definition match_at :: "regex \<Rightarrow> string \<Rightarrow> string \<Rightarrow> match_obj option" where
  "match_at r b s = (case first_match r (MS b s []) of None \<Rightarrow> None
     | Some st \<Rightarrow> Some (Match_Obj (length b) (take (length s - length (rest st)) s) (caps st)))"

definition re_match :: "regex \<Rightarrow> string \<Rightarrow> match_obj option" where
  "re_match r s = match_at r [] s"

fun search_from :: "regex \<Rightarrow> string \<Rightarrow> string \<Rightarrow> match_obj option" where
  "search_from r b [] = match_at r b []"
| "search_from r b (c # cs) =
     (case match_at r b (c # cs) of Some m \<Rightarrow> Some m | None \<Rightarrow> search_from r (c # b) cs)"

definition re_search :: "regex \<Rightarrow> string \<Rightarrow> match_obj option" where
  "re_search r s = search_from r [] s"

text \<open>
  The matches that do not overlap, from the left (\<open>finditer\<close>): the scan goes on behind a
  match, one further behind an empty one. The fuel is the length of the text plus one.
\<close>

primrec scan :: "nat \<Rightarrow> regex \<Rightarrow> string \<Rightarrow> string \<Rightarrow> match_obj list" where
  "scan 0 r b s = []"
| "scan (Suc f) r b s =
     (case search_from r b s of None \<Rightarrow> []
      | Some m \<Rightarrow>
          (let k = m_end m - length b in
           m # (if m_text m = [] then
                  (if k < length s
                   then scan f r (rev (take (Suc k) s) @ b) (drop (Suc k) s) else [])
                else scan f r (rev (take k s) @ b) (drop k s))))"

definition find_all :: "regex \<Rightarrow> string \<Rightarrow> match_obj list" where
  "find_all r s = scan (length s + 1) r [] s"

text \<open>\<open>re.sub(r, by, s)\<close> and \<open>re.split(r, s)\<close> for patterns that never match the empty string.\<close>

fun pieces :: "match_obj list \<Rightarrow> nat \<Rightarrow> string \<Rightarrow> string list" where
  "pieces [] k s = [s]"
| "pieces (m # ms) k s = take (m_start m - k) s # pieces ms (m_end m) (drop (m_end m - k) s)"

definition re_split :: "regex \<Rightarrow> string \<Rightarrow> string list" where
  "re_split r s = pieces (find_all r s) 0 s"

definition re_sub :: "regex \<Rightarrow> string \<Rightarrow> string \<Rightarrow> string" where
  "re_sub r by s = str_join by (re_split r s)"

section \<open>Compiling the pattern text\<close>

text \<open>
  One pass over the pattern with a stack of the open groups. A frame holds what the group is,
  the alternatives already closed and the items of the current alternative, newest first.
\<close>

datatype frame_kind = Top | Capture nat | NoCapture | Look bool | LookBehind

datatype frame = Frame frame_kind "regex list" "regex list"

fun cats :: "regex list \<Rightarrow> regex" where
  "cats [] = Eps"
| "cats [r] = r"
| "cats (r # rs) = Cat r (cats rs)"

fun alts :: "regex list \<Rightarrow> regex" where
  "alts [] = Eps"
| "alts [r] = r"
| "alts (r # rs) = Alt r (alts rs)"

definition frame_regex :: "regex list \<Rightarrow> regex list \<Rightarrow> regex" where
  "frame_regex as items = alts (rev (cats (rev items) # as))"

fun literal_text :: "regex list \<Rightarrow> string option" where
  "literal_text [] = Some []"
| "literal_text (Lit c # rs) = map_option (\<lambda>t. c # t) (literal_text rs)"
| "literal_text _ = None"

fun close_frame :: "frame \<Rightarrow> regex option" where
  "close_frame (Frame Top as items) = None"
| "close_frame (Frame (Capture n) as items) = Some (Group n (frame_regex as items))"
| "close_frame (Frame NoCapture as items) = Some (frame_regex as items)"
| "close_frame (Frame (Look p) as items) = Some (Ahead p (frame_regex as items))"
| "close_frame (Frame LookBehind as items) =
     (if as = [] then map_option NotBehind (literal_text (rev items)) else None)"

text \<open>An escape outside a class, and one inside.\<close>

definition escape_atom :: "char \<Rightarrow> regex" where
  "escape_atom c =
     (if c = CHR ''b'' then WordB
      else if c = CHR ''d'' then Class False [Digit]
      else if c = CHR ''D'' then Class False [NonDigit]
      else if c = CHR ''w'' then Class False [WordChar]
      else if c = CHR ''W'' then Class False [NonWordChar]
      else if c = CHR ''s'' then Class False [SpaceChar]
      else if c = CHR ''S'' then Class False [NonSpaceChar]
      else if is_digit c then Backref (of_char c - 48)
      else Lit c)"

definition escape_item :: "char \<Rightarrow> char_item" where
  "escape_item c =
     (if c = CHR ''d'' then Digit
      else if c = CHR ''D'' then NonDigit
      else if c = CHR ''w'' then WordChar
      else if c = CHR ''W'' then NonWordChar
      else if c = CHR ''s'' then SpaceChar
      else if c = CHR ''S'' then NonSpaceChar
      else One c)"

text \<open>The items of a class up to its closing bracket; a bracket in first place is a character.\<close>

fun class_items :: "bool \<Rightarrow> string \<Rightarrow> char_item list \<Rightarrow> (char_item list \<times> string) option" where
  "class_items first [] acc = None"
| "class_items first [c] acc =
     (if c = CHR '']'' \<and> \<not> first then Some (rev acc, []) else None)"
| "class_items first [c, d] acc =
     (if c = CHR '']'' \<and> \<not> first then Some (rev acc, [d])
      else if c = backslash then None
      else class_items False [d] (One c # acc))"
| "class_items first (c # d # e # cs) acc =
     (if c = CHR '']'' \<and> \<not> first then Some (rev acc, d # e # cs)
      else if c = backslash then class_items False (e # cs) (escape_item d # acc)
      else if d = CHR ''-'' \<and> e \<noteq> CHR '']'' then class_items False cs (Range c e # acc)
      else class_items False (d # e # cs) (One c # acc))"

text \<open>\<open>{m}\<close>, \<open>{m,}\<close> and \<open>{m,n}\<close>; any other brace is a literal.\<close>

definition digit_value :: "char \<Rightarrow> nat" where
  "digit_value c = of_char c - 48"

definition number :: "string \<Rightarrow> nat" where
  "number ds = foldl (\<lambda>n c. 10 * n + digit_value c) 0 ds"

definition braces :: "string \<Rightarrow> (nat \<times> nat option \<times> string) option" where
  "braces s =
     (let ds = takeWhile is_digit s; t = dropWhile is_digit s in
      if ds = [] then None
      else case t of
        [] \<Rightarrow> None
      | c # u \<Rightarrow>
          if c = CHR ''}'' then Some (number ds, Some (number ds), u)
          else if c = CHR '','' then
            (let es = takeWhile is_digit u in
             case dropWhile is_digit u of
               [] \<Rightarrow> None
             | d # v \<Rightarrow>
                 if d = CHR ''}''
                 then Some (number ds, if es = [] then None else Some (number es), v)
                 else None)
          else None)"

definition lazy_suffix :: "string \<Rightarrow> bool \<times> string" where
  "lazy_suffix s = (if startswith s ''?'' then (False, drop 1 s) else (True, s))"

definition quantify :: "nat \<Rightarrow> nat option \<Rightarrow> bool \<Rightarrow> regex list \<Rightarrow> regex list option" where
  "quantify lo hi g items = (case items of [] \<Rightarrow> None | r # rs \<Rightarrow> Some (Rep g lo hi r # rs))"

definition group_open :: "nat \<Rightarrow> string \<Rightarrow> frame_kind \<times> nat \<times> string" where
  "group_open n s =
     (if startswith s ''?:'' then (NoCapture, n, drop 2 s)
      else if startswith s ''?='' then (Look True, n, drop 2 s)
      else if startswith s ''?!'' then (Look False, n, drop 2 s)
      else if startswith s ''?<!'' then (LookBehind, n, drop 3 s)
      else (Capture n, Suc n, s))"

definition quantifier :: "char \<Rightarrow> string \<Rightarrow> (nat \<times> nat option \<times> string) option" where
  "quantifier c cs =
     (if c = CHR ''*'' then Some (0, None, cs)
      else if c = CHR ''+'' then Some (1, None, cs)
      else if c = CHR ''?'' then Some (0, Some 1, cs)
      else if c = CHR ''{'' then braces cs
      else None)"

text \<open>
  The compiler proper. Every step reads at least one character of the pattern, so its length plus
  one is enough fuel; a pattern that is not well formed has no result.
\<close>

primrec parse :: "nat \<Rightarrow> string \<Rightarrow> nat \<Rightarrow> frame list \<Rightarrow> regex option" where
  "parse 0 s n st = None"
| "parse (Suc f) s n st =
     (case st of [] \<Rightarrow> None
      | Frame k as items # up \<Rightarrow>
     (case s of
        [] \<Rightarrow> (case (k, up) of (Top, []) \<Rightarrow> Some (frame_regex as items) | _ \<Rightarrow> None)
      | c # cs \<Rightarrow>
          if c = CHR ''('' then
            (let (k', n', cs') = group_open n cs in parse f cs' n' (Frame k' [] [] # st))
          else if c = CHR '')'' then
            (case (close_frame (Frame k as items), up) of
               (Some r, Frame k' as' items' # up') \<Rightarrow>
                 parse f cs n (Frame k' as' (r # items') # up')
             | _ \<Rightarrow> None)
          else if c = CHR ''|'' then
            parse f cs n (Frame k (cats (rev items) # as) [] # up)
          else if c = CHR ''.'' then parse f cs n (Frame k as (Any # items) # up)
          else if c = CHR ''^'' then parse f cs n (Frame k as (Bol # items) # up)
          else if c = CHR ''$'' then parse f cs n (Frame k as (Eol # items) # up)
          else if c = CHR ''['' then
            (case (if startswith cs ''^'' then class_items True (drop 1 cs) []
                   else class_items True cs []) of
               None \<Rightarrow> None
             | Some (its, cs') \<Rightarrow>
                 parse f cs' n (Frame k as (Class (startswith cs ''^'') its # items) # up))
          else if c = backslash then
            (case cs of [] \<Rightarrow> None
             | d # ds \<Rightarrow> parse f ds n (Frame k as (escape_atom d # items) # up))
          else (case quantifier c cs of
              Some (lo, hi, cs') \<Rightarrow>
                (let (g, cs'') = lazy_suffix cs' in
                 case quantify lo hi g items of None \<Rightarrow> None
                 | Some items' \<Rightarrow> parse f cs'' n (Frame k as items' # up))
            | None \<Rightarrow> parse f cs n (Frame k as (Lit c # items) # up))))"

definition re_compile :: "string \<Rightarrow> regex option" where
  "re_compile s = parse (length s + 1) s 1 [Frame Top [] []]"

text \<open>Pattern literals of the source: backquote for backslash, and no result is no pattern.\<close>

definition rx :: "string \<Rightarrow> regex" where
  "rx s = (case re_compile (lit s) of Some r \<Rightarrow> r | None \<Rightarrow> Alt Eps Eps)"

text \<open>\<open>re.VERBOSE\<close> (no class of the source's verbose pattern holds a blank) and \<open>re.I\<close>.\<close>

definition verbose :: "string \<Rightarrow> string" where
  "verbose s = filter (\<lambda>c. \<not> re_space c) s"

primrec ignore_case :: "regex \<Rightarrow> regex" where
  "ignore_case Eps = Eps"
| "ignore_case (Lit c) = Class False [One (lower_char c), One (upper_char c)]"
| "ignore_case Any = Any"
| "ignore_case (Class neg items) = Class neg items"
| "ignore_case Bol = Bol"
| "ignore_case Eol = Eol"
| "ignore_case WordB = WordB"
| "ignore_case (Cat r s) = Cat (ignore_case r) (ignore_case s)"
| "ignore_case (Alt r s) = Alt (ignore_case r) (ignore_case s)"
| "ignore_case (Rep g mn mx r) = Rep g mn mx (ignore_case r)"
| "ignore_case (Group n r) = Group n (ignore_case r)"
| "ignore_case (Backref n) = Backref n"
| "ignore_case (Ahead p r) = Ahead p (ignore_case r)"
| "ignore_case (NotBehind p) = NotBehind p"

section \<open>The declarative semantics\<close>

text \<open>A state reached by reading: the same subject, further on.\<close>

definition reaches :: "mst \<Rightarrow> mst \<Rightarrow> bool" where
  "reaches st st' \<longleftrightarrow> (\<exists>t. rest st = t @ rest st' \<and> before st' = rev t @ before st)"

lemma reaches_refl [simp]: "reaches st st"
  by (simp add: reaches_def)

lemma reaches_trans: "reaches st st1 \<Longrightarrow> reaches st1 st2 \<Longrightarrow> reaches st st2"
  unfolding reaches_def by auto

lemma reaches_subject: "reaches st st' \<Longrightarrow> subject st' = subject st"
  by (auto simp: reaches_def subject_def)

lemma reaches_length: "reaches st st' \<Longrightarrow> length (rest st') \<le> length (rest st)"
  by (auto simp: reaches_def)

lemma reaches_progress: "reaches st st' \<Longrightarrow> rest st' \<noteq> rest st \<Longrightarrow> length (rest st') < length (rest st)"
  by (auto simp: reaches_def)

definition eats :: "(char \<Rightarrow> bool) \<Rightarrow> mst \<Rightarrow> mst \<Rightarrow> bool" where
  "eats P st st' \<longleftrightarrow> (\<exists>c cs. rest st = c # cs \<and> P c \<and> st' = MS (c # before st) cs (caps st))"

inductive rep_sem :: "(mst \<Rightarrow> mst \<Rightarrow> bool) \<Rightarrow> nat \<Rightarrow> nat option \<Rightarrow> mst \<Rightarrow> mst \<Rightarrow> bool"
  for B :: "mst \<Rightarrow> mst \<Rightarrow> bool" where
  rep_stop: "rep_sem B 0 mx st st"
| rep_last: "mx \<noteq> Some 0 \<Longrightarrow> B st st1 \<Longrightarrow> rest st1 = rest st \<Longrightarrow> rep_sem B 0 mx st st1"
| rep_more: "mx \<noteq> Some 0 \<Longrightarrow> B st st1 \<Longrightarrow> mn \<noteq> 0 \<or> rest st1 \<noteq> rest st \<Longrightarrow>
    rep_sem B (mn - 1) (dec mx) st1 st2 \<Longrightarrow> rep_sem B mn mx st st2"

primrec sem :: "regex \<Rightarrow> mst \<Rightarrow> mst \<Rightarrow> bool" where
  "sem Eps st st' = (st' = st)"
| "sem (Lit c) st st' = eats (\<lambda>x. x = c) st st'"
| "sem Any st st' = eats (\<lambda>x. x \<noteq> newline) st st'"
| "sem (Class neg items) st st' = eats (class_matches neg items) st st'"
| "sem Bol st st' = (before st = [] \<and> st' = st)"
| "sem Eol st st' = (at_end (rest st) \<and> st' = st)"
| "sem WordB st st' = (at_word (before st) \<noteq> at_word (rest st) \<and> st' = st)"
| "sem (Cat r s) st st' = (\<exists>st1. sem r st st1 \<and> sem s st1 st')"
| "sem (Alt r s) st st' = (sem r st st' \<or> sem s st st')"
| "sem (Rep g mn mx r) st st' = rep_sem (sem r) mn mx st st'"
| "sem (Group n r) st st' = (\<exists>st1. sem r st st1 \<and> st' = capture n st st1)"
| "sem (Backref n) st st' = (\<exists>k t. map_of (caps st) n = Some (k, t) \<and> startswith (rest st) t \<and>
      st' = MS (rev t @ before st) (drop (length t) (rest st)) (caps st))"
| "sem (Ahead pos r) st st' = ((pos \<longleftrightarrow> (\<exists>st1. sem r st st1)) \<and> st' = st)"
| "sem (NotBehind p) st st' = (\<not> endswith (rev (before st)) p \<and> st' = st)"

lemma set_eat: "st' \<in> set (eat P st) \<longleftrightarrow> eats P st st'"
  by (auto simp: eat_def eats_def split: list.splits)

lemma set_guard: "st' \<in> set (guard b st) \<longleftrightarrow> b \<and> st' = st"
  by (auto simp: guard_def)

lemma set_back_ref:
  "st' \<in> set (back_ref n st) \<longleftrightarrow> sem (Backref n) st st'"
proof (cases "map_of (caps st) n")
  case None
  then show ?thesis by (simp add: back_ref_def)
next
  case (Some p)
  then show ?thesis by (cases p) (auto simp: back_ref_def)
qed

lemma eats_reaches: "eats P st st' \<Longrightarrow> reaches st st'"
  unfolding eats_def reaches_def by (metis append_Cons append_Nil mst.sel(1,2) rev.simps)

lemma capture_sel [simp]:
  "before (capture n st st') = before st'" "rest (capture n st st') = rest st'"
  by (simp_all add: capture_def)

lemma reaches_capture [simp]: "reaches st (capture n st0 st') = reaches st st'"
  by (simp add: reaches_def)

lemma rep_sem_reaches:
  assumes "\<And>st st'. B st st' \<Longrightarrow> reaches st st'" and "rep_sem B mn mx st st'"
  shows "reaches st st'"
  using assms(2)
  by (induction rule: rep_sem.induct) (auto intro: assms(1) reaches_trans)

lemma sem_reaches: "sem r st st' \<Longrightarrow> reaches st st'"
proof (induction r arbitrary: st st')
  case (Cat r s)
  then show ?case by simp (blast intro: reaches_trans)
next
  case (Rep g mn mx r)
  then show ?case by (auto intro: rep_sem_reaches)
next
  case (Backref n)
  then show ?case by (auto simp: reaches_def startswith_iff)
qed (auto intro: eats_reaches)

lemma rep_sem_unfold:
  "rep_sem B mn mx st st' \<longleftrightarrow>
     (mn = 0 \<and> st' = st) \<or>
     (mx \<noteq> Some 0 \<and> (\<exists>st1. B st st1 \<and>
        (if mn = 0 \<and> rest st1 = rest st then st' = st1
         else rep_sem B (mn - 1) (dec mx) st1 st')))"
  (is "_ = ?rhs")
proof
  assume "rep_sem B mn mx st st'"
  then show ?rhs by cases auto
next
  assume ?rhs
  then consider "mn = 0" "st' = st"
    | st1 where "mx \<noteq> Some 0" "B st st1" "mn = 0" "rest st1 = rest st" "st' = st1"
    | st1 where "mx \<noteq> Some 0" "B st st1" "mn \<noteq> 0 \<or> rest st1 \<noteq> rest st"
        "rep_sem B (mn - 1) (dec mx) st1 st'"
    by (metis (full_types))
  then show "rep_sem B mn mx st st'"
    by cases (blast intro: rep_sem.intros)+
qed

lemma rep_zero: "rep_sem B 0 (Some 0) st st' \<longleftrightarrow> st' = st"
  by (subst rep_sem_unfold) simp

lemma rep_opt: "rep_sem B 0 (Some 1) st st' \<longleftrightarrow> st' = st \<or> B st st'"
  by (subst rep_sem_unfold) (auto simp: dec_def rep_zero)

lemma set_rep_matches_Suc:
  "st' \<in> set (rep_matches (Suc f) g body mn mx st) \<longleftrightarrow>
     (mn = 0 \<and> st' = st) \<or>
     (mx \<noteq> Some 0 \<and> (\<exists>st1\<in>set (body st).
        if mn = 0 \<and> rest st1 = rest st then st' = st1
        else st' \<in> set (rep_matches f g body (mn - 1) (dec mx) st1)))"
  by (auto simp: Let_def split: if_splits)

lemma rep_matches_iff:
  assumes B: "\<And>st st'. st' \<in> set (body st) \<longleftrightarrow> B st st'"
    and R: "\<And>st st'. B st st' \<Longrightarrow> reaches st st'"
  shows "length (rest st) + mn < f \<Longrightarrow>
    st' \<in> set (rep_matches f g body mn mx st) \<longleftrightarrow> rep_sem B mn mx st st'"
proof (induction f arbitrary: st mn mx)
  case 0
  then show ?case by simp
next
  case (Suc f)
  have step: "st' \<in> set (rep_matches f g body (mn - 1) (dec mx) st1) \<longleftrightarrow>
      rep_sem B (mn - 1) (dec mx) st1 st'"
    if b: "B st st1" and p: "\<not> (mn = 0 \<and> rest st1 = rest st)" for st1
  proof (rule Suc.IH)
    from R[OF b] have "length (rest st1) \<le> length (rest st)" by (rule reaches_length)
    moreover have "mn = 0 \<Longrightarrow> length (rest st1) < length (rest st)"
      using p R[OF b] by (auto intro: reaches_progress)
    ultimately show "length (rest st1) + (mn - 1) < f"
      using Suc.prems by (cases mn) auto
  qed
  show ?case
    unfolding set_rep_matches_Suc rep_sem_unfold [of B mn] using step by (auto simp: B)
qed

text \<open>The matcher finds exactly the matches of the declarative semantics.\<close>

lemma set_matches: "st' \<in> set (matches r st) \<longleftrightarrow> sem r st st'"
proof (induction r arbitrary: st st')
  case (Rep g mn mx r)
  have "st' \<in> set (rep_matches (length (rest st) + mn + 1) g (matches r) mn mx st) \<longleftrightarrow>
      rep_sem (sem r) mn mx st st'"
    by (rule rep_matches_iff) (simp_all add: Rep.IH sem_reaches)
  then show ?case by (simp del: rep_matches.simps)
next
  case (Ahead pos r)
  have "matches r st \<noteq> [] \<longleftrightarrow> (\<exists>st1. sem r st st1)"
    unfolding Ahead [symmetric] by (cases "matches r st") auto
  then show ?case by (auto simp: set_guard)
next
  case (NotBehind p)
  have "startswith (before st) (rev p) \<longleftrightarrow> endswith (rev (before st)) p"
    by (auto simp: startswith_iff endswith_iff) (metis rev_append rev_rev_ident)
  then show ?case by (auto simp: set_guard)
next
  case (Backref n)
  show ?case by (simp add: set_back_ref del: sem.simps)
qed (auto simp: set_eat set_guard)

lemma matches_empty: "matches r st = [] \<longleftrightarrow> (\<forall>st'. \<not> sem r st st')"
  unfolding set_matches [symmetric] by (cases "matches r st") auto

lemma first_match_Some: "first_match r st = Some st' \<Longrightarrow> sem r st st'"
  using set_matches[of st' r st] by (auto simp: first_match_def split: list.splits)

lemma first_match_None: "first_match r st = None \<longleftrightarrow> (\<forall>st'. \<not> sem r st st')"
  by (auto simp: first_match_def matches_empty [symmetric] split: list.splits)

lemma matches_subject: "st' \<in> set (matches r st) \<Longrightarrow> subject st' = subject st"
  by (simp add: set_matches reaches_subject sem_reaches)

section \<open>Results of matching and searching\<close>

lemma match_at_None: "match_at r b s = None \<longleftrightarrow> (\<forall>st'. \<not> sem r (MS b s []) st')"
  by (simp add: match_at_def first_match_None [symmetric] split: option.splits)

lemma match_at_text:
  assumes "match_at r b s = Some m"
  shows "m_start m = length b \<and> (\<exists>t. s = m_text m @ t)"
proof -
  from assms obtain st where f: "first_match r (MS b s []) = Some st"
    and m: "m = Match_Obj (length b) (take (length s - length (rest st)) s) (caps st)"
    by (auto simp: match_at_def split: option.splits)
  from m show ?thesis by (metis append_take_drop_id match_obj.sel(1,2))
qed

lemma re_match_None: "re_match r s = None \<longleftrightarrow> (\<forall>st'. \<not> sem r (MS [] s []) st')"
  by (simp add: re_match_def match_at_None)

lemma search_from_None:
  "search_from r b s = None \<longleftrightarrow>
     (\<forall>t u. s = t @ u \<longrightarrow> (\<forall>st'. \<not> sem r (MS (rev t @ b) u []) st'))"
proof (induction r b s rule: search_from.induct)
  case (1 r b)
  then show ?case by (auto simp: match_at_None)
next
  case (2 r b c cs)
  have e: "search_from r b (c # cs) = None \<longleftrightarrow>
      match_at r b (c # cs) = None \<and> search_from r (c # b) cs = None"
    by (auto split: option.splits)
  show ?case (is "_ \<longleftrightarrow> ?all")
  proof
    assume l: "search_from r b (c # cs) = None"
    show ?all
    proof (intro allI impI)
      fix t u st' assume tu: "c # cs = t @ u"
      show "\<not> sem r (MS (rev t @ b) u []) st'"
      proof (cases t)
        case Nil
        with tu l e show ?thesis by (auto simp: match_at_None)
      next
        case (Cons d t')
        with tu l e 2 have "\<forall>st'. \<not> sem r (MS (rev t' @ c # b) u []) st'" by auto
        with Cons tu show ?thesis by simp
      qed
    qed
  next
    assume r: ?all
    then have "match_at r b (c # cs) = None" by (force simp: match_at_None)
    moreover from this have "search_from r (c # b) cs = None"
      using 2 r by (metis append_Cons append_assoc append_Nil rev.simps(2))
    ultimately show "search_from r b (c # cs) = None" using e by simp
  qed
qed

lemma re_search_None:
  "re_search r s = None \<longleftrightarrow> (\<forall>t u. s = t @ u \<longrightarrow> (\<forall>st'. \<not> sem r (MS (rev t) u []) st'))"
  by (simp add: re_search_def search_from_None)

lemma search_from_text:
  "search_from r b s = Some m \<Longrightarrow>
     \<exists>t u. s = t @ m_text m @ u \<and> m_start m = length b + length t"
proof (induction r b s rule: search_from.induct)
  case (1 r b)
  then show ?case by (auto dest!: match_at_text)
next
  case (2 r b c cs)
  show ?case
  proof (cases "match_at r b (c # cs)")
    case (Some m')
    with 2 show ?thesis by (auto dest!: match_at_text)
  next
    case None
    with 2 obtain t u where "cs = t @ m_text m @ u" "m_start m = length (c # b) + length t"
      by auto
    then show ?thesis by (intro exI [of _ "c # t"] exI [of _ u]) auto
  qed
qed

lemma re_search_text:
  "re_search r s = Some m \<Longrightarrow> \<exists>t u. s = t @ m_text m @ u \<and> m_start m = length t"
  using search_from_text [of r "[]" s m] by (simp add: re_search_def)

text \<open>A search that finds something found it at some split of the text, by the semantics.\<close>

lemma match_at_sem:
  "match_at r b s = Some m \<Longrightarrow> \<exists>st. sem r (MS b s []) st \<and>
     m = Match_Obj (length b) (take (length s - length (rest st)) s) (caps st)"
  by (auto simp: match_at_def dest: first_match_Some split: option.splits)

lemma search_from_sem:
  "search_from r b s = Some m \<Longrightarrow> \<exists>t u st. s = t @ u \<and> sem r (MS (rev t @ b) u []) st \<and>
     m = Match_Obj (length b + length t) (take (length u - length (rest st)) u) (caps st)"
proof (induction r b s rule: search_from.induct)
  case (1 r b)
  then show ?case by (auto dest!: match_at_sem)
next
  case (2 r b c cs)
  show ?case
  proof (cases "match_at r b (c # cs)")
    case (Some m')
    with 2 have "match_at r b (c # cs) = Some m" by simp
    from match_at_sem [OF this] show ?thesis
      by (intro exI [of _ "[]"] exI [of _ "c # cs"]) auto
  next
    case None
    with 2 obtain t u st where "cs = t @ u" "sem r (MS (rev t @ c # b) u []) st"
      "m = Match_Obj (length (c # b) + length t) (take (length u - length (rest st)) u) (caps st)"
      by auto
    then show ?thesis by (intro exI [of _ "c # t"] exI [of _ u] exI [of _ st]) auto
  qed
qed

lemma re_search_sem:
  "re_search r s = Some m \<Longrightarrow> \<exists>t u st. s = t @ u \<and> sem r (MS (rev t) u []) st \<and>
     m = Match_Obj (length t) (take (length u - length (rest st)) u) (caps st)"
  using search_from_sem [of r "[]" s m] by (simp add: re_search_def)

lemma re_match_sem:
  "re_match r s = Some m \<Longrightarrow> \<exists>st. sem r (MS [] s []) st \<and>
     m = Match_Obj 0 (take (length s - length (rest st)) s) (caps st)"
  using match_at_sem [of r "[]" s m] by (simp add: re_match_def)

text \<open>Patterns without groups leave the captures alone; runs of a class read such characters.\<close>

primrec no_groups :: "regex \<Rightarrow> bool" where
  "no_groups Eps = True"
| "no_groups (Lit c) = True"
| "no_groups Any = True"
| "no_groups (Class neg items) = True"
| "no_groups Bol = True"
| "no_groups Eol = True"
| "no_groups WordB = True"
| "no_groups (Cat r s) = (no_groups r \<and> no_groups s)"
| "no_groups (Alt r s) = (no_groups r \<and> no_groups s)"
| "no_groups (Rep g mn mx r) = no_groups r"
| "no_groups (Group n r) = False"
| "no_groups (Backref n) = True"
| "no_groups (Ahead p r) = True"
| "no_groups (NotBehind p) = True"

lemma no_groups_caps: "no_groups r \<Longrightarrow> sem r st st' \<Longrightarrow> caps st' = caps st"
proof (induction r arbitrary: st st')
  case (Cat r s)
  then show ?case by (simp, metis)
next
  case (Rep g mn mx r)
  from Rep.prems have "rep_sem (sem r) mn mx st st'" by simp
  then show ?case by induction (use Rep.IH Rep.prems in auto)
qed (auto simp: eats_def)

text \<open>The part of a sequence from its first group on.\<close>

fun drop_plain :: "regex \<Rightarrow> regex" where
  "drop_plain (Cat r s) = (if no_groups r then drop_plain s else Cat r s)"
| "drop_plain r = r"

lemma drop_plain_sem:
  "sem r st st' \<Longrightarrow> \<exists>st1. sem (drop_plain r) st1 st' \<and> caps st1 = caps st"
proof (induction r arbitrary: st)
  case (Cat r s)
  then obtain st1 where 1: "sem r st st1" "sem s st1 st'" by auto
  show ?case
  proof (cases "no_groups r")
    case True
    from Cat.IH(2) [OF 1(2)] obtain st2 where "sem (drop_plain s) st2 st'" "caps st2 = caps st1"
      by blast
    with True 1 show ?thesis using no_groups_caps [of r st st1] by auto
  next
    case False
    with Cat.prems show ?thesis by auto
  qed
qed auto

lemma eats_iff: "eats P st st' \<longleftrightarrow> (\<exists>c. P c \<and> rest st = c # rest st' \<and>
    before st' = c # before st \<and> caps st' = caps st)"
  by (cases st') (auto simp: eats_def)

lemma sem_chars [simp]:
  "sem (Lit c) = eats (\<lambda>x. x = c)"
  "sem Any = eats (\<lambda>x. x \<noteq> newline)"
  "sem (Class neg items) = eats (class_matches neg items)"
  by (simp_all add: fun_eq_iff)

lemma rep_eats:
  "rep_sem (eats P) mn mx st st' \<Longrightarrow> \<exists>t. rest st = t @ rest st' \<and> before st' = rev t @ before st \<and>
     (\<forall>c\<in>set t. P c) \<and> mn \<le> length t \<and> caps st' = caps st"
proof (induction rule: rep_sem.induct)
  case (rep_stop mx st)
  then show ?case by simp
next
  case (rep_last mx st st1)
  then show ?case by (auto simp: eats_iff)
next
  case (rep_more mx st st1 mn st2)
  then obtain c t where "P c" "rest st = c # rest st1" "before st1 = c # before st" "caps st1 = caps st"
    "rest st1 = t @ rest st2" "before st2 = rev t @ before st1" "\<forall>c\<in>set t. P c"
    "mn - 1 \<le> length t" "caps st2 = caps st1"
    by (auto simp: eats_iff)
  then show ?case by (intro exI [of _ "c # t"]) auto
qed

section \<open>Substitution\<close>

text \<open>The matches that a scan finds lie one behind the other in the text.\<close>

fun laid :: "match_obj list \<Rightarrow> nat \<Rightarrow> string \<Rightarrow> bool" where
  "laid [] k s = True"
| "laid (m # ms) k s =
     (\<exists>t u. s = t @ m_text m @ u \<and> m_start m = k + length t \<and> laid ms (m_end m) u)"

lemma laid_skip: "laid ms (Suc k) s \<Longrightarrow> laid ms k (c # s)"
proof (cases ms)
  case (Cons m ms')
  assume "laid ms (Suc k) s"
  with Cons obtain t u where "s = t @ m_text m @ u" "m_start m = Suc k + length t" "laid ms' (m_end m) u"
    by auto
  with Cons have "c # s = (c # t) @ m_text m @ u \<and> m_start m = k + length (c # t) \<and> laid ms' (m_end m) u"
    by simp
  with Cons show ?thesis by (simp only: laid.simps) blast
qed simp

lemma scan_laid: "laid (scan f r b s) (length b) s"
proof (induction f arbitrary: b s)
  case 0
  then show ?case by simp
next
  case (Suc f)
  show ?case
  proof (cases "search_from r b s")
    case None
    then show ?thesis by simp
  next
    case (Some m)
    then obtain t u where tu: "s = t @ m_text m @ u" "m_start m = length b + length t"
      using search_from_text by blast
    have k: "m_end m - length b = length (t @ m_text m)" by (simp add: m_end_def tu)
    have "laid (scan f r (rev (t @ m_text m) @ b) u) (m_end m) u"
      using Suc [of "rev (t @ m_text m) @ b" u] by (simp add: m_end_def tu ac_simps)
    moreover have "laid (scan f r (c # rev (t @ m_text m) @ b) u') (m_end m) u" if "u = c # u'" for c u'
      using Suc [of "c # rev (t @ m_text m) @ b" u'] that laid_skip by (simp add: m_end_def tu ac_simps)
    moreover have "scan (Suc f) r b s = m # (if m_text m = [] then
          (case u of [] \<Rightarrow> [] | c # u' \<Rightarrow> scan f r (c # rev (t @ m_text m) @ b) u')
        else scan f r (rev (t @ m_text m) @ b) u)"
      using Some k by (cases u) (simp_all add: tu Let_def)
    moreover have "laid (m # ms) (length b) s" if "laid ms (m_end m) u" for ms
      using that tu by auto
    ultimately show ?thesis by (cases u) auto
  qed
qed

lemma pieces_nonempty: "pieces ms k s \<noteq> []"
  by (cases ms) auto

lemma pieces_subseq:
  "laid ms k s \<Longrightarrow> \<forall>m\<in>set ms. subseq by (m_text m) \<Longrightarrow> subseq (str_join by (pieces ms k s)) s"
proof (induction ms arbitrary: k s)
  case Nil
  then show ?case by simp
next
  case (Cons m ms)
  then obtain t u where tu: "s = t @ m_text m @ u" "m_start m = k + length t" "laid ms (m_end m) u"
    by auto
  have p: "pieces (m # ms) k s = t # pieces ms (m_end m) u"
    using tu(2) by (simp add: tu(1) m_end_def)
  have "subseq (str_join by (pieces ms (m_end m) u)) u" using Cons tu(3) by simp
  moreover have "subseq by (m_text m)" using Cons.prems(2) by simp
  ultimately have "subseq (t @ by @ str_join by (pieces ms (m_end m) u)) (t @ m_text m @ u)"
    by (intro list_emb_append_mono) auto
  then show ?case
    unfolding p str_join_Cons [OF pieces_nonempty] by (simp only: tu(1))
qed

lemma re_sub_subseq:
  "\<forall>m\<in>set (find_all r s). subseq by (m_text m) \<Longrightarrow> subseq (re_sub r by s) s"
  unfolding re_sub_def re_split_def
  using pieces_subseq scan_laid [of "length s + 1" r "[]" s] by (simp add: find_all_def)

lemma scan_sem:
  "m \<in> set (scan f r b s) \<Longrightarrow> \<exists>b u st. sem r (MS b u []) st \<and>
     m_text m = take (length u - length (rest st)) u"
proof (induction f arbitrary: b s)
  case (Suc f)
  from Suc.prems obtain m0 where m0: "search_from r b s = Some m0"
    by (cases "search_from r b s") auto
  with Suc.prems consider "m = m0" | b' s' where "m \<in> set (scan f r b' s')"
    by (auto simp: Let_def split: if_splits)
  then show ?case
  proof cases
    case 1
    with search_from_sem [OF m0] show ?thesis by fastforce
  qed (use Suc.IH in blast)
qed simp

lemma find_all_sem:
  "m \<in> set (find_all r s) \<Longrightarrow> \<exists>b u st. sem r (MS b u []) st \<and>
     m_text m = take (length u - length (rest st)) u"
  unfolding find_all_def by (rule scan_sem)

lemma re_sub_no_match: "re_search r s = None \<Longrightarrow> re_sub r by s = s"
  by (simp add: re_sub_def re_split_def find_all_def re_search_def)

section \<open>The lazy evaluator\<close>

text \<open>
  \<open>run r k st\<close> looks for the first match of \<open>r\<close> from \<open>st\<close> that \<open>k\<close> accepts,
  without building the list of all matches. It is the code equation of \<open>first_match\<close>, so
  that concrete searches evaluate quickly.
\<close>

primrec run_rep ::
  "nat \<Rightarrow> bool \<Rightarrow> ((mst \<Rightarrow> mst option) \<Rightarrow> mst \<Rightarrow> mst option) \<Rightarrow> nat \<Rightarrow> nat option \<Rightarrow>
     (mst \<Rightarrow> mst option) \<Rightarrow> mst \<Rightarrow> mst option" where
  "run_rep 0 g body mn mx k st = None"
| "run_rep (Suc f) g body mn mx k st =
     (let more = (\<lambda>_. if mx = Some 0 then None else body (\<lambda>st'.
                    if mn = 0 \<and> rest st' = rest st then k st'
                    else run_rep f g body (mn - 1) (dec mx) k st') st);
          stop = (\<lambda>_. if mn = 0 then k st else None)
      in if g then (case more () of Some x \<Rightarrow> Some x | None \<Rightarrow> stop ())
         else (case stop () of Some x \<Rightarrow> Some x | None \<Rightarrow> more ()))"

primrec run :: "regex \<Rightarrow> (mst \<Rightarrow> mst option) \<Rightarrow> mst \<Rightarrow> mst option" where
  "run Eps k st = k st"
| "run (Lit c) k st = first_some k (eat (\<lambda>x. x = c) st)"
| "run Any k st = first_some k (eat (\<lambda>x. x \<noteq> newline) st)"
| "run (Class neg items) k st = first_some k (eat (class_matches neg items) st)"
| "run Bol k st = first_some k (guard (before st = []) st)"
| "run Eol k st = first_some k (guard (at_end (rest st)) st)"
| "run WordB k st = first_some k (guard (at_word (before st) \<noteq> at_word (rest st)) st)"
| "run (Cat r s) k st = run r (run s k) st"
| "run (Alt r s) k st = (case run r k st of Some x \<Rightarrow> Some x | None \<Rightarrow> run s k st)"
| "run (Rep g mn mx r) k st = run_rep (length (rest st) + mn + 1) g (run r) mn mx k st"
| "run (Group n r) k st = run r (\<lambda>st'. k (capture n st st')) st"
| "run (Backref n) k st = first_some k (back_ref n st)"
| "run (Ahead pos r) k st = (if pos \<longleftrightarrow> run r Some st \<noteq> None then k st else None)"
| "run (NotBehind p) k st = first_some k (guard (\<not> startswith (before st) (rev p)) st)"

lemma run_rep_eq:
  assumes "\<And>k st. runb k st = first_some k (body st)"
  shows "run_rep f g runb mn mx k st = first_some k (rep_matches f g body mn mx st)"
proof -
  have runb: "runb = (\<lambda>k st. first_some k (body st))" using assms by blast
  show ?thesis unfolding runb
proof (induction f arbitrary: mn mx st)
  case 0
  then show ?case by simp
next
  case (Suc f)
  have more: "first_some k (concat (map h xs)) = first_some (\<lambda>x. first_some k (h x)) xs" for h and xs :: "mst list"
    by (simp add: first_some_concat first_some_map)
  have body: "first_some (\<lambda>st'. if mn = 0 \<and> rest st' = rest st then k st'
        else run_rep f g (\<lambda>k st. first_some k (body st)) (mn - 1) (dec mx) k st') (body st) =
      first_some k (concat (map (\<lambda>st'. if mn = 0 \<and> rest st' = rest st then [st']
        else rep_matches f g body (mn - 1) (dec mx) st') (body st)))"
    unfolding more
    by (rule first_some_cong) (auto simp: Suc.IH split: option.splits)
  show ?case
    using body by (auto simp: Let_def first_some_append split: option.splits)
qed
qed

lemma run_eq: "run r k st = first_some k (matches r st)"
proof (induction r arbitrary: k st)
  case (Cat r s)
  show ?case by (simp add: Cat.IH first_some_concat first_some_map) 
next
  case (Rep g mn mx r)
  show ?case by (simp add: run_rep_eq [OF Rep.IH])
next
  case (Ahead pos r)
  show ?case by (auto simp: Ahead.IH guard_def first_some_None split: option.splits)
qed (auto simp: first_some_append first_some_map split: option.splits)

lemma first_match_code [code]: "first_match r st = run r Some st"
  by (auto simp: first_match_def run_eq split: list.splits)

end
