(* ===== verification/Lint_State.thy ===== *)
theory Lint_State
  imports Py_Regex
begin

text \<open>
  The module-wide state of \<open>cpplint.py\<close> and the path every diagnostic takes: the
  suppressions that \<open>NOLINT\<close> comments leave (\<open>_error_suppressions\<close>), the settings
  and counters of \<open>_CppLintState\<close>, the decision of \<open>_ShouldPrintError\<close>, and
  \<open>Error\<close> itself. The checks take the error handler as an argument, as in the source; the
  locale \<open>error_handler\<close> is what they may rely on, and \<open>Error\<close> provides it.
\<close>

section \<open>Categories and settings\<close>

definition ERROR_CATEGORIES :: "string list" where
  "ERROR_CATEGORIES = [
    ''build/class'', ''build/deprecated'', ''build/endif_comment'', ''build/forward_decl'',
    ''build/header_guard'', ''build/include'', ''build/include_alpha'', ''build/include_order'',
    ''build/include_what_you_use'', ''build/namespaces'', ''build/printf_format'',
    ''build/storage_class'', ''legal/copyright'', ''readability/braces'',
    ''readability/casting'', ''readability/check'', ''readability/constructors'',
    ''readability/fn_size'', ''readability/function'', ''readability/multiline_comment'',
    ''readability/multiline_string'', ''readability/nolint'', ''readability/streams'',
    ''readability/todo'', ''readability/utf8'', ''runtime/arrays'', ''runtime/casting'',
    ''runtime/explicit'', ''runtime/int'', ''runtime/init'', ''runtime/invalid_increment'',
    ''runtime/member_string_references'', ''runtime/memset'', ''runtime/operator'',
    ''runtime/printf'', ''runtime/printf_format'', ''runtime/references'', ''runtime/rtti'',
    ''runtime/sizeof'', ''runtime/string'', ''runtime/threadsafe_fn'', ''runtime/virtual'',
    ''whitespace/blank_line'', ''whitespace/braces'', ''whitespace/comma'',
    ''whitespace/comments'', ''whitespace/end_of_line'', ''whitespace/ending_newline'',
    ''whitespace/indent'', ''whitespace/labels'', ''whitespace/line_length'',
    ''whitespace/newline'', ''whitespace/operators'', ''whitespace/parens'',
    ''whitespace/semicolon'', ''whitespace/tab'', ''whitespace/todo'']"

definition DEFAULT_FILTERS :: "string list" where
  "DEFAULT_FILTERS = [''-build/include_alpha'']"

text \<open>
  \<open>_CppLintState\<close>, the suppression store and what was written to \<open>sys.stderr\<close>
  (one entry per write, oldest first). \<open>None\<close> is the key under which the lines with an
  unrestricted \<open>NOLINT\<close> are kept.
\<close>

record lint =
  verbose_level :: int
  error_count :: int
  filters :: "string list"
  counting :: string
  errors_by_category :: "string \<rightharpoonup> int"
  output_format :: string
  suppressions :: "string option \<rightharpoonup> int set"
  stderr :: "string list"

definition init_lint :: lint where
  "init_lint = \<lparr> verbose_level = 1, error_count = 0, filters = DEFAULT_FILTERS,
     counting = ''total'', errors_by_category = Map.empty, output_format = ''emacs'',
     suppressions = Map.empty, stderr = [] \<rparr>"

definition SetOutputFormat :: "string \<Rightarrow> lint \<Rightarrow> lint" where
  "SetOutputFormat f g = g\<lparr>output_format := f\<rparr>"

definition SetVerboseLevel :: "int \<Rightarrow> lint \<Rightarrow> int \<times> lint" where
  "SetVerboseLevel level g = (verbose_level g, g\<lparr>verbose_level := level\<rparr>)"

definition SetCountingStyle :: "string \<Rightarrow> lint \<Rightarrow> lint" where
  "SetCountingStyle s g = g\<lparr>counting := s\<rparr>"

definition signed_filter :: "string \<Rightarrow> bool" where
  "signed_filter f \<longleftrightarrow> startswith f ''+'' \<or> startswith f ''-''"

fun check_filters :: "string list \<Rightarrow> unit result" where
  "check_filters [] = Inr ()"
| "check_filters (f # fs) =
     (if \<not> signed_filter f
      then Inl (ValueError (''Every filter in --filters must start with + or - ('' @ f @ '' does not)''))
      else check_filters fs)"

definition clean_filters :: "string \<Rightarrow> string list" where
  "clean_filters arg = filter (\<lambda>f. f \<noteq> []) (map strip (str_split arg '',''))"

definition SetFilters :: "string \<Rightarrow> lint \<Rightarrow> lint result" where
  "SetFilters arg g =
     (let g' = g\<lparr>filters := DEFAULT_FILTERS @ clean_filters arg\<rparr>
      in bindE (check_filters (filters g')) (\<lambda>_. Inr g'))"

definition ResetErrorCounts :: "lint \<Rightarrow> lint" where
  "ResetErrorCounts g = g\<lparr>error_count := 0, errors_by_category := Map.empty\<rparr>"

definition IncrementErrorCount :: "string \<Rightarrow> lint \<Rightarrow> lint" where
  "IncrementErrorCount category g =
     (let g = g\<lparr>error_count := error_count g + 1\<rparr> in
      if counting g = ''toplevel'' \<or> counting g = ''detailed'' then
        (let c = (if counting g \<noteq> ''detailed'' then hd (str_split category ''/'') else category);
             m = (if errors_by_category g c = None
                  then (errors_by_category g)(c \<mapsto> 0) else errors_by_category g)
         in g\<lparr>errors_by_category := m(c \<mapsto> the (m c) + 1)\<rparr>)
      else g)"

definition write_err :: "string \<Rightarrow> lint \<Rightarrow> lint" where
  "write_err s g = g\<lparr>stderr := stderr g @ [s]\<rparr>"

text \<open>
  \<open>PrintErrorCounts\<close> walks the dictionary in an order the language leaves open: it is the
  argument \<open>keys\<close>, an enumeration of the dictionary's keys.
\<close>

definition PrintErrorCounts :: "string list \<Rightarrow> lint \<Rightarrow> lint" where
  "PrintErrorCounts keys g =
     write_err (''Total errors found: '' @ str_int (error_count g) @ [newline])
       (fold (\<lambda>c g. write_err (''Category '' @ CHR 0x27 # c @ CHR 0x27 # '' errors found: ''
           @ str_int (the (errors_by_category g c)) @ [newline]) g) keys g)"

section \<open>The functions of the module\<close>

text \<open>What the rest of the program calls to read and write the settings; they hand on to the state.\<close>

definition OutputFormat :: "lint \<Rightarrow> string" where
  [simp]: "OutputFormat g = output_format g"

definition cpplint_SetOutputFormat :: "string \<Rightarrow> lint \<Rightarrow> lint" where
  [simp]: "cpplint_SetOutputFormat f g = SetOutputFormat f g"

definition VerboseLevel :: "lint \<Rightarrow> int" where
  [simp]: "VerboseLevel g = verbose_level g"

definition cpplint_SetVerboseLevel :: "int \<Rightarrow> lint \<Rightarrow> int \<times> lint" where
  [simp]: "cpplint_SetVerboseLevel level g = SetVerboseLevel level g"

definition cpplint_SetCountingStyle :: "string \<Rightarrow> lint \<Rightarrow> lint" where
  [simp]: "cpplint_SetCountingStyle level g = SetCountingStyle level g"

definition Filters :: "lint \<Rightarrow> string list" where
  [simp]: "Filters g = filters g"

definition cpplint_SetFilters :: "string \<Rightarrow> lint \<Rightarrow> lint result" where
  [simp]: "cpplint_SetFilters arg g = SetFilters arg g"

section \<open>NOLINT suppressions\<close>

text \<open>
  An error handler: file name, line number, category, confidence, message. Handlers and checks
  are state changes that may raise.
\<close>

type_synonym handler = "string \<Rightarrow> int \<Rightarrow> string \<Rightarrow> int \<Rightarrow> string \<Rightarrow> lint \<Rightarrow> lint result"
type_synonym check = "lint \<Rightarrow> lint result"

definition RE_SUPPRESSION :: regex where
  "RE_SUPPRESSION = rx ''`bNOLINT`b(`([^)]*`))?''"

text \<open>\<open>_error_suppressions.setdefault(key, set()).add(linenum)\<close>\<close>

definition suppress :: "string option \<Rightarrow> int \<Rightarrow> lint \<Rightarrow> lint" where
  "suppress key linenum g =
     g\<lparr>suppressions := (suppressions g)(key \<mapsto>
        insert linenum (case suppressions g key of None \<Rightarrow> {} | Some s \<Rightarrow> s))\<rparr>"

definition ParseNolintSuppressions :: "string \<Rightarrow> string \<Rightarrow> int \<Rightarrow> handler \<Rightarrow> check" where
  "ParseNolintSuppressions filename raw_line linenum error g =
     (case re_search RE_SUPPRESSION raw_line of
        None \<Rightarrow> Inr g
      | Some m \<Rightarrow>
          (case m_group m 1 of
             None \<Rightarrow> Inr (suppress None linenum g)
           | Some category \<Rightarrow>
               if category = ''(*)'' then Inr (suppress None linenum g)
               else if startswith category ''('' \<and> endswith category '')'' then
                 (let category = py_slice category 1 (- 1) in
                  if category \<in> set ERROR_CATEGORIES
                  then Inr (suppress (Some category) linenum g)
                  else error filename linenum ''readability/nolint'' 5
                         (''Unknown NOLINT error category: '' @ category) g)
               else Inr g))"

definition ResetNolintSuppressions :: "lint \<Rightarrow> lint" where
  "ResetNolintSuppressions g = g\<lparr>suppressions := Map.empty\<rparr>"

definition suppressed_lines :: "string option \<Rightarrow> lint \<Rightarrow> int set" where
  "suppressed_lines key g = (case suppressions g key of None \<Rightarrow> {} | Some s \<Rightarrow> s)"

definition IsErrorSuppressedByNolint :: "string \<Rightarrow> int \<Rightarrow> lint \<Rightarrow> bool" where
  "IsErrorSuppressedByNolint category linenum g \<longleftrightarrow>
     linenum \<in> suppressed_lines (Some category) g \<or> linenum \<in> suppressed_lines None g"

section \<open>Reporting\<close>

fun filter_loop :: "string \<Rightarrow> string list \<Rightarrow> bool \<Rightarrow> bool result" where
  "filter_loop category [] is_filtered = Inr is_filtered"
| "filter_loop category (f # fs) is_filtered =
     (if startswith f ''-'' then
        filter_loop category fs (if startswith category (drop 1 f) then True else is_filtered)
      else if startswith f ''+'' then
        filter_loop category fs (if startswith category (drop 1 f) then False else is_filtered)
      else Inl AssertionError)"

definition ShouldPrintError :: "string \<Rightarrow> int \<Rightarrow> int \<Rightarrow> lint \<Rightarrow> bool result" where
  "ShouldPrintError category confidence linenum g =
     (if IsErrorSuppressedByNolint category linenum g then Inr False
      else if confidence < verbose_level g then Inr False
      else bindE (filter_loop category (Filters g) False) (\<lambda>is_filtered. Inr (\<not> is_filtered)))"

definition error_text :: "string \<Rightarrow> string \<Rightarrow> int \<Rightarrow> string \<Rightarrow> int \<Rightarrow> string \<Rightarrow> string" where
  "error_text fmt filename linenum category confidence message =
     (if fmt = ''vs7'' then filename @ ''('' @ str_int linenum @ ''):  ''
      else filename @ '':'' @ str_int linenum @ '':  '')
     @ message @ ''  ['' @ category @ ''] ['' @ str_int confidence @ '']'' @ [newline]"

definition Error :: handler where
  "Error filename linenum category confidence message g =
     bindE (ShouldPrintError category confidence linenum g) (\<lambda>p.
       if p then
         (let g = IncrementErrorCount category g
          in Inr (write_err (error_text (output_format g) filename linenum category confidence message) g))
       else Inr g)"

text \<open>A check that runs only under a condition.\<close>

definition only_if :: "bool \<Rightarrow> check \<Rightarrow> check" where
  "only_if b act = (if b then act else Inr)"

lemma only_if_simps [simp]: "only_if True act = act" "only_if False act = Inr"
  by (simp_all add: only_if_def)

lemma keeps_only_if [keeps_intros]: "keeps P act \<Longrightarrow> keeps P (only_if b act)"
  by (simp add: only_if_def keeps_Inr)

section \<open>The interface of an error handler\<close>

text \<open>
  What a check relies on: in a state that satisfies the invariant the handler returns, and keeps
  the invariant; and the invariant does not speak of the suppressions, which
  \<open>ParseNolintSuppressions\<close> changes by itself.
\<close>

locale error_handler =
  fixes error :: handler and Inv :: "lint \<Rightarrow> bool"
  assumes error_keeps: "keeps Inv (error fn ln cat conf msg)"
    and suppress_inv: "Inv g \<Longrightarrow> Inv (g\<lparr>suppressions := s\<rparr>)"
begin

lemmas error_keeps_intro [keeps_intros] = error_keeps

lemma keeps_suppress: "keeps Inv (\<lambda>g. Inr (suppress key ln g))"
  by (simp add: keeps_def suppress_def suppress_inv)

lemma keeps_ParseNolintSuppressions [keeps_intros]: "keeps Inv (ParseNolintSuppressions fn raw ln error)"
  using error_keeps keeps_suppress
  unfolding keeps_def ParseNolintSuppressions_def
  by (auto simp: Let_def split: option.splits)

end

text \<open>A handler that also leaves the settings alone, as the command line made them.\<close>

definition settings :: "lint \<Rightarrow> int \<times> string list \<times> string \<times> string" where
  "settings g = (verbose_level g, filters g, counting g, output_format g)"

locale framed_handler = error_handler +
  assumes error_frame: "error fn ln cat conf msg g = Inr g' \<Longrightarrow>
      settings g' = settings g \<and> suppressions g' = suppressions g"
begin

lemma ParseNolintSuppressions_settings:
  "ParseNolintSuppressions fn raw ln error g = Inr g' \<Longrightarrow> settings g' = settings g"
  by (auto simp: ParseNolintSuppressions_def suppress_def settings_def Let_def
      dest: error_frame split: option.splits if_splits)

end

section \<open>What reporting does\<close>

definition filters_ok :: "lint \<Rightarrow> bool" where
  "filters_ok g \<longleftrightarrow> (\<forall>f\<in>set (filters g). signed_filter f)"

text \<open>The last filter that speaks of the category decides; without one the category passes.\<close>

definition passes_filters :: "string \<Rightarrow> string list \<Rightarrow> bool" where
  "passes_filters category fs =
     (case filter (\<lambda>f. startswith category (drop 1 f)) (rev fs) of
        [] \<Rightarrow> True | f # _ \<Rightarrow> startswith f ''+'')"

lemma signed_not_both: "startswith f ''+'' \<Longrightarrow> \<not> startswith f ''-''"
  by (cases f) auto

lemma filter_loop_spec:
  "\<forall>f\<in>set fs. signed_filter f \<Longrightarrow>
     filter_loop category fs b = Inr
       (case filter (\<lambda>f. startswith category (drop 1 f)) (rev fs) of
          [] \<Rightarrow> b | f # _ \<Rightarrow> \<not> startswith f ''+'')"
proof (induction fs arbitrary: b)
  case Nil
  then show ?case by simp
next
  case (Cons f fs)
  then show ?case
    by (auto simp: signed_filter_def dest: signed_not_both split: list.splits)
qed

lemma check_filters_Inr: "check_filters fs = Inr u \<longleftrightarrow> (\<forall>f\<in>set fs. signed_filter f)"
  by (induction fs) auto

lemma DEFAULT_FILTERS_signed: "\<forall>f\<in>set DEFAULT_FILTERS. signed_filter f"
  by (simp add: DEFAULT_FILTERS_def signed_filter_def)

lemma SetFilters_filters_ok: "SetFilters arg g = Inr g' \<Longrightarrow> filters_ok g'"
  by (auto simp: SetFilters_def Let_def bindE_eq_Inr check_filters_Inr filters_ok_def)

lemma ShouldPrintError_total:
  "filters_ok g \<Longrightarrow> \<exists>p. ShouldPrintError cat conf ln g = Inr p"
  by (auto simp: ShouldPrintError_def filters_ok_def filter_loop_spec)

lemma settings_frame [simp]:
  "settings (IncrementErrorCount cat g) = settings g"
  "suppressions (IncrementErrorCount cat g) = suppressions g"
  "settings (write_err s g) = settings g"
  "suppressions (write_err s g) = suppressions g"
  "stderr (IncrementErrorCount cat g) = stderr g"
  by (simp_all add: IncrementErrorCount_def write_err_def settings_def Let_def)

lemma Error_frame:
  "Error fn ln cat conf msg g = Inr g' \<Longrightarrow>
     settings g' = settings g \<and> suppressions g' = suppressions g"
  by (auto simp: Error_def bindE_eq_Inr Let_def split: if_splits)

text \<open>
  The counters: when errors are counted by category, the counts of the categories add up to the
  total, and every counted error wrote one line after the \<open>n\<close> lines that were there.
\<close>

definition by_category :: "lint \<Rightarrow> bool" where
  "by_category g \<longleftrightarrow> counting g = ''toplevel'' \<or> counting g = ''detailed''"

definition counts_ok :: "int \<Rightarrow> lint \<Rightarrow> bool" where
  "counts_ok n g \<longleftrightarrow> 0 \<le> error_count g \<and> int (length (stderr g)) = n + error_count g \<and>
     finite (dom (errors_by_category g)) \<and>
     (by_category g \<longrightarrow>
       (\<Sum>c\<in>dom (errors_by_category g). the (errors_by_category g c)) = error_count g)"

definition lint_ok :: "int \<Rightarrow> lint \<Rightarrow> bool" where
  "lint_ok n g \<longleftrightarrow> filters_ok g \<and> counts_ok n g"

lemma by_category_settings: "settings g' = settings g \<Longrightarrow> by_category g' = by_category g"
  by (simp add: settings_def by_category_def)

lemma sum_bump:
  fixes m :: "'k \<rightharpoonup> int"
  assumes "finite (dom m)"
  shows "(\<Sum>c\<in>insert k (dom m). the ((m(k \<mapsto> (case m k of None \<Rightarrow> 0 | Some x \<Rightarrow> x) + 1)) c)) =
    (\<Sum>c\<in>dom m. the (m c)) + 1"
proof (cases "k \<in> dom m")
  case True
  then obtain x where x: "m k = Some x" by auto
  have "(\<Sum>c\<in>dom m. the ((m(k \<mapsto> x + 1)) c)) = (x + 1) + (\<Sum>c\<in>dom m - {k}. the (m c))"
    using assms True by (simp add: sum.remove [of "dom m" k])
  moreover have "(\<Sum>c\<in>dom m. the (m c)) = x + (\<Sum>c\<in>dom m - {k}. the (m c))"
    using assms True x by (simp add: sum.remove [of "dom m" k])
  ultimately show ?thesis using True x by (simp add: insert_absorb)
next
  case False
  then have "m k = None" by auto
  moreover have "(\<Sum>c\<in>dom m. the ((m(k \<mapsto> 1)) c)) = (\<Sum>c\<in>dom m. the (m c))"
    using False by (intro sum.cong) auto
  ultimately show ?thesis using assms False by simp
qed

lemma IncrementErrorCount_by_category:
  "by_category g \<Longrightarrow> \<exists>c. errors_by_category (IncrementErrorCount cat g) =
     (errors_by_category g)(c \<mapsto> (case errors_by_category g c of None \<Rightarrow> 0 | Some x \<Rightarrow> x) + 1)"
  by (rule exI [of _ "if counting g \<noteq> ''detailed'' then hd (str_split cat ''/'') else cat"])
     (auto simp: by_category_def IncrementErrorCount_def Let_def split: option.splits)

lemma filters_write_err [simp]: "filters (write_err s g) = filters g"
  by (simp add: write_err_def)

lemma IncrementErrorCount_total [simp]:
  "error_count (IncrementErrorCount cat g) = error_count g + 1"
  "filters (IncrementErrorCount cat g) = filters g"
  "counting (IncrementErrorCount cat g) = counting g"
  by (simp_all add: IncrementErrorCount_def Let_def)

lemma counts_ok_report:
  assumes "counts_ok n g"
  shows "counts_ok n (write_err s (IncrementErrorCount cat g))"
proof (cases "by_category g")
  case True
  with IncrementErrorCount_by_category obtain c where
    c: "errors_by_category (IncrementErrorCount cat g) =
     (errors_by_category g)(c \<mapsto> (case errors_by_category g c of None \<Rightarrow> 0 | Some x \<Rightarrow> x) + 1)"
    by blast
  let ?m = "errors_by_category g"
  have "(\<Sum>d\<in>insert c (dom ?m). the (errors_by_category (IncrementErrorCount cat g) d)) =
      error_count g + 1"
    unfolding c using assms True sum_bump [of ?m c] by (simp add: counts_ok_def)
  then show ?thesis
    using assms c by (simp add: counts_ok_def by_category_def write_err_def)
next
  case False
  with assms show ?thesis
    by (auto simp: counts_ok_def by_category_def write_err_def IncrementErrorCount_def Let_def)
qed

lemma Error_lint_ok: "keeps (lint_ok n) (Error fn ln cat conf msg)"
proof (unfold keeps_def, intro allI impI)
  fix g assume ok: "lint_ok n g"
  then obtain p where p: "ShouldPrintError cat conf ln g = Inr p"
    using ShouldPrintError_total [of g cat conf ln] by (auto simp: lint_ok_def)
  show "\<exists>g'. Error fn ln cat conf msg g = Inr g' \<and> lint_ok n g'"
    using ok by (cases p) (auto simp: Error_def p Let_def lint_ok_def filters_ok_def counts_ok_report)
qed

interpretation linter: framed_handler Error "lint_ok n" for n
proof unfold_locales
  show "keeps (lint_ok n) (Error fn ln cat conf msg)" for fn ln cat conf msg
    by (rule Error_lint_ok)
  show "lint_ok n (g\<lparr>suppressions := s\<rparr>)" if "lint_ok n g" for g s
    using that by (simp add: lint_ok_def filters_ok_def counts_ok_def by_category_def)
  show "settings g' = settings g \<and> suppressions g' = suppressions g"
    if "Error fn ln cat conf msg g = Inr g'" for fn ln cat conf msg g g'
    using that by (rule Error_frame)
qed

section \<open>The scope of a NOLINT comment\<close>

lemma RE_SUPPRESSION_ast: "RE_SUPPRESSION =
  Cat WordB (Cat (Lit CHR ''N'') (Cat (Lit CHR ''O'') (Cat (Lit CHR ''L'') (Cat (Lit CHR ''I'')
    (Cat (Lit CHR ''N'') (Cat (Lit CHR ''T'') (Cat WordB
      (Rep True 0 (Some 1) (Group 1 (Cat (Lit CHR ''('')
        (Cat (Rep True 0 None (Class True [One CHR '')''])) (Lit CHR '')''))))))))))))"
  by code_simp

text \<open>The text in parentheses, when it is there, is closed by its first closing parenthesis.\<close>

lemma nolint_group:
  assumes "re_search RE_SUPPRESSION line = Some m"
  shows "m_group m 1 = None \<or> (\<exists>t. m_group m 1 = Some (''('' @ t @ '')''))"
proof -
  let ?body = "Cat (Lit CHR ''('') (Cat (Rep True 0 None (Class True [One CHR '')''])) (Lit CHR '')''))"
  from re_search_sem [OF assms] obtain t u st where
    s: "sem RE_SUPPRESSION (MS (rev t) u []) st" and m: "m_caps m = caps st" by auto
  have tail: "drop_plain RE_SUPPRESSION = Rep True 0 (Some 1) (Group 1 ?body)"
    by (simp add: RE_SUPPRESSION_ast)
  from drop_plain_sem [OF s] obtain st0 where "sem (drop_plain RE_SUPPRESSION) st0 st"
    and c0: "caps st0 = []" unfolding mst.sel by blast
  then have s: "rep_sem (sem (Group 1 ?body)) 0 (Some 1) st0 st"
    unfolding tail sem.simps(10) by blast
  then have "st = st0 \<or> (\<exists>st1. sem ?body st0 st1 \<and> st = capture 1 st0 st1)"
    unfolding rep_opt sem.simps(11) .
  then have "caps st = [] \<or> (\<exists>st1. sem ?body st0 st1 \<and> caps st = caps (capture 1 st0 st1))"
    using c0 by blast
  then show ?thesis
  proof
    assume "caps st = []"
    then show ?thesis by (simp add: m_group_def m)
  next
    assume "\<exists>st1. sem ?body st0 st1 \<and> caps st = caps (capture 1 st0 st1)"
    then obtain st1 where b: "sem ?body st0 st1" and c: "caps st = caps (capture 1 st0 st1)" by blast
    from b obtain t where "rest st0 = ''('' @ t @ '')'' @ rest st1"
      by (auto simp: eats_iff dest!: rep_eats)
    with c show ?thesis by (simp add: m_group_def m capture_def)
  qed
qed

definition nolint_covers :: "string \<Rightarrow> string \<Rightarrow> bool" where
  "nolint_covers line category \<longleftrightarrow>
     (case re_search RE_SUPPRESSION line of None \<Rightarrow> False
      | Some m \<Rightarrow> (case m_group m 1 of None \<Rightarrow> True
         | Some t \<Rightarrow> t = ''(*)'' \<or> (t = ''('' @ category @ '')'' \<and> category \<in> set ERROR_CATEGORIES)))"

lemma suppressed_lines_suppress:
  "suppressed_lines key (suppress key' ln g) =
     (if key = key' then insert ln (suppressed_lines key g) else suppressed_lines key g)"
  by (auto simp: suppressed_lines_def suppress_def split: option.splits)

lemma suppressed_lines_frame:
  "settings g' = settings g \<and> suppressions g' = suppressions g \<Longrightarrow>
     suppressed_lines key g' = suppressed_lines key g"
  by (simp add: suppressed_lines_def)

lemma slice_parens: "py_slice (''('' @ t @ '')'') 1 (- 1) = t"
  by (simp add: py_slice_def clip_def)

section \<open>Properties\<close>

text \<open>
  C7: with the filters that the command line can install, the decision to print is made without
  an assertion failure, and an error is printed exactly when no \<open>NOLINT\<close> covers it, its
  confidence reaches the verbosity level, and the last filter that speaks of its category (if any)
  is a positive one.
\<close>

theorem ShouldPrintError_decides:
  assumes "filters_ok g"
  shows "ShouldPrintError category confidence linenum g =
    Inr (\<not> IsErrorSuppressedByNolint category linenum g \<and> verbose_level g \<le> confidence \<and>
      passes_filters category (filters g))"
  using assms
  by (auto simp: ShouldPrintError_def filters_ok_def filter_loop_spec passes_filters_def
      split: list.splits)

theorem ShouldPrintError_decides_witness:
  "ShouldPrintError ''whitespace/braces'' 4 7
     (init_lint\<lparr>filters := [''-whitespace'', ''+whitespace/braces'']\<rparr>) = Inr True"
proof -
  have "filters_ok (init_lint\<lparr>filters := [''-whitespace'', ''+whitespace/braces'']\<rparr>)"
    by (simp add: filters_ok_def signed_filter_def)
  from ShouldPrintError_decides [OF this] show ?thesis
    by (simp add: init_lint_def IsErrorSuppressedByNolint_def suppressed_lines_def passes_filters_def)
qed



text \<open>
  C8: what a \<open>NOLINT\<close> comment suppresses: after its line was parsed, an error is
  suppressed when it was before, or when it is on this very line and the comment covers its
  category (all of them without a category or with a star, the named one when it is known).
\<close>

theorem nolint_scope:
  assumes "ParseNolintSuppressions fn line ln Error g = Inr g'"
  shows "IsErrorSuppressedByNolint category k g' \<longleftrightarrow>
    IsErrorSuppressedByNolint category k g \<or> (k = ln \<and> nolint_covers line category)"
proof (cases "re_search RE_SUPPRESSION line")
  case None
  with assms show ?thesis by (simp add: ParseNolintSuppressions_def nolint_covers_def)
next
  case (Some m)
  from nolint_group [OF Some] consider (all) "m_group m 1 = None"
    | (named) t where "m_group m 1 = Some (''('' @ t @ '')'')" by metis
  then show ?thesis
  proof cases
    case all
    then have "g' = suppress None ln g" "nolint_covers line category"
      using assms Some by (simp_all add: ParseNolintSuppressions_def nolint_covers_def del: One_nat_def)
    then show ?thesis by (auto simp: IsErrorSuppressedByNolint_def suppressed_lines_suppress)
  next
    case named
    have star: "''('' @ t @ '')'' = ''(*)'' \<longleftrightarrow> t = ''*''" by (auto simp: append_eq_Cons_conv)
    have covers: "nolint_covers line category \<longleftrightarrow>
        t = ''*'' \<or> (t = category \<and> category \<in> set ERROR_CATEGORIES)"
      unfolding nolint_covers_def Some named option.case star by auto
    have ends: "endswith (''('' @ t @ '')'') '')''"
      using endswith_append [of "''('' @ t" "'')''"] by simp
    have run: "ParseNolintSuppressions fn line ln Error g =
        (if t = ''*'' then Inr (suppress None ln g)
         else if t \<in> set ERROR_CATEGORIES then Inr (suppress (Some t) ln g)
         else Error fn ln ''readability/nolint'' 5 (''Unknown NOLINT error category: '' @ t) g)"
      unfolding ParseNolintSuppressions_def Some named option.case star slice_parens Let_def
      using ends by simp
    consider "t = ''*''" | "t \<noteq> ''*''" "t \<in> set ERROR_CATEGORIES"
      | "t \<noteq> ''*''" "t \<notin> set ERROR_CATEGORIES" by blast
    then show ?thesis
    proof cases
      case 3
      with assms run have "suppressed_lines key g' = suppressed_lines key g" for key
        by (intro suppressed_lines_frame Error_frame) simp
      with 3 show ?thesis unfolding covers IsErrorSuppressedByNolint_def by auto
    qed (use assms in \<open>auto simp: run covers IsErrorSuppressedByNolint_def suppressed_lines_suppress split: if_splits\<close>)
  qed
qed

theorem nolint_scope_witness:
  "\<exists>g'. ParseNolintSuppressions ''a.cc'' ''x = 3;  // NOLINT(build/include)'' 5 Error init_lint = Inr g' \<and>
     IsErrorSuppressedByNolint ''build/include'' 5 g' \<and>
     \<not> IsErrorSuppressedByNolint ''build/include'' 6 g' \<and>
     \<not> IsErrorSuppressedByNolint ''build/class'' 5 g'"
proof -
  let ?line = "''x = 3;  // NOLINT(build/include)''"
  have m: "map_option (\<lambda>m. m_group m 1) (re_search RE_SUPPRESSION ?line) = Some (Some ''(build/include)'')"
    by code_simp
  then obtain m where m: "re_search RE_SUPPRESSION ?line = Some m" "m_group m 1 = Some ''(build/include)''"
    by auto
  have known: "''build/include'' \<in> set ERROR_CATEGORIES"
    and slice: "py_slice ''(build/include)'' 1 (- 1) = ''build/include''"
    and ends: "endswith ''(build/include)'' '')''" by code_simp+
  have p: "ParseNolintSuppressions ''a.cc'' ?line 5 Error init_lint =
      Inr (suppress (Some ''build/include'') 5 init_lint)"
    using m by (simp add: ParseNolintSuppressions_def known slice ends)
  have "nolint_covers ?line ''build/include''" "\<not> nolint_covers ?line ''build/class''"
    using m known by (simp_all add: nolint_covers_def)
  show ?thesis
    using nolint_scope [OF p] p \<open>nolint_covers ?line ''build/include''\<close> \<open>\<not> nolint_covers ?line ''build/class''\<close>
    by (intro exI [of _ "suppress (Some ''build/include'') 5 init_lint"])
      (simp add: IsErrorSuppressedByNolint_def suppressed_lines_suppress, simp add: suppressed_lines_def init_lint_def)
qed

text \<open>
  C15: the counters agree with the output: starting from reset counters and counting by category,
  any sequence of reports goes through, and then the counts of the categories add up to the total
  count, which is the number of lines written.
\<close>

theorem error_counts_agree:
  assumes "filters_ok g" and "counting g = ''toplevel'' \<or> counting g = ''detailed''"
  shows "\<exists>g'. forE reports (\<lambda>(fn, ln, cat, conf, msg). Error fn ln cat conf msg) (ResetErrorCounts g) = Inr g' \<and>
    (\<Sum>c\<in>dom (errors_by_category g'). the (errors_by_category g' c)) = error_count g' \<and>
    int (length (stderr g')) = int (length (stderr g)) + error_count g'"
proof -
  let ?n = "int (length (stderr g))"
  let ?P = "\<lambda>s. lint_ok ?n s \<and> by_category s"
  have "keeps ?P (Error fn ln cat conf msg)" for fn ln cat conf msg
  proof (unfold keeps_def, intro allI impI)
    fix s assume s: "?P s"
    with linter.error_keeps [of ?n fn ln cat conf msg] obtain s'
      where s': "Error fn ln cat conf msg s = Inr s'" "lint_ok ?n s'"
      by (auto simp: keeps_def)
    with Error_frame [OF s'(1)] s by_category_settings [of s' s]
    show "\<exists>s'. Error fn ln cat conf msg s = Inr s' \<and> ?P s'" by auto
  qed
  then have "keeps ?P (forE reports (\<lambda>(fn, ln, cat, conf, msg). Error fn ln cat conf msg))"
    by (auto intro!: keeps_forE)
  moreover have "?P (ResetErrorCounts g)"
    using assms
    by (simp add: lint_ok_def filters_ok_def counts_ok_def by_category_def ResetErrorCounts_def)
  ultimately obtain g' where
    "forE reports (\<lambda>(fn, ln, cat, conf, msg). Error fn ln cat conf msg) (ResetErrorCounts g) = Inr g'"
    "lint_ok ?n g'" "by_category g'"
    using keepsD [of ?P "forE reports (\<lambda>(fn, ln, cat, conf, msg). Error fn ln cat conf msg)"
        "ResetErrorCounts g"] by blast
  then show ?thesis by (auto simp: lint_ok_def counts_ok_def)
qed

theorem error_counts_agree_witness:
  "\<exists>g'. forE [(''a.cc'', 3, ''build/class'', 5, ''m''), (''a.cc'', 4, ''runtime/int'', 4, ''m'')]
      (\<lambda>(fn, ln, cat, conf, msg). Error fn ln cat conf msg)
      (ResetErrorCounts (init_lint\<lparr>counting := ''toplevel''\<rparr>)) = Inr g' \<and>
    (\<Sum>c\<in>dom (errors_by_category g'). the (errors_by_category g' c)) = error_count g'"
  using error_counts_agree [of "init_lint\<lparr>counting := ''toplevel''\<rparr>"
      "[(''a.cc'', 3, ''build/class'', 5, ''m''), (''a.cc'', 4, ''runtime/int'', 4, ''m'')]"]
  by (auto simp: filters_ok_def init_lint_def DEFAULT_FILTERS_def signed_filter_def)

end
