(* ===== verification/Py_Path.thy ===== *)
theory Py_Path
  imports Py_Regex
begin

text \<open>
  The functions of \<open>os.path\<close> (the POSIX ones) that the modelled code calls, and the part of
  the operating system it observes: the current directory, which paths exist, what the readable
  files hold, the text on standard input and the line separator of the platform.
\<close>

record environment =
  cwd :: string
  path_exists :: "string \<Rightarrow> bool"
  read_file :: "string \<Rightarrow> string option"
  stdin_text :: string
  linesep :: string

section \<open>Splitting and joining paths\<close>

definition path_split :: "string \<Rightarrow> string \<times> string" where
  "path_split p =
     (let i = str_rfind p ''/'' + 1; head = py_upto p i; tail = py_from p i
      in (if head \<noteq> [] \<and> (\<exists>c\<in>set head. c \<noteq> CHR ''/'') then rstrip_chars head ''/'' else head, tail))"

definition dirname :: "string \<Rightarrow> string" where
  "dirname p = fst (path_split p)"

definition splitext :: "string \<Rightarrow> string \<times> string" where
  "splitext p =
     (let sep = str_rfind p ''/''; dot = str_rfind p ''.'' in
      if sep < dot \<and> (\<exists>c\<in>set (py_slice p (sep + 1) dot). c \<noteq> CHR ''.'')
      then (py_upto p dot, py_from p dot) else (p, []))"

definition path_join :: "string \<Rightarrow> string \<Rightarrow> string" where
  "path_join a b =
     (if startswith b ''/'' then b
      else if a = [] \<or> endswith a ''/'' then a @ b
      else a @ ''/'' @ b)"

text \<open>\<open>normpath\<close>: the components that remain, newest first.\<close>

fun norm_comps :: "bool \<Rightarrow> string list \<Rightarrow> string list \<Rightarrow> string list" where
  "norm_comps absolute [] acc = acc"
| "norm_comps absolute (c # cs) acc =
     (if c = [] \<or> c = ''.'' then norm_comps absolute cs acc
      else if c \<noteq> ''..'' \<or> (\<not> absolute \<and> acc = []) \<or> (acc \<noteq> [] \<and> hd acc = ''..'')
      then norm_comps absolute cs (c # acc)
      else norm_comps absolute cs (tl acc))"

definition normpath :: "string \<Rightarrow> string" where
  "normpath p =
     (if p = [] then ''.'' else
      let slashes = (if startswith p ''//'' \<and> \<not> startswith p ''///'' then ''//''
                     else if startswith p ''/'' then ''/'' else []);
          q = slashes @ str_join ''/'' (rev (norm_comps (slashes \<noteq> []) (str_split p ''/'') []))
      in if q = [] then ''.'' else q)"

definition abspath :: "environment \<Rightarrow> string \<Rightarrow> string" where
  "abspath env p = normpath (if startswith p ''/'' then p else path_join (cwd env) p)"

fun common_prefix :: "string \<Rightarrow> string \<Rightarrow> string" where
  "common_prefix (a # as) (b # bs) = (if a = b then a # common_prefix as bs else [])"
| "common_prefix _ _ = []"

section \<open>Facts about paths\<close>

lemma rfind_last: "d \<notin> set b \<Longrightarrow> str_rfind (a @ d # b) [d] = int (length a)"
proof (induction b rule: rev_induct)
  case Nil
  then show ?case by (simp add: str_rfind_snoc)
next
  case (snoc c b)
  then have "c \<noteq> d" "str_rfind (a @ d # b) [d] = int (length a)" by auto
  then have "str_rfind ((a @ d # b) @ [c]) [d] = int (length a)"
    by (simp only: str_rfind_snoc) simp
  then show ?case by simp
qed

lemma rfind_char_spec:
  "(d \<notin> set s \<and> str_rfind s [d] = - 1) \<or>
   (\<exists>a b. s = a @ d # b \<and> d \<notin> set b \<and> str_rfind s [d] = int (length a))"
proof (cases "d \<in> set s")
  case True
  then obtain a b where "s = a @ d # b" "d \<notin> set b" by (meson split_list_last)
  then show ?thesis using rfind_last by blast
qed (simp add: str_rfind_absent)

lemma path_split_slash:
  assumes "CHR ''/'' \<notin> set b"
  shows "path_split (a @ CHR ''/'' # b) =
    (if \<exists>c\<in>set a. c \<noteq> CHR ''/'' then rstrip_chars (a @ ''/'') ''/'' else a @ ''/'', b)"
proof -
  have i: "str_rfind (a @ CHR ''/'' # b) ''/'' + 1 = int (Suc (length a))"
    using rfind_last [OF assms] by simp
  show ?thesis
    unfolding path_split_def Let_def i py_upto_nat py_from_nat by auto
qed

lemma path_split_plain: "CHR ''/'' \<notin> set b \<Longrightarrow> path_split b = ([], b)"
  by (simp add: path_split_def str_rfind_absent py_slice_def clip_def)

text \<open>Going up never makes a path longer, and stops only where it no longer changes.\<close>

lemma length_rstrip_chars: "length (rstrip_chars s cs) \<le> length s"
  unfolding rstrip_chars_def by (metis length_dropWhile_le length_rev)

lemma dirname_shrinks: "dirname p = p \<or> length (dirname p) < length p"
proof -
  have "(\<exists>a b. p = a @ CHR ''/'' # b \<and> CHR ''/'' \<notin> set b) \<or> CHR ''/'' \<notin> set p"
    using rfind_char_spec [of "CHR ''/''" p] by blast
  then show ?thesis
  proof (elim disjE exE conjE)
    fix a b assume p: "p = a @ CHR ''/'' # b" "CHR ''/'' \<notin> set b"
    have r: "rstrip_chars (a @ ''/'') ''/'' = rstrip_chars a ''/''"
      by (simp add: rstrip_chars_def)
    have "length (rstrip_chars a ''/'') \<le> length a" by (rule length_rstrip_chars)
    with p show ?thesis
      by (cases b) (auto simp: dirname_def path_split_slash r)
  next
    assume "CHR ''/'' \<notin> set p"
    then show ?thesis by (cases p) (auto simp: dirname_def path_split_plain)
  qed
qed

end
