(* ===== verification/Lint_Lines.thy ===== *)
theory Lint_Lines
  imports Lint_State Py_Path
begin

text \<open>
  The text of a file as the checks of \<open>cpplint.py\<close> see it: the removal of comments
  (\<open>RemoveMultiLineComments\<close>, \<open>CleanseComments\<close>), the three copies of every line that
  \<open>CleansedLines\<close> holds, the search for a closing bracket, and the first line checks. The
  lemmas show that cleansing only deletes characters, what \<open>CloseExpression\<close> finds and when
  it raises, and that no multi-line comment is left behind unreported.
\<close>

section \<open>Comments and strings\<close>

definition RE_CLEANSE_LINE_ESCAPES :: regex where
  "RE_CLEANSE_LINE_ESCAPES = rx (''``([abfnrtv?\"```'' @ CHR 0x27 # '']|`d+|x[0-9a-fA-F]+)'')"

definition RE_CLEANSE_LINE_DOUBLE_QUOTES :: regex where
  "RE_CLEANSE_LINE_DOUBLE_QUOTES = rx ''\"[^\"]*\"''"

definition RE_CLEANSE_LINE_SINGLE_QUOTES :: regex where
  "RE_CLEANSE_LINE_SINGLE_QUOTES = rx [CHR 0x27, CHR ''.'', CHR 0x27]"

definition RE_CLEANSE_LINE_C_COMMENTS :: regex where
  "RE_CLEANSE_LINE_C_COMMENTS =
     rx (verbose ''(`s*/`*.*`*/`s*$|   /`*.*`*/`s+|   `s+/`*.*`*/(?=`W)|   /`*.*`*/)'')"

definition RE_PATTERN_INCLUDE :: regex where
  "RE_PATTERN_INCLUDE = rx ''^`s*#`s*include`s*([<\"])([^>\"]*)[>\"].*$''"

definition IsCppString :: "string \<Rightarrow> bool" where
  "IsCppString line0 =
     (let line = str_replace line0 (lit ''``'') ''XX'' in
      (int (str_count line ''\"'') - int (str_count line (lit ''`\"''))
        - int (str_count line [CHR 0x27, CHR 0x22, CHR 0x27])) mod 2 = 1)"

text \<open>A line that opens a comment which it does not close, and one that closes a comment.\<close>

definition opens_comment :: "string \<Rightarrow> bool" where
  "opens_comment l \<longleftrightarrow> startswith (strip l) ''/*'' \<and> str_find_at (strip l) ''*/'' 2 < 0"

definition closes_comment :: "string \<Rightarrow> bool" where
  "closes_comment l \<longleftrightarrow> endswith (strip l) ''*/''"

function FindNextMultiLineCommentStart :: "string list \<Rightarrow> nat \<Rightarrow> nat" where
  "FindNextMultiLineCommentStart lines lineix =
     (if lineix < length lines then
        (if opens_comment (lines ! lineix) then lineix
         else FindNextMultiLineCommentStart lines (lineix + 1))
      else length lines)"
  by auto
termination by (relation "measure (\<lambda>(lines, lineix). length lines - lineix)") auto

function FindNextMultiLineCommentEnd :: "string list \<Rightarrow> nat \<Rightarrow> nat" where
  "FindNextMultiLineCommentEnd lines lineix =
     (if lineix < length lines then
        (if closes_comment (lines ! lineix) then lineix
         else FindNextMultiLineCommentEnd lines (lineix + 1))
      else length lines)"
  by auto
termination by (relation "measure (\<lambda>(lines, lineix). length lines - lineix)") auto

declare FindNextMultiLineCommentStart.simps [simp del] FindNextMultiLineCommentEnd.simps [simp del]

definition RemoveMultiLineCommentsFromRange :: "string list \<Rightarrow> nat \<Rightarrow> nat \<Rightarrow> string list" where
  "RemoveMultiLineCommentsFromRange lines begin_ix end_ix =
     fold (\<lambda>i ls. ls[i := ''// dummy'']) [begin_ix..<end_ix] lines"

lemma start_range:
  "i \<le> length ls \<Longrightarrow> i \<le> FindNextMultiLineCommentStart ls i \<and> FindNextMultiLineCommentStart ls i \<le> length ls"
proof (induction ls i rule: FindNextMultiLineCommentStart.induct)
  case (1 ls i)
  then show ?case by (subst (1 2) FindNextMultiLineCommentStart.simps) fastforce
qed

lemma end_range:
  "i \<le> length ls \<Longrightarrow> i \<le> FindNextMultiLineCommentEnd ls i \<and> FindNextMultiLineCommentEnd ls i \<le> length ls"
proof (induction ls i rule: FindNextMultiLineCommentEnd.induct)
  case (1 ls i)
  then show ?case by (subst (1 2) FindNextMultiLineCommentEnd.simps) fastforce
qed

lemma length_RemoveRange [simp]: "length (RemoveMultiLineCommentsFromRange ls b e) = length ls"
proof -
  have "length (fold (\<lambda>i ls. ls[i := ''// dummy'']) xs ls) = length ls" for xs and ls :: "string list"
    by (induction xs arbitrary: ls) auto
  then show ?thesis by (simp add: RemoveMultiLineCommentsFromRange_def)
qed

text \<open>
  \<open>RemoveMultiLineComments\<close> changes its list in place: the result is the list as it is left,
  with the state that the report of an unfinished comment leaves.
\<close>

function remove_comments_from ::
  "string \<Rightarrow> handler \<Rightarrow> nat \<Rightarrow> string list \<Rightarrow> lint \<Rightarrow> (string list \<times> lint) result" where
  "remove_comments_from filename error lineix lines g =
     (if lineix < length lines then
        (let lineix_begin = FindNextMultiLineCommentStart lines lineix in
         if lineix_begin \<ge> length lines then Inr (lines, g)
         else (let lineix_end = FindNextMultiLineCommentEnd lines lineix_begin in
           if lineix_end \<ge> length lines then
             bindE (error filename (int lineix_begin + 1) ''readability/multiline_comment'' 5
                 ''Could not find end of multi-line comment'' g) (\<lambda>g. Inr (lines, g))
           else remove_comments_from filename error (lineix_end + 1)
                  (RemoveMultiLineCommentsFromRange lines lineix_begin (lineix_end + 1)) g))
      else Inr (lines, g))"
  by auto
termination
proof (relation "measure (\<lambda>(filename, error, lineix, lines, g). length lines - lineix)", simp, goal_cases)
  case (1 filename error lineix lines g b e)
  then show ?case using start_range [of lineix lines] end_range [of b lines] by auto
qed

declare remove_comments_from.simps [simp del]

definition RemoveMultiLineComments ::
  "string \<Rightarrow> string list \<Rightarrow> handler \<Rightarrow> lint \<Rightarrow> (string list \<times> lint) result" where
  "RemoveMultiLineComments filename lines error = remove_comments_from filename error 0 lines"

definition CleanseComments :: "string \<Rightarrow> string" where
  "CleanseComments line =
     (let commentpos = str_find line ''//'';
          line = (if commentpos \<noteq> - 1 \<and> \<not> IsCppString (py_upto line commentpos)
                  then py_upto line commentpos else line)
      in re_sub RE_CLEANSE_LINE_C_COMMENTS [] line)"

section \<open>Cleansed lines\<close>

record cleansed_lines =
  elided :: "string list"
  lines_of :: "string list"
  raw_lines :: "string list"

definition CollapseStrings :: "string \<Rightarrow> string" where
  "CollapseStrings elided0 =
     (if re_match RE_PATTERN_INCLUDE elided0 = None then
        re_sub RE_CLEANSE_LINE_DOUBLE_QUOTES ''\"\"''
          (re_sub RE_CLEANSE_LINE_SINGLE_QUOTES [CHR 0x27, CHR 0x27]
            (re_sub RE_CLEANSE_LINE_ESCAPES [] elided0))
      else elided0)"

definition CleansedLines :: "string list \<Rightarrow> cleansed_lines" where
  "CleansedLines lines =
     \<lparr> elided = map (\<lambda>l. CleanseComments (CollapseStrings l)) lines,
       lines_of = map CleanseComments lines,
       raw_lines = lines \<rparr>"

definition NumLines :: "cleansed_lines \<Rightarrow> nat" where
  "NumLines cl = length (raw_lines cl)"

section \<open>The closing bracket of an expression\<close>

definition balance :: "char \<Rightarrow> char \<Rightarrow> string \<Rightarrow> int" where
  "balance a b line = int (str_count line [a]) - int (str_count line [b])"

function close_line ::
  "cleansed_lines \<Rightarrow> char \<Rightarrow> char \<Rightarrow> string \<Rightarrow> nat \<Rightarrow> int \<Rightarrow> (string \<times> nat \<times> int) result" where
  "close_line cl a b line linenum num_open =
     (if linenum < NumLines cl \<and> 0 < num_open then
        bindE (py_index (elided cl) (int (linenum + 1))) (\<lambda>line.
          close_line cl a b line (linenum + 1) (num_open + balance a b line))
      else Inr (line, linenum, num_open))"
  by auto
termination by (relation "measure (\<lambda>(cl, a, b, line, linenum, num_open). NumLines cl - linenum)") auto

declare close_line.simps [simp del]

text \<open>\<open>n\<close> more closing parentheses are chopped off the end.\<close>

primrec chop :: "string \<Rightarrow> nat \<Rightarrow> int \<Rightarrow> int" where
  "chop line 0 endpos = endpos"
| "chop line (Suc n) endpos = chop line n (str_rfind_upto line '')'' endpos)"

definition CloseExpression ::
  "cleansed_lines \<Rightarrow> nat \<Rightarrow> int \<Rightarrow> (string \<times> nat \<times> int) result" where
  "CloseExpression cl linenum pos =
     bindE (py_index (elided cl) (int linenum)) (\<lambda>line.
     bindE (py_index line pos) (\<lambda>startchar.
       if startchar \<notin> set ''({['' then Inr (line, NumLines cl, - 1)
       else
         (let endchar = (if startchar = CHR ''('' then CHR '')''
                         else if startchar = CHR ''['' then CHR '']'' else CHR ''}'')
          in bindE (close_line cl startchar endchar line linenum (balance startchar endchar line))
               (\<lambda>(line, linenum, num_open).
                 Inr (line, linenum, chop line (nat (num_open + 1)) (int (length line)) + 1)))))"

section \<open>Line checks\<close>

text \<open>The characters as code points, which is what \<open>U+FFFD\<close> is looked for in.\<close>

definition CheckForUnicodeReplacementCharacters ::
  "string \<Rightarrow> nat list list \<Rightarrow> handler \<Rightarrow> check" where
  "CheckForUnicodeReplacementCharacters filename lines error =
     forE (List.enumerate 0 lines) (\<lambda>(linenum, line). only_if (0xFFFD \<in> set line)
       (error filename (int linenum) ''readability/utf8'' 5
         ''Line contains invalid UTF-8 (or Unicode replacement character).''))"

definition CheckForMultilineCommentsAndStrings ::
  "string \<Rightarrow> cleansed_lines \<Rightarrow> nat \<Rightarrow> handler \<Rightarrow> check" where
  "CheckForMultilineCommentsAndStrings filename clean_lines linenum error g =
     bindE (py_index (elided clean_lines) (int linenum)) (\<lambda>line0.
       let line = str_replace line0 (lit ''``'') [] in
       seqE [
         only_if (str_count line ''/*'' > str_count line ''*/'')
           (error filename (int linenum) ''readability/multiline_comment'' 5
             (''Complex multi-line /*...*/-style comment found. ''
              @ ''Lint may give bogus warnings.  ''
              @ ''Consider replacing these with //-style comments, ''
              @ ''with #if 0...#endif, ''
              @ ''or with more clearly structured multi-line comments.'')),
         only_if ((int (str_count line ''\"'') - int (str_count line (lit ''`\"''))) mod 2 \<noteq> 0)
           (error filename (int linenum) ''readability/multiline_string'' 5
             (''Multi-line string (\"...\") found.  This lint script doesn'' @ CHR 0x27 # ''t ''
              @ ''do well with such strings, and may give bogus warnings.  They'' @ CHR 0x27 # ''re ''
              @ ''ugly and unnecessary, and you should use concatenation instead\".''))] g)"

definition threading_list :: "(string \<times> string) list" where
  "threading_list = [
     (''asctime('', ''asctime_r(''), (''ctime('', ''ctime_r(''), (''getgrgid('', ''getgrgid_r(''),
     (''getgrnam('', ''getgrnam_r(''), (''getlogin('', ''getlogin_r(''), (''getpwnam('', ''getpwnam_r(''),
     (''getpwuid('', ''getpwuid_r(''), (''gmtime('', ''gmtime_r(''), (''localtime('', ''localtime_r(''),
     (''rand('', ''rand_r(''), (''readdir('', ''readdir_r(''), (''strtok('', ''strtok_r(''),
     (''ttyname('', ''ttyname_r('')]"

text \<open>The first occurrence of the name stands where a call of it may stand.\<close>

definition bare_call :: "string \<Rightarrow> string \<Rightarrow> bool" where
  "bare_call line f =
     (let ix = str_find line f in
      ix \<ge> 0 \<and> (ix = 0 \<or> (\<not> is_alnum (line ! nat (ix - 1)) \<and>
        line ! nat (ix - 1) \<notin> {CHR ''_'', CHR ''.'', CHR ''>''})))"

definition CheckPosixThreading :: "string \<Rightarrow> cleansed_lines \<Rightarrow> nat \<Rightarrow> handler \<Rightarrow> check" where
  "CheckPosixThreading filename clean_lines linenum error g =
     bindE (py_index (elided clean_lines) (int linenum)) (\<lambda>line.
       forE threading_list (\<lambda>(single_thread_function, multithread_safe_function).
         only_if (bare_call line single_thread_function)
           (error filename (int linenum) ''runtime/threadsafe_fn'' 2
             (''Consider using '' @ multithread_safe_function @ ''...) instead of ''
              @ single_thread_function @ ''...) for improved thread safety.''))) g)"

definition RE_PATTERN_INVALID_INCREMENT :: regex where
  "RE_PATTERN_INVALID_INCREMENT = rx ''^`s*`*`w+(`+`+|--);''"

definition CheckInvalidIncrement :: "string \<Rightarrow> cleansed_lines \<Rightarrow> nat \<Rightarrow> handler \<Rightarrow> check" where
  "CheckInvalidIncrement filename clean_lines linenum error g =
     bindE (py_index (elided clean_lines) (int linenum)) (\<lambda>line.
       only_if (re_match RE_PATTERN_INVALID_INCREMENT line \<noteq> None)
         (error filename (int linenum) ''runtime/invalid_increment'' 5
           ''Changing pointer instead of value (or unused value of operator*).'') g)"

definition IsBlankLine :: "string \<Rightarrow> bool" where
  "IsBlankLine line \<longleftrightarrow> line = [] \<or> isspace line"

text \<open>The walk upwards from the line before \<open>linenum\<close>.\<close>

fun previous_non_blank :: "string list \<Rightarrow> nat \<Rightarrow> string \<times> int" where
  "previous_non_blank ls 0 = ([], - 1)"
| "previous_non_blank ls (Suc n) =
     (if \<not> IsBlankLine (ls ! n) then (ls ! n, int n) else previous_non_blank ls n)"

definition GetPreviousNonBlankLine :: "cleansed_lines \<Rightarrow> int \<Rightarrow> string \<times> int" where
  "GetPreviousNonBlankLine clean_lines linenum = previous_non_blank (elided clean_lines) (nat linenum)"

section \<open>Cleansing only deletes\<close>

lemma double_quotes_ast:
  "RE_CLEANSE_LINE_DOUBLE_QUOTES =
     Cat (Lit CHR 0x22) (Cat (Rep True 0 None (Class True [One CHR 0x22])) (Lit CHR 0x22))"
  by code_simp

lemma single_quotes_ast: "RE_CLEANSE_LINE_SINGLE_QUOTES = Cat (Lit CHR 0x27) (Cat Any (Lit CHR 0x27))"
  by code_simp

lemma double_quotes_match:
  assumes "sem RE_CLEANSE_LINE_DOUBLE_QUOTES (MS b u []) st"
  shows "\<exists>t. u = CHR 0x22 # t @ CHR 0x22 # rest st"
  using assms unfolding double_quotes_ast
  by (auto simp: eats_iff dest!: rep_eats)

lemma single_quotes_match:
  assumes "sem RE_CLEANSE_LINE_SINGLE_QUOTES (MS b u []) st"
  shows "\<exists>c. u = CHR 0x27 # c # CHR 0x27 # rest st"
  using assms unfolding single_quotes_ast by (auto simp: eats_iff)

lemma subseq_re_sub_empty: "subseq (re_sub r [] s) s"
  by (rule re_sub_subseq) simp

lemma subseq_double_quotes: "subseq (re_sub RE_CLEANSE_LINE_DOUBLE_QUOTES ''\"\"'' s) s"
proof (rule re_sub_subseq, rule ballI)
  fix m assume "m \<in> set (find_all RE_CLEANSE_LINE_DOUBLE_QUOTES s)"
  from find_all_sem [OF this] double_quotes_match obtain t where "m_text m = CHR 0x22 # t @ [CHR 0x22]"
    by fastforce
  then show "subseq ''\"\"'' (m_text m)" by (simp add: subseq_singleton_left)
qed

lemma subseq_single_quotes:
  "subseq (re_sub RE_CLEANSE_LINE_SINGLE_QUOTES [CHR 0x27, CHR 0x27] s) s"
proof (rule re_sub_subseq, rule ballI)
  fix m assume "m \<in> set (find_all RE_CLEANSE_LINE_SINGLE_QUOTES s)"
  from find_all_sem [OF this] single_quotes_match obtain c where "m_text m = [CHR 0x27, c, CHR 0x27]"
    by fastforce
  then show "subseq [CHR 0x27, CHR 0x27] (m_text m)" by simp
qed

lemma subseq_CleanseComments: "subseq (CleanseComments l) l"
proof -
  have "subseq (take k l) l" for k
    using list_emb_append2 [of "(=)" "take k l" "take k l"]
    by (metis append_take_drop_id prefix_imp_subseq prefixI)
  moreover have "py_upto l (str_find l ''//'') = take (clip (length l) (str_find l ''//'')) l"
    by (simp add: py_slice_def clip_def)
  ultimately have "subseq (py_upto l (str_find l ''//'')) l" by simp
  then show ?thesis
    unfolding CleanseComments_def Let_def
    by (auto intro: subseq_order.trans [OF subseq_re_sub_empty])
qed

lemma subseq_CollapseStrings: "subseq (CollapseStrings l) l"
  unfolding CollapseStrings_def
  by (auto intro!: subseq_order.trans [OF subseq_double_quotes]
      subseq_order.trans [OF subseq_single_quotes] subseq_re_sub_empty)

section \<open>Multi-line comments are gone\<close>

lemma nth_RemoveRange:
  assumes "i < length ls"
  shows "RemoveMultiLineCommentsFromRange ls b e ! i =
     (if b \<le> i \<and> i < e then ''// dummy'' else ls ! i)"
proof -
  have "i < length ls \<Longrightarrow> fold (\<lambda>i ls. ls[i := ''// dummy'']) xs ls ! i =
      (if i \<in> set xs then ''// dummy'' else ls ! i)" for xs and ls :: "string list"
    by (induction xs arbitrary: ls) (auto simp: nth_list_update)
  with assms show ?thesis by (auto simp: RemoveMultiLineCommentsFromRange_def)
qed

lemma dummy_opens_nothing: "\<not> opens_comment ''// dummy''"
  by code_simp

lemma start_skips: "i \<le> j \<Longrightarrow> j < FindNextMultiLineCommentStart ls i \<Longrightarrow> \<not> opens_comment (ls ! j)"
proof (induction ls i rule: FindNextMultiLineCommentStart.induct)
  case (1 ls i)
  show ?case
  proof (cases "i < length ls \<and> \<not> opens_comment (ls ! i)")
    case True
    with 1 show ?thesis
      by (cases "i = j") (auto simp: FindNextMultiLineCommentStart.simps [of ls i])
  next
    case False
    then have "FindNextMultiLineCommentStart ls i = i \<or> length ls \<le> i"
      by (subst FindNextMultiLineCommentStart.simps) auto
    with 1 show ?thesis
      by (auto simp: FindNextMultiLineCommentStart.simps [of ls i] split: if_splits)
  qed
qed

lemma start_from_zero:
  assumes "\<forall>j<i. \<not> opens_comment (ls ! j)" and "i \<le> length ls"
  shows "FindNextMultiLineCommentStart ls 0 = FindNextMultiLineCommentStart ls i"
  using assms
proof (induction i)
  case (Suc i)
  then have "FindNextMultiLineCommentStart ls i = FindNextMultiLineCommentStart ls (Suc i)"
    by (subst FindNextMultiLineCommentStart.simps) auto
  with Suc show ?case by auto
qed simp

text \<open>Where the rest of the text still holds a comment that never ends.\<close>

definition unfinished :: "string list \<Rightarrow> bool" where
  "unfinished ls \<longleftrightarrow> FindNextMultiLineCommentStart ls 0 < length ls \<and>
     FindNextMultiLineCommentEnd ls (FindNextMultiLineCommentStart ls 0) = length ls"

lemma remove_comments_from_spec:
  assumes "remove_comments_from fn error i ls g = Inr (ls', g')"
    and "\<forall>j<i. \<not> opens_comment (ls ! j)" and "i \<le> length ls"
  shows "length ls' = length ls \<and> (\<forall>j<length ls. ls' ! j = ls ! j \<or> ls' ! j = ''// dummy'') \<and>
    (if unfinished ls' then error fn (int (FindNextMultiLineCommentStart ls' 0) + 1)
         ''readability/multiline_comment'' 5 ''Could not find end of multi-line comment'' g = Inr g'
     else g' = g \<and> (\<forall>l\<in>set ls'. \<not> opens_comment l))"
  using assms
proof (induction fn error i ls g rule: remove_comments_from.induct)
  case (1 fn error i ls g)
  let ?b = "FindNextMultiLineCommentStart ls i"
  let ?e = "FindNextMultiLineCommentEnd ls ?b"
  have z: "FindNextMultiLineCommentStart ls 0 = ?b"
    using start_from_zero "1.prems"(2,3) by blast
  have none: "\<forall>l\<in>set ls. \<not> opens_comment l" if "?b = length ls"
    using start_skips [of 0 _ ls] z that by (auto simp: in_set_conv_nth)
  consider "i = length ls" | "i < length ls" "length ls \<le> ?b" | "i < length ls" "?b < length ls" "length ls \<le> ?e"
    | "i < length ls" "?b < length ls" "?e < length ls"
    using "1.prems"(3) by linarith
  then show ?case
  proof cases
    case 1
    with "1.prems"(1) have "ls' = ls" "g' = g"
      by (simp_all add: remove_comments_from.simps [of fn error "length ls"])
    moreover from 1 have "?b = length ls" by (simp add: FindNextMultiLineCommentStart.simps [of ls "length ls"])
    ultimately show ?thesis using none z by (simp add: unfinished_def)
  next
    case 2
    then have eq: "?b = length ls" using start_range [of i ls] by auto
    from 2 "1.prems"(1) have "ls' = ls" "g' = g"
      by (simp_all add: remove_comments_from.simps [of fn error i] Let_def)
    with eq show ?thesis using none z by (simp add: unfinished_def)
  next
    case 3
    then have eq: "?e = length ls" using end_range [of ?b ls] by auto
    from 3 "1.prems"(1) have "ls' = ls"
      "error fn (int ?b + 1) ''readability/multiline_comment'' 5 ''Could not find end of multi-line comment'' g = Inr g'"
      by (auto simp: remove_comments_from.simps [of fn error i] Let_def bindE_eq_Inr)
    with 3 eq z show ?thesis by (simp add: unfinished_def)
  next
    case 4
    let ?ls = "RemoveMultiLineCommentsFromRange ls ?b (?e + 1)"
    have be: "i \<le> ?b" "?b \<le> ?e" using start_range [of i ls] end_range [of ?b ls] 4 by auto
    have "\<forall>j<?e + 1. \<not> opens_comment (?ls ! j)"
      using "1.prems"(2) start_skips [of i _ ls] 4 dummy_opens_nothing
      by (auto simp: nth_RemoveRange) (meson linorder_not_less)
    moreover have "remove_comments_from fn error (?e + 1) ?ls g = Inr (ls', g')"
      using "1.prems"(1) 4 by (simp add: remove_comments_from.simps [of fn error i] Let_def)
    ultimately have "length ls' = length ?ls \<and> (\<forall>j<length ?ls. ls' ! j = ?ls ! j \<or> ls' ! j = ''// dummy'') \<and>
      (if unfinished ls' then error fn (int (FindNextMultiLineCommentStart ls' 0) + 1)
         ''readability/multiline_comment'' 5 ''Could not find end of multi-line comment'' g = Inr g'
       else g' = g \<and> (\<forall>l\<in>set ls'. \<not> opens_comment l))"
      using 4 by (intro "1.IH") auto
    then show ?thesis by (auto simp: nth_RemoveRange split: if_split_asm)
  qed
qed

section \<open>Closing parentheses\<close>

text \<open>
  The reference: a scan with the number of open parentheses. It ends with that number
  (\<open>Inl\<close>), or at the parenthesis that closes the last one (\<open>Inr\<close>, its position).
\<close>

definition paren_step :: "nat \<Rightarrow> char \<Rightarrow> nat" where
  "paren_step d c = (if c = CHR ''('' then d + 1 else if c = CHR '')'' then d - 1 else d)"

fun scan_paren :: "nat \<Rightarrow> string \<Rightarrow> nat + nat" where
  "scan_paren d [] = Inl d"
| "scan_paren d (c # cs) =
     (if c = CHR '')'' \<and> d = 1 then Inr 0 else map_sum id Suc (scan_paren (paren_step d c) cs))"

fun find_close :: "nat \<Rightarrow> string list \<Rightarrow> (nat \<times> nat) option" where
  "find_close d [] = None"
| "find_close d (l # ls) =
     (case scan_paren d l of Inr q \<Rightarrow> Some (0, q)
      | Inl d' \<Rightarrow> map_option (\<lambda>(k, q). (Suc k, q)) (find_close d' ls))"

abbreviation parens :: "string \<Rightarrow> int" where
  "parens \<equiv> balance CHR ''('' CHR '')''"

definition paren_free :: "string \<Rightarrow> bool" where
  "paren_free s \<longleftrightarrow> (\<forall>c\<in>set s. c \<noteq> CHR ''('' \<and> c \<noteq> CHR '')'')"

lemma balance_Nil [simp]: "balance a b [] = 0"
  by (simp add: balance_def)

lemma balance_Cons [simp]:
  "balance a b (c # s) = balance a b s + (if c = a then 1 else 0) - (if c = b then 1 else 0)"
  by (simp add: balance_def str_count_char)

lemma balance_append [simp]: "balance a b (s @ t) = balance a b s + balance a b t"
  by (simp add: balance_def)

lemma paren_free_parens: "paren_free s \<Longrightarrow> parens s = 0"
proof -
  assume "paren_free s"
  then have "CHR ''('' \<notin> set s" "CHR '')'' \<notin> set s" by (auto simp: paren_free_def)
  then have "str_count s ''('' = 0" "str_count s '')'' = 0" by (simp_all only: str_count_char_zero not_False_eq_True)
  then show ?thesis by (simp add: balance_def)
qed

lemma map_sum_eq:
  "map_sum id f x = Inl a \<longleftrightarrow> x = Inl a"
  "map_sum id f x = Inr b \<longleftrightarrow> (\<exists>y. x = Inr y \<and> b = f y)"
  by (cases x; auto)+

lemma paren_step:
  "0 < d \<Longrightarrow> \<not> (c = CHR '')'' \<and> d = 1) \<Longrightarrow>
     0 < paren_step d c \<and> int (paren_step d c) + parens cs = int d + parens (c # cs)"
  by (auto simp: paren_step_def)

lemma scan_paren_Inl:
  "scan_paren d s = Inl d' \<Longrightarrow> 0 < d \<Longrightarrow> int d' = int d + parens s \<and> 0 < d'"
proof (induction s arbitrary: d)
  case (Cons c cs)
  from Cons.prems(1) have "\<not> (c = CHR '')'' \<and> d = 1)" and r: "scan_paren (paren_step d c) cs = Inl d'"
    by (simp_all add: map_sum_eq split: if_splits)
  with paren_step [OF Cons.prems(2), of c cs] Cons.IH [OF r] show ?case by simp
qed simp

lemma scan_paren_Inr:
  "scan_paren d s = Inr q \<Longrightarrow> 0 < d \<Longrightarrow>
     \<exists>u v. s = u @ CHR '')'' # v \<and> length u = q \<and> int d + parens u = 1"
proof (induction s arbitrary: d q)
  case (Cons c cs)
  show ?case
  proof (cases "c = CHR '')'' \<and> d = 1")
    case True
    with Cons.prems show ?thesis by (intro exI [of _ "[]"] exI [of _ cs]) auto
  next
    case False
    with Cons.prems(1) obtain q' where r: "scan_paren (paren_step d c) cs = Inr q'" and q: "q = Suc q'"
      by (auto simp: map_sum_eq)
    from False Cons.prems(2) have step: "0 < paren_step d c"
        "int (paren_step d c) + parens u = int d + parens (c # u)" for u
      using paren_step by blast+
    from Cons.IH [OF r step(1)] obtain u v
      where uv: "cs = u @ CHR '')'' # v" "length u = q'" "int (paren_step d c) + parens u = 1" by blast
    from uv(3) step(2) [of u] have "int d + parens (c # u) = 1" by simp
    with uv q show ?thesis by (intro exI [of _ "c # u"] exI [of _ v]) auto
  qed
qed simp

text \<open>The line that the search for the end stops at, and what it returns for it.\<close>

lemma close_line_stop [simp]: "\<not> 0 < n \<Longrightarrow> close_line cl a b line ln n = Inr (line, ln, n)"
  by (simp add: close_line.simps)

lemma close_line_closes:
  assumes "find_close d ls = Some (k, q)" and "0 < d" and "ls = drop (Suc linenum) (elided cl)"
    and "NumLines cl = length (elided cl)" and "paren_free (drop (Suc q) (ls ! k))"
  shows "close_line cl CHR ''('' CHR '')'' line linenum (int d) = Inr (ls ! k, linenum + Suc k, 0)"
  using assms
proof (induction ls arbitrary: d k line linenum)
  case (Cons l ls)
  then have ln: "Suc linenum < length (elided cl)" "l = elided cl ! Suc linenum"
      "ls = drop (Suc (Suc linenum)) (elided cl)"
    by (metis drop_all linorder_not_less list.distinct(1), metis nth_via_drop, metis drop_Suc list.sel(3) tl_drop)
  have step: "close_line cl CHR ''('' CHR '')'' line linenum (int d) =
      close_line cl CHR ''('' CHR '')'' l (Suc linenum) (int d + parens l)"
    using ln(1) Cons.prems(2,4) by (subst close_line.simps) (simp add: ln(2) flip: of_nat_Suc)
  show ?case
  proof (cases "scan_paren d l")
    case (Inl d')
    with Cons.prems(1) obtain k' where k: "find_close d' ls = Some (k', q)" "k = Suc k'"
      by auto
    have "int d' = int d + parens l" "0 < d'" using scan_paren_Inl Inl Cons.prems(2) by auto
    moreover have "close_line cl CHR ''('' CHR '')'' l (Suc linenum) (int d') = Inr (ls ! k', Suc linenum + Suc k', 0)"
      using Cons.prems(4,5) k \<open>0 < d'\<close> ln(3) by (intro Cons.IH) auto
    ultimately show ?thesis using step k by simp
  next
    case (Inr r)
    with Cons.prems(1) have "k = 0" "q = r" by auto
    from scan_paren_Inr [OF Inr Cons.prems(2)] obtain u v
      where uv: "l = u @ CHR '')'' # v" "length u = r" "int d + parens u = 1" by blast
    with Cons.prems(5) \<open>k = 0\<close> \<open>q = r\<close> have "parens v = 0" by (auto intro: paren_free_parens)
    with uv step \<open>k = 0\<close> show ?thesis by simp
  qed
qed simp

lemma close_line_never:
  assumes "find_close d ls = None" and "0 < d" and "ls = drop (Suc linenum) (elided cl)"
    and "NumLines cl = length (elided cl)" and "linenum < NumLines cl"
  shows "close_line cl CHR ''('' CHR '')'' line linenum (int d) = Inl IndexError"
  using assms
proof (induction ls arbitrary: d line linenum)
  case Nil
  then have "py_index (elided cl) (int (linenum + 1)) = Inl IndexError"
    by (intro py_index_out) auto
  with Nil show ?case by (subst close_line.simps) simp
next
  case (Cons l ls)
  then have ln: "Suc linenum < length (elided cl)" "l = elided cl ! Suc linenum"
      "ls = drop (Suc (Suc linenum)) (elided cl)"
    by (metis drop_all linorder_not_less list.distinct(1), metis nth_via_drop, metis drop_Suc list.sel(3) tl_drop)
  have step: "close_line cl CHR ''('' CHR '')'' line linenum (int d) =
      close_line cl CHR ''('' CHR '')'' l (Suc linenum) (int d + parens l)"
    using ln(1) Cons.prems(2,4) by (subst close_line.simps) (simp add: ln(2) flip: of_nat_Suc)
  from Cons.prems(1) obtain d' where d': "scan_paren d l = Inl d'" "find_close d' ls = None"
    by (auto split: sum.splits)
  then have "int d' = int d + parens l" "0 < d'" using scan_paren_Inl Cons.prems(2) by auto
  moreover have "close_line cl CHR ''('' CHR '')'' l (Suc linenum) (int d') = Inl IndexError"
    using Cons.prems(4) d' ln \<open>0 < d'\<close> by (intro Cons.IH) auto
  ultimately show ?case using step by simp
qed

lemma chop_last_paren:
  assumes "paren_free v"
  shows "chop (u @ CHR '')'' # v) 1 (int (length (u @ CHR '')'' # v))) = int (length u)"
proof -
  have "CHR '')'' \<notin> set v" using assms by (auto simp: paren_free_def)
  then show ?thesis
    unfolding One_nat_def chop.simps str_rfind_upto_def py_upto_nat by (simp add: rfind_last)
qed

lemma find_open_line:
  assumes "elided cl ! linenum = pre @ CHR ''('' # post" and "paren_free pre"
    and "linenum < length (elided cl)"
  shows "CloseExpression cl linenum (int (length pre)) =
    bindE (close_line cl CHR ''('' CHR '')'' (pre @ CHR ''('' # post) linenum (1 + parens post))
      (\<lambda>(line, linenum, num_open).
         Inr (line, linenum, chop line (nat (num_open + 1)) (int (length line)) + 1))"
proof -
  have "py_index (elided cl) (int linenum) = Inr (pre @ CHR ''('' # post)"
    and "py_index (pre @ CHR ''('' # post) (int (length pre)) = Inr (CHR ''('')"
    using assms by simp_all
  then show ?thesis
    using paren_free_parens [OF assms(2)] unfolding CloseExpression_def by (simp add: Let_def add.commute)
qed

lemma find_close_pos:
  "find_close d ls = Some (k, q) \<Longrightarrow> 0 < d \<Longrightarrow>
     k < length ls \<and> (\<exists>u v. ls ! k = u @ CHR '')'' # v \<and> length u = q)"
proof (induction ls arbitrary: d k)
  case (Cons l ls)
  show ?case
  proof (cases "scan_paren d l")
    case (Inl d')
    with Cons.prems(1) obtain k' where "find_close d' ls = Some (k', q)" "k = Suc k'" by auto
    with Cons.IH scan_paren_Inl [OF Inl Cons.prems(2)] show ?thesis by auto
  next
    case (Inr r)
    with Cons.prems show ?thesis using scan_paren_Inr [OF Inr Cons.prems(2)] by auto
  qed
qed simp

section \<open>The line checks never raise on a line of the text\<close>

context error_handler begin

lemma keeps_CheckForUnicodeReplacementCharacters [keeps_intros]:
  "keeps Inv (CheckForUnicodeReplacementCharacters fn ls error)"
  unfolding CheckForUnicodeReplacementCharacters_def by (intro keeps_intros)

lemma keeps_CheckForMultilineCommentsAndStrings [keeps_intros]:
  "n < length (elided cl) \<Longrightarrow> keeps Inv (CheckForMultilineCommentsAndStrings fn cl n error)"
  by (rule keeps_ext [OF CheckForMultilineCommentsAndStrings_def])
    (intro keeps_intros)

lemma keeps_CheckPosixThreading [keeps_intros]:
  "n < length (elided cl) \<Longrightarrow> keeps Inv (CheckPosixThreading fn cl n error)"
  by (rule keeps_ext [OF CheckPosixThreading_def]) (intro keeps_intros)

lemma keeps_CheckInvalidIncrement [keeps_intros]:
  "n < length (elided cl) \<Longrightarrow> keeps Inv (CheckInvalidIncrement fn cl n error)"
  by (rule keeps_ext [OF CheckInvalidIncrement_def]) (intro keeps_intros)

end

section \<open>Properties\<close>

text \<open>
  C17: the three copies of the text have the same number of lines, and cleansing only ever deletes
  characters: every line of \<open>elided\<close> and of \<open>lines\<close> is a subsequence of the raw line.
\<close>

theorem cleansing_deletes:
  "length (elided (CleansedLines ls)) = NumLines (CleansedLines ls) \<and>
   list_all2 subseq (elided (CleansedLines ls)) (raw_lines (CleansedLines ls)) \<and>
   list_all2 subseq (lines_of (CleansedLines ls)) (raw_lines (CleansedLines ls))"
proof -
  have "subseq (CleanseComments (CollapseStrings l)) l" for l
    using subseq_CleanseComments subseq_CollapseStrings by (rule subseq_order.trans)
  then show ?thesis
    using subseq_CleanseComments by (auto simp: CleansedLines_def NumLines_def list_all2_conv_all_nth)
qed





text \<open>
  When the parenthesis is never closed, the documented result \<open>(line, len(lines), -1)\<close>
  is not what comes back: the search runs off the end of the text and \<open>IndexError\<close> is raised.
\<close>

theorem CloseExpression_never_closes:
  assumes "linenum < NumLines cl" and "NumLines cl = length (elided cl)"
    and "elided cl ! linenum = pre @ CHR ''('' # post" and "paren_free pre"
    and "find_close 1 (post # drop (linenum + 1) (elided cl)) = None"
  shows "CloseExpression cl linenum (int (length pre)) = Inl IndexError"
proof -
  from assms(5) obtain d where d: "scan_paren 1 post = Inl d"
      and never: "find_close d (drop (Suc linenum) (elided cl)) = None"
    by (auto split: sum.splits)
  have "int d = 1 + parens post" "0 < d" using scan_paren_Inl [OF d] by auto
  with close_line_never [OF never] assms(1,2) find_open_line [OF assms(3,4)] show ?thesis by simp
qed

theorem CloseExpression_never_closes_witness:
  "CloseExpression (CleansedLines [''if (f(a,'', ''       b) {'']) 0 3 = Inl IndexError"
proof -
  let ?cl = "CleansedLines [''if (f(a,'', ''       b) {'']"
  have e: "elided ?cl = [''if (f(a,'', ''       b) {'']" and n: "NumLines ?cl = 2" by code_simp+
  have "CloseExpression ?cl 0 (int (length ''if '')) = Inl IndexError"
  proof (rule CloseExpression_never_closes [where post = "''f(a,''"])
    show "find_close 1 (''f(a,'' # drop (0 + 1) (elided ?cl)) = None" "paren_free ''if ''"
      unfolding e by code_simp+
  qed (simp_all add: e n)
  then show ?thesis by simp
qed

text \<open>
  For a bracket or a brace the position is looked up with the wrong character: on a line that
  closes its brackets and holds no parenthesis, the position returned is 0, not the one behind the
  closing bracket.
\<close>

theorem CloseExpression_looks_for_parens:
  assumes "linenum < NumLines cl" and "NumLines cl = length (elided cl)"
    and "elided cl ! linenum = pre @ a # post"
    and "(a, b) \<in> {(CHR ''['', CHR '']''), (CHR ''{'', CHR ''}'')}"
    and "balance a b (elided cl ! linenum) = 0" and "CHR '')'' \<notin> set (elided cl ! linenum)"
  shows "CloseExpression cl linenum (int (length pre)) = Inr (elided cl ! linenum, linenum, 0)"
proof -
  let ?line = "elided cl ! linenum"
  have "py_index (elided cl) (int linenum) = Inr ?line" using assms(1,2) by simp
  moreover have "py_index ?line (int (length pre)) = Inr a" using assms(3) by simp
  moreover have "a \<in> set ''({[''" "a \<noteq> CHR ''(''" "(if a = CHR ''['' then CHR '']'' else CHR ''}'') = b"
    using assms(4) by auto
  moreover have "chop ?line 1 (int (length ?line)) = - 1"
    unfolding One_nat_def chop.simps str_rfind_upto_def py_upto_nat using assms(6) by (simp add: str_rfind_absent)
  ultimately show ?thesis
    unfolding CloseExpression_def using assms(5) by (simp add: Let_def)
qed

theorem CloseExpression_looks_for_parens_witness:
  "CloseExpression (CleansedLines [''int a[3] = {1, 2, 3};'']) 0 5 =
     Inr (''int a[3] = {1, 2, 3};'', 0, 0)"
proof -
  let ?cl = "CleansedLines [''int a[3] = {1, 2, 3};'']"
  have e: "elided ?cl = [''int a[3] = {1, 2, 3};'']" and n: "NumLines ?cl = 1" by code_simp+
  have "CloseExpression ?cl 0 (int (length ''int a'')) = Inr (elided ?cl ! 0, 0, 0)"
  proof (rule CloseExpression_looks_for_parens [where a = "CHR ''[''" and b = "CHR '']''" and post = "''3] = {1, 2, 3};''"])
    show "balance CHR ''['' CHR '']'' (elided ?cl ! 0) = 0" unfolding e by code_simp
  qed (simp_all add: e n)
  then show ?thesis by (simp add: e)
qed

end
