(* ===== verification/Lint_File.thy ===== *)
theory Lint_File
  imports Lint_State Py_Path
begin

text \<open>
  File names and header guards: \<open>FileInfo\<close> (with the two searches for the root of a
  checkout), \<open>GetHeaderGuardCPPVariable\<close>, \<open>CheckForHeaderGuard\<close>,
  \<open>CheckForCopyright\<close> and \<open>CheckForNewlineAtEOF\<close>.
\<close>

section \<open>FileInfo\<close>

definition FullName :: "environment \<Rightarrow> string \<Rightarrow> string" where
  "FullName env filename = str_replace (abspath env filename) (lit ''`'') ''/''"

text \<open>
  The walk to the top of a subversion checkout has no stop at the root directory: there it goes on
  for ever when the root itself is a checkout, so the result is optional.
\<close>

partial_function (option) svn_root :: "environment \<Rightarrow> string \<Rightarrow> string \<Rightarrow> string option" where
  "svn_root env root_dir one_up_dir =
     (if path_exists env (path_join one_up_dir ''.svn'')
      then svn_root env (dirname root_dir) (dirname one_up_dir)
      else Some root_dir)"

definition in_git_or_hg :: "environment \<Rightarrow> string \<Rightarrow> bool" where
  "in_git_or_hg env dir \<longleftrightarrow>
     path_exists env (path_join dir ''.git'') \<or> path_exists env (path_join dir ''.hg'')"

function git_root :: "environment \<Rightarrow> string \<Rightarrow> string" where
  "git_root env root_dir =
     (if root_dir \<noteq> dirname root_dir \<and> \<not> in_git_or_hg env root_dir
      then git_root env (dirname root_dir) else root_dir)"
  by pat_completeness auto
termination
  by (relation "measure (\<lambda>(env, d). length d)") (use dirname_shrinks in force)+

declare git_root.simps [simp del]

definition RepositoryName :: "environment \<Rightarrow> string \<Rightarrow> string result" where
  "RepositoryName env filename =
     (let fullname = FullName env filename in
      if path_exists env fullname then
        (let project_dir = dirname fullname in
         if path_exists env (path_join project_dir ''.svn'') then
           (case svn_root env project_dir (dirname project_dir) of
              None \<Rightarrow> Inl Diverge
            | Some root_dir \<Rightarrow>
                Inr (drop (length (common_prefix root_dir project_dir) + 1) fullname))
         else
           (let root_dir = git_root env (dirname fullname) in
            if in_git_or_hg env root_dir
            then Inr (drop (length (common_prefix root_dir project_dir) + 1) fullname)
            else Inr fullname))
      else Inr fullname)"

definition Split :: "environment \<Rightarrow> string \<Rightarrow> (string \<times> string \<times> string) result" where
  "Split env filename = bindE (RepositoryName env filename) (\<lambda>googlename.
     let (project, tail) = path_split googlename; (base, ext) = splitext tail
     in Inr (project, base, ext))"

definition BaseName :: "environment \<Rightarrow> string \<Rightarrow> string result" where
  "BaseName env filename = bindE (Split env filename) (\<lambda>(project, base, ext). Inr base)"

definition Extension :: "environment \<Rightarrow> string \<Rightarrow> string result" where
  "Extension env filename = bindE (Split env filename) (\<lambda>(project, base, ext). Inr ext)"

definition NoExtension :: "environment \<Rightarrow> string \<Rightarrow> string result" where
  "NoExtension env filename =
     bindE (Split env filename) (\<lambda>(project, base, ext). Inr (str_join ''/'' [project, base]))"

definition IsSource :: "environment \<Rightarrow> string \<Rightarrow> bool result" where
  "IsSource env filename = bindE (Extension env filename) (\<lambda>ext.
     Inr (drop 1 ext \<in> {''c'', ''cc'', ''cpp'', ''cxx''}))"

section \<open>Header guards\<close>

definition GetHeaderGuardCPPVariable :: "environment \<Rightarrow> string \<Rightarrow> string result" where
  "GetHeaderGuardCPPVariable env filename =
     (let filename = re_sub (rx ''_flymake`.h$'') ''.h'' filename in
      bindE (RepositoryName env filename) (\<lambda>name.
        Inr (upper (re_sub (rx ''[-./`s]'') ''_'' name) @ ''_'')))"

record guard_scan =
  ifndef :: "string option"
  ifndef_linenum :: nat
  define_arg :: "string option"
  endif :: "string option"
  endif_linenum :: nat

definition init_guard_scan :: guard_scan where
  "init_guard_scan = \<lparr> ifndef = None, ifndef_linenum = 0, define_arg = None,
     endif = None, endif_linenum = 0 \<rparr>"

definition guard_step :: "nat \<Rightarrow> string \<Rightarrow> guard_scan \<Rightarrow> guard_scan" where
  "guard_step linenum line s =
     (let ws = str_words line;
          s = (if 2 \<le> length ws \<and> (ifndef s = None \<or> ifndef s = Some []) \<and> ws ! 0 = ''#ifndef''
               then s\<lparr>ifndef := Some (ws ! 1), ifndef_linenum := linenum\<rparr> else s);
          s = (if 2 \<le> length ws \<and> (define_arg s = None \<or> define_arg s = Some []) \<and> ws ! 0 = ''#define''
               then s\<lparr>define_arg := Some (ws ! 1)\<rparr> else s)
      in if startswith line ''#endif'' then s\<lparr>endif := Some line, endif_linenum := linenum\<rparr> else s)"

fun guard_scan_from :: "nat \<Rightarrow> string list \<Rightarrow> guard_scan \<Rightarrow> guard_scan" where
  "guard_scan_from n [] s = s"
| "guard_scan_from n (l # ls) s = guard_scan_from (Suc n) ls (guard_step n l s)"

definition missing :: "string option \<Rightarrow> bool" where
  "missing x \<longleftrightarrow> x = None \<or> x = Some []"

definition CheckForHeaderGuard :: "environment \<Rightarrow> string \<Rightarrow> string list \<Rightarrow> handler \<Rightarrow> check" where
  "CheckForHeaderGuard env filename lines error g =
     bindE (GetHeaderGuardCPPVariable env filename) (\<lambda>cppvar.
       let s = guard_scan_from 0 lines init_guard_scan in
       if missing (ifndef s) \<or> missing (define_arg s) \<or> ifndef s \<noteq> define_arg s then
         error filename 0 ''build/header_guard'' 5
           (''No #ifndef header guard found, suggested CPP variable is: '' @ cppvar) g
       else
         (let v = the (ifndef s) in seqE [
            only_if (\<not> endswith v cppvar) (seqE [
              ParseNolintSuppressions filename (lines ! ifndef_linenum s) (int (ifndef_linenum s)) error,
              error filename (int (ifndef_linenum s)) ''build/header_guard'' 5
                (''#ifndef header guard has wrong style, please use: '' @ cppvar)]),
            only_if (endif s \<noteq> Some (''#endif  // '' @ v)) (seqE [
              ParseNolintSuppressions filename (lines ! endif_linenum s) (int (endif_linenum s)) error,
              error filename (int (endif_linenum s)) ''build/header_guard'' 5
                (''#endif line should be \"#endif  // '' @ cppvar @ ''\"'')])] g))"

text \<open>The body of \<open>CheckForCopyright\<close> starts with a \<open>return\<close>; what follows is never run.\<close>

definition CheckForCopyright :: "string \<Rightarrow> string list \<Rightarrow> handler \<Rightarrow> check" where
  "CheckForCopyright filename lines error g = Inr g"

definition CheckForNewlineAtEOF :: "string \<Rightarrow> string list \<Rightarrow> handler \<Rightarrow> check" where
  "CheckForNewlineAtEOF filename lines error =
     only_if (length lines < 3 \<or> py_index lines (- 2) \<noteq> Inr [])
       (error filename (int (length lines) - 2) ''whitespace/ending_newline'' 5
          ''Could not find a newline character at the end of the file.'')"

section \<open>The walks up the directory tree\<close>

lemma svn_root_top:
  assumes "path_exists env ''/.svn''" and "svn_root env root_dir ''/'' = Some r"
  shows False
proof -
  have "u = ''/'' \<and> e = env \<longrightarrow> False" if "svn_root e d u = Some x" for e d u x
  proof (rule svn_root.raw_induct [where P = "\<lambda>e d u x. u = ''/'' \<and> e = env \<longrightarrow> False", OF _ that])
    fix f e d u x
    assume IH: "\<And>e d u x. f e d u = Some x \<Longrightarrow> u = ''/'' \<and> e = env \<longrightarrow> False"
      and eq: "(if path_exists e (path_join u ''.svn'') then f e (dirname d) (dirname u) else Some d) = Some x"
    show "u = ''/'' \<and> e = env \<longrightarrow> False"
    proof
      assume ue: "u = ''/'' \<and> e = env"
      have "path_join ''/'' ''.svn'' = ''/.svn''" and "dirname ''/'' = ''/''" by code_simp+
      with ue eq assms(1) have "f env (dirname d) ''/'' = Some x" by simp
      then show False using IH by blast
    qed
  qed
  with assms(2) show False by blast
qed

lemma svn_root_returns_aux:
  assumes top: "\<And>d. dirname d = d \<Longrightarrow> \<not> path_exists env (path_join d ''.svn'')"
  shows "\<exists>r. svn_root env root_dir one_up_dir = Some r"
proof (induction "length one_up_dir" arbitrary: one_up_dir root_dir rule: less_induct)
  case less
  show ?case
  proof (cases "path_exists env (path_join one_up_dir ''.svn'')")
    case True
    with top have "dirname one_up_dir \<noteq> one_up_dir" by blast
    with dirname_shrinks have "length (dirname one_up_dir) < length one_up_dir" by blast
    from less [OF this] True show ?thesis by (subst svn_root.simps) simp
  next
    case False
    then show ?thesis by (subst svn_root.simps) simp
  qed
qed

text \<open>The directory \<open>git_root\<close> stops at.\<close>

lemma git_root_stops:
  "in_git_or_hg env (git_root env d) \<or> dirname (git_root env d) = git_root env d"
proof (induction env d rule: git_root.induct)
  case (1 env d)
  show ?case
  proof (cases "d \<noteq> dirname d \<and> \<not> in_git_or_hg env d")
    case True
    with 1 show ?thesis by (simp add: git_root.simps [of env d])
  next
    case False
    then show ?thesis by (auto simp: git_root.simps [of env d])
  qed
qed

section \<open>What the guard scan finds\<close>

definition directive :: "string \<Rightarrow> string \<Rightarrow> bool" where
  "directive d line \<longleftrightarrow> 2 \<le> length (str_words line) \<and> str_words line ! 0 = d"

definition first_argument :: "string \<Rightarrow> string list \<Rightarrow> string option" where
  "first_argument d lines = map_option (\<lambda>l. str_words l ! 1) (List.find (directive d) lines)"

definition last_endif :: "string list \<Rightarrow> string option" where
  "last_endif lines = List.find (\<lambda>l. startswith l ''#endif'') (rev lines)"

lemma word_nonempty: "i < length (str_words l) \<Longrightarrow> str_words l ! i \<noteq> []"
  using str_words_set [of "str_words l ! i" l] by simp

lemma guard_step_fields:
  assumes "ifndef s \<noteq> Some []" and "define_arg s \<noteq> Some []"
  shows "ifndef (guard_step n l s) =
      (if ifndef s = None \<and> directive ''#ifndef'' l then Some (str_words l ! 1) else ifndef s)"
    and "define_arg (guard_step n l s) =
      (if define_arg s = None \<and> directive ''#define'' l then Some (str_words l ! 1) else define_arg s)"
    and "endif (guard_step n l s) = (if startswith l ''#endif'' then Some l else endif s)"
    and "ifndef (guard_step n l s) \<noteq> Some []" and "define_arg (guard_step n l s) \<noteq> Some []"
  using assms word_nonempty [of 1 l] by (auto simp: guard_step_def directive_def Let_def)

lemma find_append:
  "List.find P (xs @ ys) = (case List.find P xs of None \<Rightarrow> List.find P ys | Some x \<Rightarrow> Some x)"
  by (induction xs) auto

lemma guard_scan_from_fields:
  assumes "ifndef s \<noteq> Some []" and "define_arg s \<noteq> Some []"
  shows "ifndef (guard_scan_from n lines s) =
      (case ifndef s of None \<Rightarrow> first_argument ''#ifndef'' lines | Some v \<Rightarrow> Some v) \<and>
    define_arg (guard_scan_from n lines s) =
      (case define_arg s of None \<Rightarrow> first_argument ''#define'' lines | Some v \<Rightarrow> Some v) \<and>
    endif (guard_scan_from n lines s) =
      (case last_endif lines of None \<Rightarrow> endif s | Some l \<Rightarrow> Some l) \<and>
    ifndef (guard_scan_from n lines s) \<noteq> Some [] \<and> define_arg (guard_scan_from n lines s) \<noteq> Some []"
  using assms
proof (induction lines arbitrary: n s)
  case Nil
  then show ?case
    by (auto simp: first_argument_def last_endif_def split: option.splits)
next
  case (Cons l ls)
  note f = guard_step_fields [OF Cons.prems, of n l]
  show ?case
    using Cons.IH [OF f(4,5), of "Suc n"] f(1-3)
    by (auto simp: first_argument_def last_endif_def find_append split: option.splits)
qed

lemma guard_scan_spec:
  "ifndef (guard_scan_from 0 lines init_guard_scan) = first_argument ''#ifndef'' lines"
  "define_arg (guard_scan_from 0 lines init_guard_scan) = first_argument ''#define'' lines"
  "endif (guard_scan_from 0 lines init_guard_scan) = last_endif lines"
  "first_argument ''#ifndef'' lines \<noteq> Some []" "first_argument ''#define'' lines \<noteq> Some []"
  using guard_scan_from_fields [of init_guard_scan 0 lines]
  by (auto simp: init_guard_scan_def split: option.splits)

text \<open>A header that is guarded as the check wants it.\<close>

definition well_guarded :: "string \<Rightarrow> string list \<Rightarrow> bool" where
  "well_guarded cppvar lines \<longleftrightarrow>
     (\<exists>v. first_argument ''#ifndef'' lines = Some v \<and> first_argument ''#define'' lines = Some v \<and>
        endswith v cppvar \<and> last_endif lines = Some (''#endif  // '' @ v))"

lemma ParseNolint_then_raise:
  "bindE (ParseNolintSuppressions fn line ln (\<lambda>_ _ _ _ _ _. Inl e) g) (\<lambda>g. Inl e) = Inl e"
  by (auto simp: ParseNolintSuppressions_def Let_def split: option.splits)

lemma CheckForHeaderGuard_raises:
  assumes "GetHeaderGuardCPPVariable env fn = Inr cppvar" and "\<not> well_guarded cppvar lines"
  shows "CheckForHeaderGuard env fn lines (\<lambda>_ _ _ _ _ _. Inl e) g = Inl e"
proof -
  let ?raise = "\<lambda>_ _ _ _ _ _. Inl e"
  let ?s = "guard_scan_from 0 lines init_guard_scan"
  have two: "seqE [ParseNolintSuppressions fn line ln ?raise, (\<lambda>_. Inl e)] g = Inl e" for line ln g
    using ParseNolint_then_raise [of fn line ln e g] by (simp add: bindE_def split: sum.splits)
  show ?thesis
  proof (cases "missing (ifndef ?s) \<or> missing (define_arg ?s) \<or> ifndef ?s \<noteq> define_arg ?s")
    case True
    then show ?thesis by (simp add: CheckForHeaderGuard_def assms(1))
  next
    case False
    then obtain v where v: "ifndef ?s = Some v" "define_arg ?s = Some v"
      by (auto simp: missing_def)
    with assms(2) consider "\<not> endswith v cppvar"
      | "endswith v cppvar" "endif ?s \<noteq> Some (''#endif  // '' @ v)"
      by (auto simp: well_guarded_def guard_scan_spec)
    then show ?thesis
    proof cases
      case 1
      then show ?thesis using False
        by (simp add: CheckForHeaderGuard_def assms(1) Let_def v two seqE_raise del: seqE.simps(2))
    next
      case 2
      then show ?thesis using False
        by (simp add: CheckForHeaderGuard_def assms(1) Let_def v two seqE_raise
            seqE_step [of Inr g g] del: seqE.simps(2))
    qed
  qed
qed

lemma shift_constant: "xs @ [c] = a # xs \<Longrightarrow> set xs \<subseteq> {c}"
proof (induction xs arbitrary: a)
  case (Cons x xs)
  then have "xs @ [c] = x # xs" and "set xs \<subseteq> {c}" by auto
  then show ?case by (cases xs) auto
qed simp

section \<open>Properties\<close>

text \<open>
  C16: the header guard check is silent, whatever the error handler does, exactly for the headers
  whose first \<open>#ifndef\<close> and first \<open>#define\<close> name the same guard, which ends in the
  variable computed from the path, and whose last \<open>#endif\<close> line carries that guard as its
  comment.
\<close>

theorem header_guard_silent_iff:
  assumes "GetHeaderGuardCPPVariable env fn = Inr cppvar"
  shows "(\<forall>error. CheckForHeaderGuard env fn lines error g = Inr g) \<longleftrightarrow> well_guarded cppvar lines"
proof
  assume "\<forall>error. CheckForHeaderGuard env fn lines error g = Inr g"
  then have "CheckForHeaderGuard env fn lines (\<lambda>_ _ _ _ _ _. Inl AssertionError) g \<noteq> Inl AssertionError"
    by simp
  then show "well_guarded cppvar lines" using CheckForHeaderGuard_raises [OF assms] by blast
next
  assume "well_guarded cppvar lines"
  with assms show "\<forall>error. CheckForHeaderGuard env fn lines error g = Inr g"
    using guard_scan_spec(4,5) [of lines]
    by (auto simp: CheckForHeaderGuard_def well_guarded_def guard_scan_spec missing_def Let_def)
qed

definition example_env :: environment where
  "example_env = \<lparr> cwd = ''/w'', path_exists = (\<lambda>p. p = ''/w/src/a.h'' \<or> p = ''/w/.git''),
     read_file = (\<lambda>_. None), stdin_text = [],
     linesep = [newline] \<rparr>"

lemma example_git_root: "git_root example_env ''/w/src'' = ''/w''"
proof -
  have "dirname ''/w/src'' = ''/w''" "\<not> in_git_or_hg example_env ''/w/src''" "in_git_or_hg example_env ''/w''"
    by code_simp+
  then show ?thesis by (simp add: git_root.simps [of _ "''/w/src''"] git_root.simps [of _ "''/w''"])
qed

lemma example_guard: "GetHeaderGuardCPPVariable example_env ''src/a.h'' = Inr ''SRC_A_H_''"
proof -
  have "re_sub (rx ''_flymake`.h$'') ''.h'' ''src/a.h'' = ''src/a.h''" by code_simp
  moreover have "FullName example_env ''src/a.h'' = ''/w/src/a.h''" by code_simp
  moreover have "dirname ''/w/src/a.h'' = ''/w/src''" by code_simp
  moreover have "path_exists example_env ''/w/src/a.h''"
    "\<not> path_exists example_env (path_join ''/w/src'' ''.svn'')" "in_git_or_hg example_env ''/w''"
    by code_simp+
  moreover have "drop (length (common_prefix ''/w'' ''/w/src'') + 1) ''/w/src/a.h'' = ''src/a.h''"
    by code_simp
  ultimately have "RepositoryName example_env ''src/a.h'' = Inr ''src/a.h''"
    unfolding RepositoryName_def Let_def by (simp add: example_git_root)
  moreover have "upper (re_sub (rx ''[-./`s]'') ''_'' ''src/a.h'') @ ''_'' = ''SRC_A_H_''" by code_simp
  ultimately show ?thesis
    using \<open>re_sub (rx ''_flymake`.h$'') ''.h'' ''src/a.h'' = ''src/a.h''\<close>
    by (simp add: GetHeaderGuardCPPVariable_def)
qed

theorem header_guard_silent_iff_witness:
  "CheckForHeaderGuard example_env ''src/a.h''
     [''#ifndef SRC_A_H_'', ''#define SRC_A_H_'', ''int f();'', ''#endif  // SRC_A_H_''] Error init_lint
   = Inr init_lint"
proof -
  have "first_argument ''#ifndef''
      [''#ifndef SRC_A_H_'', ''#define SRC_A_H_'', ''int f();'', ''#endif  // SRC_A_H_''] = Some ''SRC_A_H_''"
    "first_argument ''#define''
      [''#ifndef SRC_A_H_'', ''#define SRC_A_H_'', ''int f();'', ''#endif  // SRC_A_H_''] = Some ''SRC_A_H_''"
    "last_endif [''#ifndef SRC_A_H_'', ''#define SRC_A_H_'', ''int f();'', ''#endif  // SRC_A_H_''] =
      Some ''#endif  // SRC_A_H_''"
    by code_simp+
  then have "well_guarded ''SRC_A_H_''
      [''#ifndef SRC_A_H_'', ''#define SRC_A_H_'', ''int f();'', ''#endif  // SRC_A_H_'']"
    by (simp add: well_guarded_def)
  with header_guard_silent_iff [OF example_guard] show ?thesis by blast
qed

text \<open>
  The comment in the check allows \<open>PATH_FILE_H__\<close> for backward compatibility; the code
  reports it: a header guarded by the computed variable with one more underscore reaches the
  error handler, unless the variable is nothing but underscores.
\<close>

theorem double_underscore_guard_reported:
  assumes "GetHeaderGuardCPPVariable env fn = Inr cppvar" and "\<exists>c\<in>set cppvar. c \<noteq> CHR ''_''"
    and "first_argument ''#ifndef'' lines = Some (cppvar @ ''_'')"
  shows "CheckForHeaderGuard env fn lines (\<lambda>_ _ _ _ _ _. Inl AssertionError) g = Inl AssertionError"
proof (rule CheckForHeaderGuard_raises [OF assms(1)])
  have "\<not> endswith (cppvar @ ''_'') cppvar"
  proof
    assume "endswith (cppvar @ ''_'') cppvar"
    then obtain t where t: "cppvar @ ''_'' = t @ cppvar" by (auto simp: endswith_iff)
    then have "length t = 1" by (metis add_right_cancel add.commute length_append length_Cons list.size(3) One_nat_def)
    then obtain a where "t = [a]" by (auto simp: length_Suc_conv)
    with t have "cppvar @ ''_'' = a # cppvar" by simp
    then have "set cppvar \<subseteq> {CHR ''_''}" by (rule shift_constant)
    with assms(2) show False by auto
  qed
  with assms(3) show "\<not> well_guarded cppvar lines" by (auto simp: well_guarded_def)
qed

theorem double_underscore_guard_reported_witness:
  "CheckForHeaderGuard example_env ''src/a.h''
     [''#ifndef SRC_A_H__'', ''#define SRC_A_H__'', ''#endif  // SRC_A_H__''] (\<lambda>_ _ _ _ _ _. Inl AssertionError)
     init_lint = Inl AssertionError"
proof (rule double_underscore_guard_reported [OF example_guard])
  show "first_argument ''#ifndef'' [''#ifndef SRC_A_H__'', ''#define SRC_A_H__'', ''#endif  // SRC_A_H__''] =
      Some (''SRC_A_H_'' @ ''_'')" by code_simp
qed simp

text \<open>
  The search for the top of a subversion checkout returns when no directory that is its own
  parent is a checkout.
\<close>

theorem svn_root_returns:
  assumes "\<And>d. dirname d = d \<Longrightarrow> \<not> path_exists env (path_join d ''.svn'')"
  shows "\<exists>r. svn_root env root_dir one_up_dir = Some r"
  using assms by (rule svn_root_returns_aux)

theorem svn_root_returns_witness: "\<exists>r. svn_root example_env ''/w/src'' ''/w'' = Some r"
proof (rule svn_root_returns)
  fix d assume "dirname d = d"
  show "\<not> path_exists example_env (path_join d ''.svn'')"
    by (auto simp: example_env_def path_join_def append_eq_Cons_conv split: if_splits)
qed

text \<open>
  It does not return when the root directory is itself a checkout: the name of a file directly
  below the root is then never computed.
\<close>

theorem RepositoryName_diverges:
  assumes "FullName env filename = CHR ''/'' # base" and "CHR ''/'' \<notin> set base"
    and "path_exists env (CHR ''/'' # base)" and "path_exists env ''/.svn''"
  shows "RepositoryName env filename = Inl Diverge"
proof -
  have dir: "dirname (CHR ''/'' # base) = ''/''"
    using path_split_slash [OF assms(2), of "[]"] by (simp add: dirname_def)
  have top: "dirname ''/'' = ''/''" "path_join ''/'' ''.svn'' = ''/.svn''" by code_simp+
  have "svn_root env ''/'' ''/'' = None"
    using svn_root_top [OF assms(4)] by (cases "svn_root env ''/'' ''/''") auto
  then show ?thesis
    unfolding RepositoryName_def Let_def assms(1) dir top using assms(3,4) by simp
qed

theorem RepositoryName_diverges_witness:
  "RepositoryName \<lparr> cwd = ''/'', path_exists = (\<lambda>p. p = ''/a.h'' \<or> p = ''/.svn''), read_file = (\<lambda>_. None), stdin_text = [],
     linesep = [newline] \<rparr>
     ''/a.h'' = Inl Diverge"
proof (rule RepositoryName_diverges)
  show "FullName \<lparr> cwd = ''/'', path_exists = (\<lambda>p. p = ''/a.h'' \<or> p = ''/.svn''), read_file = (\<lambda>_. None), stdin_text = [],
     linesep = [newline] \<rparr>
     ''/a.h'' = CHR ''/'' # ''a.h''" by code_simp
qed simp_all

text \<open>
  On the lines \<open>ProcessFileData\<close> works with (the text split at its newlines, between the
  two markers), \<open>CheckForNewlineAtEOF\<close> reports exactly the texts that are not empty and do
  not end in a newline.
\<close>

theorem newline_at_eof:
  "CheckForNewlineAtEOF fn (m1 # str_split text [newline] @ [m2]) error g =
     (if text = [] \<or> last text = newline then Inr g
      else error fn (int (length (str_split text [newline]))) ''whitespace/ending_newline'' 5
        ''Could not find a newline character at the end of the file.'' g)"
proof -
  let ?ls = "str_split text [newline]"
  have n: "?ls \<noteq> []" by simp
  then have "py_index (m1 # ?ls @ [m2]) (- 2) = Inr (last ?ls)"
    using py_index_neg [of 2 "m1 # ?ls @ [m2]"] by (cases ?ls rule: rev_cases) (simp_all add: nth_append)
  moreover have "last ?ls = [] \<longleftrightarrow> text = [] \<or> last text = newline"
    by (cases "text" rule: rev_cases) (auto simp: str_split_def str_last_split_aux_char)
  moreover have "\<not> length (m1 # ?ls @ [m2]) < 3"
    using n by (cases ?ls) auto
  ultimately show ?thesis by (simp add: CheckForNewlineAtEOF_def only_if_def)
qed

end
