(* ===== verification/Lint_Style.thy ===== *)
theory Lint_Style
  imports Lint_Lines Lint_File
begin

text \<open>
  The style checks of a line: comments, spacing, braces, the use of the \<open>CHECK\<close> macros, and
  \<open>CheckStyle\<close>, which calls them. The lemmas characterise the loop in \<open>CheckBraces\<close>
  that joins lines, including the texts on which it never ends, the table of replacement macros,
  and what the checks rely on not to raise.
\<close>

section \<open>Searching with a pattern literal\<close>

definition found :: "string \<Rightarrow> string \<Rightarrow> bool" where
  "found p s \<longleftrightarrow> re_search (rx p) s \<noteq> None"

definition matched :: "string \<Rightarrow> string \<Rightarrow> bool" where
  "matched p s \<longleftrightarrow> re_match (rx p) s \<noteq> None"

text \<open>The text of a group, and the empty string for one that took no part.\<close>

definition group_text :: "match_obj \<Rightarrow> nat \<Rightarrow> string" where
  "group_text m n = (case m_group m n of None \<Rightarrow> [] | Some t \<Rightarrow> t)"

section \<open>Comments\<close>

definition RE_PATTERN_TODO :: regex where
  "RE_PATTERN_TODO = rx ''^//(`s*)TODO(`(.+?`))?:?(`s|$)?''"

definition CheckComment :: "string \<Rightarrow> string \<Rightarrow> nat \<Rightarrow> handler \<Rightarrow> check" where
  "CheckComment comment filename linenum error =
     (case re_match RE_PATTERN_TODO comment of
        None \<Rightarrow> Inr
      | Some m \<Rightarrow> seqE [
          only_if (1 < length (group_text m 1)) (error filename (int linenum) ''whitespace/todo'' 2
            ''Too many spaces before TODO''),
          only_if (m_group m 2 = None \<or> m_group m 2 = Some []) (error filename (int linenum) ''readability/todo'' 2
            (''Missing username in TODO; it should look like '' @ ''\"// TODO(my_username): Stuff.\"'')),
          only_if (m_group m 3 \<noteq> Some '' '' \<and> m_group m 3 \<noteq> Some []) (error filename (int linenum) ''whitespace/todo'' 2
            ''TODO(my_username) should be followed by a space'')])"

section \<open>Spacing of function calls\<close>

fun inside_control :: "string list \<Rightarrow> string \<Rightarrow> string" where
  "inside_control [] line = line"
| "inside_control (p # ps) line =
     (case re_search (rx p) line of Some m \<Rightarrow> group_text m 1 | None \<Rightarrow> inside_control ps line)"

definition CheckSpacingForFunctionCall :: "string \<Rightarrow> string \<Rightarrow> nat \<Rightarrow> handler \<Rightarrow> check" where
  "CheckSpacingForFunctionCall filename line linenum error =
     (let fncall = inside_control [''`bif`s*`((.*)`)`s*{'', ''`bfor`s*`((.*)`)`s*{'',
            ''`bwhile`s*`((.*)`)`s*[{;]'', ''`bswitch`s*`((.*)`)`s*{''] line;
          report = (\<lambda>b conf msg. only_if b (error filename (int linenum) ''whitespace/parens'' conf msg))
      in if \<not> found ''`b(if|for|while|switch|return|delete|catch)`b'' fncall \<and>
            \<not> found '' `([^)]+`)`([^)]*(`)|,$)'' fncall \<and>
            \<not> found '' `([^)]+`)`[[^`]]+`]'' fncall
         then seqE [
           (if found ''`w`s*`(`s(?!`s*``$)'' fncall
            then report True 4 ''Extra space after ( in function call''
            else report (found ''`(`s+(?!(`s*``)|`()'' fncall) 2 ''Extra space after (''),
           report (found ''`w`s+`('' fncall \<and> \<not> found ''#`s*define|typedef'' fncall) 4
             ''Extra space before ( in function call'',
           report (found ''[^)]`s+`)`s*[^{`s]'' fncall) 2 ''Extra space before )'']
         else Inr)"

section \<open>Spacing\<close>

text \<open>The walk upwards over the lines of an initializer list.\<close>

fun above_initializers :: "string list \<Rightarrow> nat \<Rightarrow> int" where
  "above_initializers ls 0 = - 1"
| "above_initializers ls (Suc n) =
     (if matched '' {6}`w'' (ls ! n) then above_initializers ls n else int n)"

definition blank_line_excused :: "string list \<Rightarrow> nat \<Rightarrow> string \<Rightarrow> bool" where
  "blank_line_excused elided_lines linenum prev_line =
     (if matched '' {6}`w'' prev_line then
        (let search_position = above_initializers elided_lines (linenum - 1) in
         search_position \<ge> 0 \<and> take 5 (elided_lines ! nat search_position) = ''    :'')
      else matched '' {4}`w[^`(]*`)`s*(const`s*)?(`{`s*$|:)'' prev_line \<or> matched '' {4}:'' prev_line)"

definition starts_block :: "string \<Rightarrow> bool" where
  "starts_block prev_line =
     (let prevbrace = str_rfind prev_line ''{'' in
      prevbrace \<noteq> - 1 \<and> \<not> str_in (py_from prev_line prevbrace) ''}'' \<and>
      \<not> str_in (py_upto prev_line prevbrace) ''namespace'')"

definition check_blank_line :: "string \<Rightarrow> cleansed_lines \<Rightarrow> nat \<Rightarrow> handler \<Rightarrow> check" where
  "check_blank_line filename clean_lines linenum error g =
     bindE (py_index (elided clean_lines) (int linenum - 1)) (\<lambda>prev_line.
     bindE (only_if (starts_block prev_line \<and> \<not> blank_line_excused (elided clean_lines) linenum prev_line)
       (error filename (int linenum) ''whitespace/blank_line'' 2
         ''Blank line at the start of a code block.  Is this needed?'') g) (\<lambda>g.
     if linenum + 1 < NumLines clean_lines then
       bindE (py_index (raw_lines clean_lines) (int linenum + 1)) (\<lambda>next_line.
         only_if (next_line \<noteq> [] \<and> matched ''`s*}'' next_line \<and>
             \<not> str_in next_line ''namespace'' \<and> \<not> str_in next_line ''} else '')
           (error filename (int linenum) ''whitespace/blank_line'' 3
             ''Blank line at the end of a code block.  Is this needed?'') g)
     else Inr g))"

definition comment_crowded :: "string \<Rightarrow> nat \<Rightarrow> bool" where
  "comment_crowded line commentpos \<longleftrightarrow> \<not> matched ''^`s*{ //'' line \<and>
     (1 \<le> commentpos \<and> \<not> re_space (line ! (commentpos - 1)) \<or>
      2 \<le> commentpos \<and> \<not> re_space (line ! (commentpos - 2)))"

definition comment_glued :: "string \<Rightarrow> nat \<Rightarrow> bool" where
  "comment_glued line commentend \<longleftrightarrow> commentend < length line \<and> line ! commentend \<noteq> CHR '' '' \<and>
     \<not> (found ''[=/-]{4,}`s*$'' (drop commentend line) \<or> found ''^/$'' (drop commentend line) \<or>
        found ''^/+ '' (drop commentend line))"

definition check_comment_spacing :: "string \<Rightarrow> string \<Rightarrow> nat \<Rightarrow> handler \<Rightarrow> check" where
  "check_comment_spacing filename line linenum error =
     (let pos = str_find line ''//''; commentpos = nat pos in
      if pos \<noteq> - 1 \<and> (int (str_count (take commentpos line) ''\"'')
           - int (str_count (take commentpos line) (lit ''`\"''))) mod 2 = 0
      then seqE [
        only_if (comment_crowded line commentpos) (error filename (int linenum) ''whitespace/comments'' 2
          ''At least two spaces is best between code and comments''),
        only_if (comment_glued line (commentpos + 2)) (error filename (int linenum) ''whitespace/comments'' 4
          ''Should have a space between // and comment''),
        CheckComment (drop commentpos line) filename linenum error]
      else Inr)"

definition check_operator_spacing :: "string \<Rightarrow> string \<Rightarrow> nat \<Rightarrow> handler \<Rightarrow> check" where
  "check_operator_spacing filename line linenum error =
     (let report = (\<lambda>conf msg m. case m of None \<Rightarrow> Inr
            | Some m \<Rightarrow> error filename (int linenum) ''whitespace/operators'' conf (msg @ group_text m 1)) in seqE [
        only_if (found ''[`w.]=[`w.]'' line \<and> \<not> found ''`b(if|while) '' line)
          (error filename (int linenum) ''whitespace/operators'' 4 ''Missing spaces around =''),
        report 3 ''Missing spaces around ''
          (case re_search (rx ''[^<>=!`s](==|!=|<=|>=)[^<>=!`s]'') line of
             Some m \<Rightarrow> Some m
           | None \<Rightarrow> if \<not> found ''<[^<]*,`s*$'' line
                     then re_search (rx ''[^<>=!`s](<)[^<>=!`s]([^>]|->)*$'') line else None),
        report 3 ''Missing spaces around '' (re_search (rx ''[^0-9`s](<<|>>)[^0-9`s]'') line),
        report 4 ''Extra space for operator ''
          (re_search (rx ''(!`s|~`s|[`s]--[`s;]|[`s]`+`+[`s;])'') line)])"

definition mismatched_parens :: "match_obj \<Rightarrow> string \<Rightarrow> bool" where
  "mismatched_parens m line =
     (let a = length (group_text m 2); b = length (group_text m 4) in
      a \<noteq> b \<and> \<not> (group_text m 3 = '';'' \<and> a = 1 + b \<or>
                 group_text m 2 = [] \<and> found ''`bfor`s*`(.*; `)'' line))"

definition check_control_spacing :: "string \<Rightarrow> string \<Rightarrow> nat \<Rightarrow> handler \<Rightarrow> check" where
  "check_control_spacing filename line linenum error =
     (let report = (\<lambda>b msg. only_if b (error filename (int linenum) ''whitespace/parens'' 5 msg)) in seqE [
        (case re_search (rx '' (if`(|for`(|while`(|switch`()'') line of None \<Rightarrow> Inr
         | Some m \<Rightarrow> report True (''Missing space before ( in '' @ group_text m 1)),
        (case re_search (rx ''`b(if|for|while|switch)`s*`(([ ]*)(.).*[^ ]+([ ]*)`)`s*{`s*$'') line of None \<Rightarrow> Inr
         | Some m \<Rightarrow> seqE [
             report (mismatched_parens m line) (''Mismatching spaces inside () in '' @ group_text m 1),
             report (1 < length (group_text m 2))
               (''Should have zero or one spaces inside ( and ) in '' @ group_text m 1)])])"

definition check_punctuation :: "string \<Rightarrow> string \<Rightarrow> nat \<Rightarrow> handler \<Rightarrow> check" where
  "check_punctuation filename line linenum error =
     (let braces = (\<lambda>b msg. only_if b (error filename (int linenum) ''whitespace/braces'' 5 msg));
          semicolon = (\<lambda>msg. error filename (int linenum) ''whitespace/semicolon'' 5 msg) in seqE [
        braces (found ''[^ (]{'' line) ''Missing space before {'',
        braces (found ''}else'' line) ''Missing space before else'',
        braces (found ''`w`s+`['' line \<and> \<not> found ''delete`s+`['' line) ''Extra space before ['',
        (if found '':`s*;`s*$'' line
         then semicolon ''Semicolon defining empty statement. Use { } instead.''
         else if found ''^`s*;`s*$'' line
         then semicolon (''Line contains only semicolon. If this should be an empty statement, ''
            @ ''use { } instead.'')
         else only_if (found ''`s+;`s*$'' line \<and> \<not> found ''`bfor`b'' line)
            (semicolon (''Extra space before last semicolon. If this should be an empty ''
              @ ''statement, use { } instead.'')))])"

definition CheckSpacing :: "string \<Rightarrow> cleansed_lines \<Rightarrow> nat \<Rightarrow> handler \<Rightarrow> check" where
  "CheckSpacing filename clean_lines linenum error g =
     bindE (py_index (raw_lines clean_lines) (int linenum)) (\<lambda>raw.
     bindE (py_index (elided clean_lines) (int linenum)) (\<lambda>elided_line.
       let line = re_sub (rx ''operator(==|!=|<|<<|<=|>=|>>|>)`('') (lit ''operator`('') elided_line in
       seqE [
         only_if (IsBlankLine raw) (check_blank_line filename clean_lines linenum error),
         check_comment_spacing filename raw linenum error,
         check_operator_spacing filename line linenum error,
         check_control_spacing filename line linenum error,
         only_if (found '',[^`s]'' line) (error filename (int linenum) ''whitespace/comma'' 3 ''Missing space after ,''),
         CheckSpacingForFunctionCall filename line linenum error,
         check_punctuation filename line linenum error] g))"

section \<open>Braces\<close>

text \<open>
  The loop that joins a line that ends a block with the lines before it. When there is no line
  before it any more and the joined line still has the form, the loop repeats itself for ever.
\<close>

definition ends_block :: "string \<Rightarrow> bool" where
  "ends_block line \<longleftrightarrow> matched ''`s+{.*}`s*;'' line"

partial_function (option) join_block :: "cleansed_lines \<Rightarrow> int \<Rightarrow> string \<Rightarrow> string option" where
  "join_block clean_lines prevlinenum line =
     (if ends_block line \<and> CHR '';'' \<notin> set (fst (GetPreviousNonBlankLine clean_lines prevlinenum))
      then join_block clean_lines (snd (GetPreviousNonBlankLine clean_lines prevlinenum))
             (fst (GetPreviousNonBlankLine clean_lines prevlinenum) @ line)
      else Some line)"

definition lopsided_else :: "string \<Rightarrow> bool" where
  "lopsided_else line \<longleftrightarrow> found ''}`s*else[^{]*$'' line \<or> matched ''[^}]*else`s*{'' line"

definition check_else_braces :: "string \<Rightarrow> cleansed_lines \<Rightarrow> nat \<Rightarrow> string \<Rightarrow> handler \<Rightarrow> check" where
  "check_else_braces filename clean_lines linenum line error g =
     (let report = error filename (int linenum) ''readability/braces'' 5
            ''If an else has a brace on one side, it should have it on both'' in
      if lopsided_else line then
        (if found ''}`s*else if([^{]*)$'' line then
           (let pos = str_find_at line ''('' (nat (str_find line ''else if'')) in
            if pos > 0 then
              bindE (CloseExpression clean_lines linenum pos) (\<lambda>(endline, _, endpos).
                only_if (\<not> str_in (py_from endline endpos) ''{'') report g)
            else Inr g)
         else report g)
      else Inr g)"

definition CheckBraces :: "string \<Rightarrow> cleansed_lines \<Rightarrow> nat \<Rightarrow> handler \<Rightarrow> check" where
  "CheckBraces filename clean_lines linenum error g =
     bindE (py_index (elided clean_lines) (int linenum)) (\<lambda>line.
       let prevline = fst (GetPreviousNonBlankLine clean_lines (int linenum));
           report = (\<lambda>b cat conf msg. only_if b (error filename (int linenum) cat conf msg)) in
       seqE [
         report (matched ''`s*{`s*$'' line \<and> \<not> found ''[;:}{]`s*$'' prevline) ''whitespace/braces'' 4
           ''{ should almost always be at the end of the previous line'',
         report (matched ''`s*else`s*'' line \<and> matched ''`s*}`s*$'' prevline) ''whitespace/newline'' 4
           ''An else should appear on the same line as the preceding }'',
         check_else_braces filename clean_lines linenum line error,
         report (found ''`belse [^`s{]'' line \<and> \<not> found ''`belse if`b'' line) ''whitespace/newline'' 4
           ''Else clause should never be on same line as else (use 2 lines)'',
         report (matched ''`s*do [^`s{]'' line) ''whitespace/newline'' 4
           ''do/while clauses should not be on a single line'',
         (\<lambda>g. case join_block clean_lines (int linenum) line of
            None \<Rightarrow> Inl Diverge
          | Some line \<Rightarrow>
              report (found ''{.*}`s*;'' line \<and> str_count line ''{'' = str_count line ''}'' \<and>
                  \<not> found ''struct|class|enum|`s*=`s*{'' line) ''readability/braces'' 4
                (''You don'' @ CHR 0x27 # ''t need a ; after a }'') g)] g)"

section \<open>The CHECK macros\<close>

definition CHECK_MACROS :: "string list" where
  "CHECK_MACROS = [''DCHECK'', ''CHECK'', ''EXPECT_TRUE_M'', ''EXPECT_TRUE'', ''ASSERT_TRUE_M'',
     ''ASSERT_TRUE'', ''EXPECT_FALSE_M'', ''EXPECT_FALSE'', ''ASSERT_FALSE_M'', ''ASSERT_FALSE'']"

text \<open>The two loops that fill \<open>_CHECK_REPLACEMENT\<close>: macro and operator to the better macro.\<close>

type_synonym replacements = "((string \<times> string) \<times> string) list"

definition CHECK_REPLACEMENT :: replacements where
  "CHECK_REPLACEMENT =
     concat (map (\<lambda>(operator, replacement). [
         ((''DCHECK'', operator), ''DCHECK_'' @ replacement),
         ((''CHECK'', operator), ''CHECK_'' @ replacement),
         ((''EXPECT_TRUE'', operator), ''EXPECT_'' @ replacement),
         ((''ASSERT_TRUE'', operator), ''ASSERT_'' @ replacement),
         ((''EXPECT_TRUE_M'', operator), ''EXPECT_'' @ replacement @ ''_M''),
         ((''ASSERT_TRUE_M'', operator), ''ASSERT_'' @ replacement @ ''_M'')])
       [(''=='', ''EQ''), (''!='', ''NE''), (''>='', ''GE''), (''>'', ''GT''), (''<='', ''LE''), (''<'', ''LT'')])
     @ concat (map (\<lambda>(operator, inv_replacement). [
         ((''EXPECT_FALSE'', operator), ''EXPECT_'' @ inv_replacement),
         ((''ASSERT_FALSE'', operator), ''ASSERT_'' @ inv_replacement),
         ((''EXPECT_FALSE_M'', operator), ''EXPECT_'' @ inv_replacement @ ''_M''),
         ((''ASSERT_FALSE_M'', operator), ''ASSERT_'' @ inv_replacement @ ''_M'')])
       [(''=='', ''NE''), (''!='', ''EQ''), (''>='', ''LT''), (''>'', ''LE''), (''<='', ''GT''), (''<'', ''GE'')])"

definition match_constant :: string where
  "match_constant = ''([-+]?(`d+|0[xX][0-9a-fA-F]+)[lLuU]{0,3}|\".*\"|'' @ CHR 0x27 # ''.*'' @ CHR 0x27 # '')''"

definition ReplaceableCheck :: "string \<Rightarrow> string \<Rightarrow> string \<Rightarrow> bool" where
  "ReplaceableCheck operator macro line \<longleftrightarrow>
     matched (''`s*'' @ macro @ ''`((`s*'' @ match_constant @ ''`s*'' @ operator @ ''[^<>].*|''
       @ ''.*[^<>]'' @ operator @ ''`s*'' @ match_constant @ ''`s*`))'') line \<and>
     \<not> found ''NULL|&&|`|`|'' line"

definition current_macro :: "string \<Rightarrow> string option" where
  "current_macro raw_line = List.find (str_in raw_line) CHECK_MACROS"

definition CheckCheck :: "string \<Rightarrow> cleansed_lines \<Rightarrow> nat \<Rightarrow> handler \<Rightarrow> check" where
  "CheckCheck filename clean_lines linenum error g =
     bindE (py_index (raw_lines clean_lines) (int linenum)) (\<lambda>raw_line.
       case current_macro raw_line of
         None \<Rightarrow> Inr g
       | Some macro \<Rightarrow>
           bindE (py_index (elided clean_lines) (int linenum)) (\<lambda>line.
             case List.find (\<lambda>operator. ReplaceableCheck operator macro line)
                    [''=='', ''!='', ''>='', ''>'', ''<='', ''<''] of
               None \<Rightarrow> Inr g
             | Some operator \<Rightarrow>
                 (case map_of CHECK_REPLACEMENT (macro, operator) of
                    None \<Rightarrow> Inl KeyError
                  | Some replacement \<Rightarrow>
                      error filename (int linenum) ''readability/check'' 2
                        (''Consider using '' @ replacement @ '' instead of '' @ macro @ ''(a '' @ operator @ '' b)'') g)))"

section \<open>Style\<close>

definition initial_spaces :: "string \<Rightarrow> nat" where
  "initial_spaces line = length (takeWhile (\<lambda>c. c = CHR '' '') line)"

definition many_commands :: "cleansed_lines \<Rightarrow> nat \<Rightarrow> string \<Rightarrow> bool" where
  "many_commands clean_lines linenum line \<longleftrightarrow>
     (let prev = fst (GetPreviousNonBlankLine clean_lines (int linenum)) in
      1 < str_count line '';'' \<and> \<not> str_in line ''for'' \<and>
      (\<not> str_in prev ''for'' \<or> str_in prev '';'') \<and>
      \<not> ((str_in line ''case '' \<or> str_in line ''default:'') \<and> str_in line ''break;''))"

definition CheckStyle :: "environment \<Rightarrow> string \<Rightarrow> cleansed_lines \<Rightarrow> nat \<Rightarrow> string \<Rightarrow> handler \<Rightarrow> check" where
  "CheckStyle env filename clean_lines linenum file_extension error g =
     bindE (py_index (raw_lines clean_lines) (int linenum)) (\<lambda>line.
     bindE (py_index (elided clean_lines) (int linenum)) (\<lambda>cleansed_line.
       let spaces = initial_spaces line;
           report = (\<lambda>b cat conf msg. only_if b (error filename (int linenum) cat conf msg)) in
       seqE [
         report (str_in line [CHR 0x09]) ''whitespace/tab'' 1 ''Tab found; better to use spaces'',
         (if line \<noteq> [] \<and> is_space (last line) then
            report True ''whitespace/end_of_line'' 4
              ''Line ends in whitespace.  Consider deleting these extra spaces.''
          else if (spaces = 1 \<or> spaces = 3) \<and> \<not> matched ''`s*`w+`s*:`s*$'' cleansed_line then
            report True ''whitespace/indent'' 3
              (''Weird number of spaces at line-start.  '' @ ''Are you using a 2-space indent?'')
          else report (spaces = 0 \<and> take 2 line \<noteq> ''//'' \<and> found ''[^:]:`s*$'' line) ''whitespace/labels'' 4
              (''Labels should always be indented at least one space.  ''
               @ ''If this is a member-initializer list in a constructor or ''
               @ ''the base class list in a class definition, the colon should ''
               @ ''be on the following line.'')),
         (\<lambda>g. if file_extension = ''h''
               then bindE (GetHeaderGuardCPPVariable env filename) (\<lambda>cppvar. Inr g) else Inr g),
         report (many_commands clean_lines linenum cleansed_line) ''whitespace/newline'' 4
           ''More than one command on the same line'',
         CheckBraces filename clean_lines linenum error,
         CheckSpacing filename clean_lines linenum error,
         CheckCheck filename clean_lines linenum error] g))"

section \<open>The loop of \<open>CheckBraces\<close>\<close>

text \<open>
  The reference: a recursion over the lines above. At the top of the text a joined line that still
  has the form has no result.
\<close>

fun join_spec :: "string list \<Rightarrow> nat \<Rightarrow> string \<Rightarrow> string option" where
  "join_spec ls 0 line = (if ends_block line then None else Some line)"
| "join_spec ls (Suc n) line =
     (if IsBlankLine (ls ! n) then join_spec ls n line
      else if ends_block line \<and> CHR '';'' \<notin> set (ls ! n) then join_spec ls n (ls ! n @ line)
      else Some line)"

lemma previous_non_blank_range:
  "previous_non_blank ls n = ([], - 1) \<or>
     (\<exists>k<n. previous_non_blank ls n = (ls ! k, int k) \<and> \<not> IsBlankLine (ls ! k))"
  by (induction n) (auto simp: less_Suc_eq)

lemma join_spec_previous:
  "join_spec ls n line =
     (let (prevline, k) = previous_non_blank ls n in
      if k < 0 then (if ends_block line then None else Some line)
      else if ends_block line \<and> CHR '';'' \<notin> set prevline then join_spec ls (nat k) (prevline @ line)
      else Some line)"
  by (induction n) auto

lemma join_block_stuck:
  assumes "fst (GetPreviousNonBlankLine cl n) = []" and "snd (GetPreviousNonBlankLine cl n) = - 1"
    and "ends_block line" and "join_block cl n line = Some r"
  shows False
proof -
  have top: "GetPreviousNonBlankLine cl (- 1) = ([], - 1)"
    by (simp add: GetPreviousNonBlankLine_def)
  have "GetPreviousNonBlankLine cl' n' = ([], - 1) \<longrightarrow> cl' = cl \<longrightarrow> line' = line \<longrightarrow> False"
    if "join_block cl' n' line' = Some x" for cl' n' line' x
  proof (rule join_block.raw_induct [where
      P = "\<lambda>cl' n' line' x. GetPreviousNonBlankLine cl' n' = ([], - 1) \<longrightarrow> cl' = cl \<longrightarrow> line' = line \<longrightarrow> False", OF _ that])
    fix f cl' n' line' x
    assume IH: "\<And>cl' n' line' x. f cl' n' line' = Some x \<Longrightarrow>
        GetPreviousNonBlankLine cl' n' = ([], - 1) \<longrightarrow> cl' = cl \<longrightarrow> line' = line \<longrightarrow> False"
      and eq: "(if ends_block line' \<and> CHR '';'' \<notin> set (fst (GetPreviousNonBlankLine cl' n'))
         then f cl' (snd (GetPreviousNonBlankLine cl' n')) (fst (GetPreviousNonBlankLine cl' n') @ line')
         else Some line') = Some x"
    show "GetPreviousNonBlankLine cl' n' = ([], - 1) \<longrightarrow> cl' = cl \<longrightarrow> line' = line \<longrightarrow> False"
      using eq IH [of cl "- 1" line x] top assms(3) by auto
  qed
  with assms show False by (metis prod.collapse)
qed

lemma join_block_is_spec: "join_block cl (int n) line = join_spec (elided cl) n line"
proof (induction n arbitrary: line rule: less_induct)
  case (less n)
  have prev: "GetPreviousNonBlankLine cl (int n) = previous_non_blank (elided cl) n"
    by (simp add: GetPreviousNonBlankLine_def)
  consider "previous_non_blank (elided cl) n = ([], - 1)"
    | k where "k < n" "previous_non_blank (elided cl) n = (elided cl ! k, int k)"
    using previous_non_blank_range [of "elided cl" n] by blast
  then show ?case
  proof cases
    case 1
    show ?thesis
    proof (cases "ends_block line")
      case True
      then have "join_block cl (int n) line = None"
        using join_block_stuck [of cl "int n" line] 1 prev by (cases "join_block cl (int n) line") auto
      with 1 True show ?thesis by (simp add: join_spec_previous)
    next
      case False
      with 1 show ?thesis by (subst join_block.simps) (simp add: join_spec_previous)
    qed
  next
    case 2
    then show ?thesis
      using less [of k] by (subst join_block.simps, subst join_spec_previous) (simp add: prev)
  qed
qed

section \<open>What the checks rely on\<close>

text \<open>
  A line on which \<open>CheckBraces\<close> returns: the loop ends, and an \<open>else if\<close> whose
  condition goes on behind the line is closed somewhere.
\<close>

definition braces_ok :: "cleansed_lines \<Rightarrow> nat \<Rightarrow> bool" where
  "braces_ok cl n \<longleftrightarrow>
     (let line = elided cl ! n; pos = str_find_at line ''('' (nat (str_find line ''else if'')) in
      join_spec (elided cl) n line \<noteq> None \<and>
      (lopsided_else line \<and> found ''}`s*else if([^{]*)$'' line \<and> pos > 0 \<longrightarrow>
         (\<exists>r. CloseExpression cl n pos = Inr r)))"

lemma replacement_known:
  assumes "macro \<in> set CHECK_MACROS" and "op \<in> {''=='', ''!='', ''>='', ''>'', ''<='', ''<''}"
  shows "map_of CHECK_REPLACEMENT (macro, op) \<noteq> None"
proof -
  have "list_all (\<lambda>macro. list_all (\<lambda>op. map_of CHECK_REPLACEMENT (macro, op) \<noteq> None)
      [''=='', ''!='', ''>='', ''>'', ''<='', ''<'']) CHECK_MACROS" by code_simp
  with assms show ?thesis by (auto simp: list_all_iff)
qed

lemma find_SomeD: "List.find P xs = Some x \<Longrightarrow> x \<in> set xs \<and> P x"
  by (induction xs) (auto split: if_splits)

context error_handler begin

lemma keeps_CheckComment [keeps_intros]: "keeps Inv (CheckComment comment fn n error)"
  unfolding CheckComment_def Let_def by (intro keeps_intros)

lemma keeps_CheckSpacingForFunctionCall [keeps_intros]: "keeps Inv (CheckSpacingForFunctionCall fn line n error)"
  unfolding CheckSpacingForFunctionCall_def Let_def by (intro keeps_intros)

lemma keeps_check_comment_spacing [keeps_intros]: "keeps Inv (check_comment_spacing fn line n error)"
  unfolding check_comment_spacing_def Let_def by (intro keeps_intros)

lemma keeps_check_operator_spacing [keeps_intros]: "keeps Inv (check_operator_spacing fn line n error)"
  unfolding check_operator_spacing_def Let_def by (intro keeps_intros)

lemma keeps_check_control_spacing [keeps_intros]: "keeps Inv (check_control_spacing fn line n error)"
  unfolding check_control_spacing_def Let_def by (intro keeps_intros)

lemma keeps_check_punctuation [keeps_intros]: "keeps Inv (check_punctuation fn line n error)"
  unfolding check_punctuation_def Let_def by (intro keeps_intros)

lemma keeps_check_blank_line [keeps_intros]:
  assumes "n < length (elided cl)" and "length (raw_lines cl) = length (elided cl)"
  shows "keeps Inv (check_blank_line fn cl n error)"
proof (rule keeps_ext [OF check_blank_line_def])
  have 1: "\<exists>x. py_index (elided cl) (int n - 1) = Inr x"
    using assms(1) by (simp add: py_index_def)
  have 2: "n + 1 < NumLines cl \<Longrightarrow> \<exists>x. py_index (raw_lines cl) (int n + 1) = Inr x"
    by (auto simp: NumLines_def py_index_def)
  from 1 obtain x where x: "py_index (elided cl) (int n - 1) = Inr x" by blast
  show "keeps Inv (\<lambda>g. bindE (py_index (elided cl) (int n - 1)) (\<lambda>prev_line.
     bindE (only_if (starts_block prev_line \<and> \<not> blank_line_excused (elided cl) n prev_line)
       (error fn (int n) ''whitespace/blank_line'' 2
         ''Blank line at the start of a code block.  Is this needed?'') g) (\<lambda>g.
     if n + 1 < NumLines cl then
       bindE (py_index (raw_lines cl) (int n + 1)) (\<lambda>next_line.
         only_if (next_line \<noteq> [] \<and> matched ''`s*}'' next_line \<and>
             \<not> str_in next_line ''namespace'' \<and> \<not> str_in next_line ''} else '')
           (error fn (int n) ''whitespace/blank_line'' 3
             ''Blank line at the end of a code block.  Is this needed?'') g)
     else Inr g)))"
  proof (cases "n + 1 < NumLines cl")
    case True
    with 2 obtain y where "py_index (raw_lines cl) (int n + 1) = Inr y" by blast
    then show ?thesis unfolding x if_P [OF True] by (simp only: bindE_simps) (intro keeps_intros)
  next
    case False
    then show ?thesis unfolding x if_not_P [OF False] by (simp only: bindE_simps) (intro keeps_intros)
  qed
qed

lemma keeps_CheckSpacing [keeps_intros]:
  assumes "n < length (elided cl)" and "length (raw_lines cl) = length (elided cl)"
  shows "keeps Inv (CheckSpacing fn cl n error)"
proof -
  have n: "n < length (raw_lines cl)" using assms by simp
  show ?thesis
    by (rule keeps_ext [OF CheckSpacing_def]) (unfold Let_def, intro keeps_intros assms n)
qed

lemma keeps_CheckCheck [keeps_intros]:
  assumes "n < length (elided cl)" and "length (raw_lines cl) = length (elided cl)"
  shows "keeps Inv (CheckCheck fn cl n error)"
proof -
  have n: "py_index (raw_lines cl) (int n) = Inr (raw_lines cl ! n)" "py_index (elided cl) (int n) = Inr (elided cl ! n)"
    using assms by simp_all
  show ?thesis
  proof (cases "current_macro (raw_lines cl ! n)")
    case None
    then show ?thesis by (simp add: keeps_def CheckCheck_def n)
  next
    case (Some macro)
    let ?ops = "[''=='', ''!='', ''>='', ''>'', ''<='', ''<'']"
    show ?thesis
    proof (cases "List.find (\<lambda>operator. ReplaceableCheck operator macro (elided cl ! n)) ?ops")
      case None
      with Some show ?thesis by (simp only: keeps_def CheckCheck_def n bindE_simps option.case) blast
    next
      case op: (Some op)
      have "macro \<in> set CHECK_MACROS" using Some by (auto simp: current_macro_def dest!: find_SomeD)
      moreover have "op \<in> {''=='', ''!='', ''>='', ''>'', ''<='', ''<''}" using find_SomeD [OF op] by auto
      ultimately obtain r where r: "map_of CHECK_REPLACEMENT (macro, op) = Some r"
        using replacement_known by blast
      have "CheckCheck fn cl n error = error fn (int n) ''readability/check'' 2
          (''Consider using '' @ r @ '' instead of '' @ macro @ ''(a '' @ op @ '' b)'')"
        by (rule ext) (simp only: CheckCheck_def n bindE_simps Some op r option.case)
      then show ?thesis by (simp only: error_keeps)
    qed
  qed
qed

lemma keeps_check_else_braces:
  assumes "braces_ok cl n"
  shows "keeps Inv (check_else_braces fn cl n (elided cl ! n) error)"
proof -
  let ?line = "elided cl ! n"
  let ?pos = "str_find_at ?line ''('' (nat (str_find ?line ''else if''))"
  show ?thesis
  proof (cases "lopsided_else ?line \<and> found ''}`s*else if([^{]*)$'' ?line \<and> ?pos > 0")
    case True
    with assms obtain endline k endpos where c: "CloseExpression cl n ?pos = Inr (endline, k, endpos)"
      by (auto simp: braces_ok_def Let_def)
    have "check_else_braces fn cl n ?line error = only_if (\<not> str_in (py_from endline endpos) ''{'')
        (error fn (int n) ''readability/braces'' 5
          ''If an else has a brace on one side, it should have it on both'')"
      using True by (intro ext) (simp add: check_else_braces_def Let_def c)
    then show ?thesis by (simp only:) (intro keeps_intros)
  next
    case False
    then consider "\<not> lopsided_else ?line" | "lopsided_else ?line" "\<not> found ''}`s*else if([^{]*)$'' ?line"
      | "lopsided_else ?line" "found ''}`s*else if([^{]*)$'' ?line" "\<not> ?pos > 0" by blast
    then have "check_else_braces fn cl n ?line error = Inr \<or>
        check_else_braces fn cl n ?line error = error fn (int n) ''readability/braces'' 5
          ''If an else has a brace on one side, it should have it on both''"
      by cases (simp_all add: fun_eq_iff check_else_braces_def Let_def)
    then show ?thesis by (elim disjE) (simp_all only: error_keeps keeps_Inr)
  qed
qed

lemma keeps_CheckBraces [keeps_intros]:
  assumes "n < length (elided cl)" and "braces_ok cl n"
  shows "keeps Inv (CheckBraces fn cl n error)"
proof -
  let ?line = "elided cl ! n"
  have n: "py_index (elided cl) (int n) = Inr ?line" using assms(1) by simp
  from assms(2) obtain line where j: "join_block cl (int n) ?line = Some line"
    by (auto simp: braces_ok_def Let_def join_block_is_spec)
  show ?thesis
    by (rule keeps_ext [OF CheckBraces_def], unfold n Let_def bindE_simps j option.case)
      (intro keeps_intros keeps_check_else_braces assms(2))
qed

lemma keeps_CheckStyle [keeps_intros]:
  assumes "n < length (elided cl)" and "length (raw_lines cl) = length (elided cl)" and "braces_ok cl n"
    and "ext = ''h'' \<Longrightarrow> \<exists>v. GetHeaderGuardCPPVariable env fn = Inr v"
  shows "keeps Inv (CheckStyle env fn cl n ext error)"
proof -
  have n: "n < length (raw_lines cl)" using assms by simp
  have guard: "keeps Inv (\<lambda>g. if ext = ''h''
               then bindE (GetHeaderGuardCPPVariable env fn) (\<lambda>cppvar. Inr g) else Inr g)"
    using assms(4) by (cases "ext = ''h''") (auto simp: keeps_def)
  show ?thesis
    by (rule keeps_ext [OF CheckStyle_def], unfold Let_def) (intro keeps_intros guard assms(1-3) n)
qed

end

section \<open>The rule about commas\<close>

text \<open>A handler that records the reports of one category and drops the others.\<close>

definition record_only :: "string \<Rightarrow> handler" where
  "record_only c fn ln cat conf msg g = Inr (if cat = c then write_err msg g else g)"

lemma record_other: "cat \<noteq> c \<Longrightarrow> record_only c fn ln cat conf msg = Inr"
  by (simp add: record_only_def fun_eq_iff)

lemma only_if_Inr [simp]: "only_if b Inr = Inr"
  by (simp add: only_if_def)

lemma seqE_Inr [simp]: "seqE (Inr # fs) = seqE fs" "seqE [] = Inr"
  by (simp_all add: fun_eq_iff)

lemma comma_quiet:
  "check_comment_spacing fn line n (record_only ''whitespace/comma'') = Inr"
  "check_operator_spacing fn line n (record_only ''whitespace/comma'') = Inr"
  "check_control_spacing fn line n (record_only ''whitespace/comma'') = Inr"
  "CheckSpacingForFunctionCall fn line n (record_only ''whitespace/comma'') = Inr"
  "check_punctuation fn line n (record_only ''whitespace/comma'') = Inr"
  by (simp_all add: check_comment_spacing_def check_operator_spacing_def check_control_spacing_def
      CheckSpacingForFunctionCall_def check_punctuation_def CheckComment_def Let_def record_other
      split: option.split)

lemma comma_quiet_blank:
  assumes "n < length (elided cl)" and "length (raw_lines cl) = length (elided cl)"
  shows "check_blank_line fn cl n (record_only ''whitespace/comma'') = Inr"
proof -
  have "\<exists>x. py_index (elided cl) (int n - 1) = Inr x"
    "n + 1 < NumLines cl \<Longrightarrow> \<exists>x. py_index (raw_lines cl) (int n + 1) = Inr x"
    using assms by (auto simp: NumLines_def py_index_def)
  then show ?thesis
    by (auto simp: fun_eq_iff check_blank_line_def record_other)
qed

lemma comma_ast: "rx '',[^`s]'' = Cat (Lit CHR '','') (Class True [SpaceChar])"
  by code_simp

lemma comma_found: "found '',[^`s]'' line \<longleftrightarrow> (\<exists>a c b. line = a @ CHR '','' # c # b \<and> \<not> re_space c)"
proof -
  have "(\<exists>st. sem (rx '',[^`s]'') (MS b u []) st) \<longleftrightarrow> (\<exists>c v. u = CHR '','' # c # v \<and> \<not> re_space c)" for b u
    by (cases u; cases "tl u") (auto simp: comma_ast eats_def class_matches_def)
  note here = this
  have "found '',[^`s]'' line \<longleftrightarrow> (\<exists>t u. line = t @ u \<and> (\<exists>st. sem (rx '',[^`s]'') (MS (rev t) u []) st))"
    unfolding found_def re_search_None by simp
  also have "\<dots> \<longleftrightarrow> (\<exists>a c b. line = a @ CHR '','' # c # b \<and> \<not> re_space c)"
    by (simp only: here) metis
  finally show ?thesis .
qed

section \<open>Properties\<close>

text \<open>
  The loop of \<open>CheckBraces\<close> that joins lines computes what the recursion over the lines
  above computes, and has no result in exactly the same cases.
\<close>

theorem braces_loop_is_recursion: "join_block cl (int n) line = join_spec (elided cl) n line"
  by (rule join_block_is_spec)

text \<open>
  On the first line of the code, a braced block closed by a semicolon makes
  \<open>CheckBraces\<close> run for ever, whatever a handler that returns does.
\<close>

theorem CheckBraces_diverges:
  assumes "n < length (elided cl)" and "\<And>k. k < n \<Longrightarrow> IsBlankLine (elided cl ! k)"
    and "ends_block (elided cl ! n)" and "\<not> lopsided_else (elided cl ! n)"
    and "\<And>ln cat conf msg g. \<exists>g'. error fn ln cat conf msg g = Inr g'"
  shows "CheckBraces fn cl n error g = Inl Diverge"
proof -
  let ?line = "elided cl ! n"
  have l: "py_index (elided cl) (int n) = Inr ?line" using assms(1) by simp
  have spec: "join_spec (elided cl) k ?line = None" if "k \<le> n" for k
    using that assms(2,3) by (induction k) auto
  have j: "join_block cl (int n) ?line = None"
    unfolding join_block_is_spec by (rule spec) simp
  have e: "check_else_braces fn cl n ?line error = Inr"
    using assms(4) by (simp add: fun_eq_iff check_else_braces_def Let_def)
  have ret: "\<exists>g'. only_if b (error fn ln cat conf msg) g = Inr g'" for b ln cat conf msg g
    using assms(5) by (cases b) auto
  have two: "bindE (only_if b (error fn ln cat conf msg) g) f = Inl Diverge"
    if "\<And>g. f g = Inl Diverge" for b ln cat conf msg g and f :: check
  proof -
    from ret obtain g' where "only_if b (error fn ln cat conf msg) g = Inr g'" by blast
    then show ?thesis using that by simp
  qed
  show ?thesis
    unfolding CheckBraces_def l bindE_simps Let_def seqE.simps j e option.case
    by (simp only: two bindE_simps seqE.simps option.case)
qed

theorem CheckBraces_diverges_witness:
  "CheckBraces ''a.cc'' (CleansedLines [''// marker'', ''  { };'']) 1 (record_only []) init_lint = Inl Diverge"
proof (rule CheckBraces_diverges)
  let ?cl = "CleansedLines [''// marker'', ''  { };'']"
  have e: "elided ?cl = [[], ''  { };'']" by code_simp
  show "1 < length (elided ?cl)" by (simp add: e)
  show "IsBlankLine (elided ?cl ! k)" if "k < 1" for k using that by (simp add: e IsBlankLine_def)
  show "ends_block (elided ?cl ! 1)" "\<not> lopsided_else (elided ?cl ! 1)" by (unfold e) code_simp+
  show "\<exists>g'. record_only [] ''a.cc'' ln cat conf msg g = Inr g'" for ln cat conf msg g
    by (simp add: record_only_def)
qed

text \<open>
  Every macro has a replacement for every operator, and the replacement for a \<open>FALSE\<close>
  macro is the one that the \<open>TRUE\<close> macro has for the negated operator.
\<close>

theorem replacements_negate:
  assumes "(op, negated) \<in> {(''=='', ''!=''), (''!='', ''==''), (''>='', ''<''), (''<'', ''>=''),
      (''>'', ''<=''), (''<='', ''>'')}"
    and "(false_macro, true_macro) \<in> {(''EXPECT_FALSE'', ''EXPECT_TRUE''), (''ASSERT_FALSE'', ''ASSERT_TRUE''),
      (''EXPECT_FALSE_M'', ''EXPECT_TRUE_M''), (''ASSERT_FALSE_M'', ''ASSERT_TRUE_M'')}"
  shows "\<exists>replacement. map_of CHECK_REPLACEMENT (false_macro, op) = Some replacement \<and>
    map_of CHECK_REPLACEMENT (true_macro, negated) = Some replacement"
proof -
  let ?ops = "[(''=='', ''!=''), (''!='', ''==''), (''>='', ''<''), (''<'', ''>=''), (''>'', ''<=''), (''<='', ''>'')]"
  let ?macros = "[(''EXPECT_FALSE'', ''EXPECT_TRUE''), (''ASSERT_FALSE'', ''ASSERT_TRUE''),
      (''EXPECT_FALSE_M'', ''EXPECT_TRUE_M''), (''ASSERT_FALSE_M'', ''ASSERT_TRUE_M'')]"
  have table: "list_all (\<lambda>p. list_all (\<lambda>q. map_of CHECK_REPLACEMENT (fst q, fst p) \<noteq> None \<and>
      map_of CHECK_REPLACEMENT (fst q, fst p) = map_of CHECK_REPLACEMENT (snd q, snd p)) ?macros) ?ops"
    by code_simp
  have "(op, negated) \<in> set ?ops" "(false_macro, true_macro) \<in> set ?macros"
    using assms by (simp_all only: list.set)
  with table have "map_of CHECK_REPLACEMENT (false_macro, op) \<noteq> None \<and>
      map_of CHECK_REPLACEMENT (false_macro, op) = map_of CHECK_REPLACEMENT (true_macro, negated)"
    unfolding list_all_iff by (metis fst_conv snd_conv)
  then show ?thesis by (metis option.exhaust)
qed

theorem replacements_negate_witness:
  "\<exists>replacement. map_of CHECK_REPLACEMENT (''ASSERT_FALSE'', ''<='') = Some replacement \<and>
     map_of CHECK_REPLACEMENT (''ASSERT_TRUE'', ''>'') = Some replacement"
  by (rule replacements_negate) simp_all

text \<open>
  C39: on a line of the text, the rule about commas is reported, once, exactly when some comma of
  the code (comments and strings removed, operator names normalised) is followed directly by a
  character that is not white space.
\<close>

theorem comma_rule:
  assumes "n < length (elided cl)" and "length (raw_lines cl) = length (elided cl)"
  shows "CheckSpacing fn cl n (record_only ''whitespace/comma'') g =
    Inr (if \<exists>a c b. re_sub (rx ''operator(==|!=|<|<<|<=|>=|>>|>)`('') (lit ''operator`('') (elided cl ! n) =
            a @ CHR '','' # c # b \<and> \<not> re_space c
         then write_err ''Missing space after ,'' g else g)"
proof -
  have n: "py_index (raw_lines cl) (int n) = Inr (raw_lines cl ! n)" "py_index (elided cl) (int n) = Inr (elided cl ! n)"
    using assms by simp_all
  show ?thesis
    unfolding comma_found [symmetric]
    by (simp add: CheckSpacing_def n Let_def comma_quiet comma_quiet_blank [OF assms] only_if_def record_only_def)
qed

theorem comma_rule_witness:
  "CheckSpacing ''a.cc'' (CleansedLines [''f(a,b);'']) 0 (record_only ''whitespace/comma'') init_lint =
     Inr (write_err ''Missing space after ,'' init_lint)"
proof -
  let ?cl = "CleansedLines [''f(a,b);'']"
  have e: "elided ?cl = [''f(a,b);'']" "raw_lines ?cl = [''f(a,b);'']" by code_simp+
  have r: "re_sub (rx ''operator(==|!=|<|<<|<=|>=|>>|>)`('') (lit ''operator`('') (elided ?cl ! 0) =
      ''f(a'' @ CHR '','' # CHR ''b'' # '');''" "\<not> re_space CHR ''b''"
    by (unfold e) code_simp+
  then have "\<exists>a c b. re_sub (rx ''operator(==|!=|<|<<|<=|>=|>>|>)`('') (lit ''operator`('') (elided ?cl ! 0) =
      a @ CHR '','' # c # b \<and> \<not> re_space c" by blast
  with comma_rule [of 0 ?cl "''a.cc''" init_lint] show ?thesis by (simp add: e)
qed

end
