(* ===== verification/Lint_Include.thy ===== *)
theory Lint_Include
  imports Lint_Lines Lint_File "HOL-Library.AList"
begin

text \<open>
  The \<open>#include\<close> lines: the order of the sections and the alphabetical order
  (\<open>_IncludeState\<close>), the kind of an included header (\<open>_ClassifyInclude\<close>),
  \<open>CheckIncludeLine\<close>, the modules of \<open>FilesBelongToSameModule\<close>, and the headers a
  file should include (\<open>CheckForIncludeWhatYouUse\<close>). A dictionary is an association list in
  the order of insertion; where the code walks one, in an order the language leaves open, that
  order is an argument.
\<close>

section \<open>Kinds of headers and sections\<close>

definition STL_HEADERS :: "string list" where
  "STL_HEADERS = [
    ''algobase.h'', ''algorithm'', ''alloc.h'', ''bitset'', ''deque'', ''exception'',
    ''function.h'', ''functional'', ''hash_map'', ''hash_map.h'', ''hash_set'',
    ''hash_set.h'', ''iterator'', ''list'', ''list.h'', ''map'', ''memory'', ''new'',
    ''pair.h'', ''pthread_alloc'', ''queue'', ''set'', ''set.h'', ''sstream'', ''stack'',
    ''stl_alloc.h'', ''stl_relops.h'', ''type_traits.h'',
    ''utility'', ''vector'', ''vector.h'']"

definition CPP_HEADERS :: "string list" where
  "CPP_HEADERS = [
    ''algo.h'', ''builtinbuf.h'', ''bvector.h'', ''cassert'', ''cctype'',
    ''cerrno'', ''cfloat'', ''ciso646'', ''climits'', ''clocale'', ''cmath'',
    ''complex'', ''complex.h'', ''csetjmp'', ''csignal'', ''cstdarg'', ''cstddef'',
    ''cstdio'', ''cstdlib'', ''cstring'', ''ctime'', ''cwchar'', ''cwctype'',
    ''defalloc.h'', ''deque.h'', ''editbuf.h'', ''exception'', ''fstream'',
    ''fstream.h'', ''hashtable.h'', ''heap.h'', ''indstream.h'', ''iomanip'',
    ''iomanip.h'', ''ios'', ''iosfwd'', ''iostream'', ''iostream.h'', ''istream.h'',
    ''iterator.h'', ''limits'', ''map.h'', ''multimap.h'', ''multiset.h'',
    ''numeric'', ''ostream.h'', ''parsestream.h'', ''pfstream.h'', ''PlotFile.h'',
    ''procbuf.h'', ''pthread_alloc.h'', ''rope'', ''rope.h'', ''ropeimpl.h'',
    ''SFile.h'', ''slist'', ''slist.h'', ''stack.h'', ''stdexcept'',
    ''stdiostream.h'', ''streambuf.h'', ''stream.h'', ''strfile.h'', ''string'',
    ''strstream'', ''strstream.h'', ''tempbuf.h'', ''tree.h'', ''typeinfo'', ''valarray'']"

datatype header_type =
    C_SYS_HEADER
  | CPP_SYS_HEADER
  | LIKELY_MY_HEADER
  | POSSIBLE_MY_HEADER
  | OTHER_HEADER

datatype include_section =
    INITIAL_SECTION
  | MY_H_SECTION
  | C_SECTION
  | CPP_SECTION
  | OTHER_H_SECTION

fun section_number :: "include_section \<Rightarrow> nat" where
  "section_number INITIAL_SECTION = 0"
| "section_number MY_H_SECTION = 1"
| "section_number C_SECTION = 2"
| "section_number CPP_SECTION = 3"
| "section_number OTHER_H_SECTION = 4"

instantiation include_section :: linorder
begin

definition less_eq_include_section :: "include_section \<Rightarrow> include_section \<Rightarrow> bool" where
  "less_eq_include_section a b \<longleftrightarrow> section_number a \<le> section_number b"

definition less_include_section :: "include_section \<Rightarrow> include_section \<Rightarrow> bool" where
  "less_include_section a b \<longleftrightarrow> section_number a < section_number b"

instance
proof
  fix a b :: include_section
  show "a \<le> b \<Longrightarrow> b \<le> a \<Longrightarrow> a = b"
    by (cases a; cases b; simp add: less_eq_include_section_def)
qed (auto simp: less_eq_include_section_def less_include_section_def)

end

fun TYPE_NAMES :: "header_type \<Rightarrow> string" where
  "TYPE_NAMES C_SYS_HEADER = ''C system header''"
| "TYPE_NAMES CPP_SYS_HEADER = ''C++ system header''"
| "TYPE_NAMES LIKELY_MY_HEADER = ''header this file implements''"
| "TYPE_NAMES POSSIBLE_MY_HEADER = ''header this file may implement''"
| "TYPE_NAMES OTHER_HEADER = ''other header''"

fun SECTION_NAMES :: "include_section \<Rightarrow> string" where
  "SECTION_NAMES INITIAL_SECTION = ''... nothing. (This can'' @ CHR 0x27 # ''t be an error.)''"
| "SECTION_NAMES MY_H_SECTION = ''a header this file implements''"
| "SECTION_NAMES C_SECTION = ''C system header''"
| "SECTION_NAMES CPP_SECTION = ''C++ system header''"
| "SECTION_NAMES OTHER_H_SECTION = ''other header''"

section \<open>The include state\<close>

text \<open>
  Where a header was included: a line of the file itself, or \<open>file:line\<close> of its header.
\<close>

datatype include_loc = AtLine int | AtFile string

type_synonym include_dict = "(string \<times> include_loc) list"

record include_state =
  included :: include_dict
  section_of :: include_section
  last_header :: string

definition init_include_state :: include_state where
  "init_include_state = \<lparr> included = [], section_of = INITIAL_SECTION, last_header = [] \<rparr>"

definition CanonicalizeAlphabeticalOrder :: "string \<Rightarrow> string" where
  "CanonicalizeAlphabeticalOrder header_path =
     lower (str_replace (str_replace header_path ''-inl.h'' ''.h'') ''-'' ''_'')"

definition IsInAlphabeticalOrder :: "string \<Rightarrow> include_state \<Rightarrow> bool \<times> include_state" where
  "IsInAlphabeticalOrder header_path s =
     (let canonical_header = CanonicalizeAlphabeticalOrder header_path in
      if last_header s > canonical_header then (False, s)
      else (True, s\<lparr>last_header := canonical_header\<rparr>))"

definition CheckNextIncludeOrder :: "header_type \<Rightarrow> include_state \<Rightarrow> string \<times> include_state" where
  "CheckNextIncludeOrder header_type s =
     (let error_message = ''Found '' @ TYPE_NAMES header_type @ '' after '' @ SECTION_NAMES (section_of s);
          last_section = section_of s;
          finish = (\<lambda>new. ([], (let s = s\<lparr>section_of := new\<rparr> in
             if last_section \<noteq> section_of s then s\<lparr>last_header := []\<rparr> else s)))
      in case header_type of
           C_SYS_HEADER \<Rightarrow>
             if section_of s \<le> C_SECTION then finish C_SECTION
             else (error_message, s\<lparr>last_header := []\<rparr>)
         | CPP_SYS_HEADER \<Rightarrow>
             if section_of s \<le> CPP_SECTION then finish CPP_SECTION
             else (error_message, s\<lparr>last_header := []\<rparr>)
         | LIKELY_MY_HEADER \<Rightarrow>
             finish (if section_of s \<le> MY_H_SECTION then MY_H_SECTION else OTHER_H_SECTION)
         | POSSIBLE_MY_HEADER \<Rightarrow>
             finish (if section_of s \<le> MY_H_SECTION then MY_H_SECTION else OTHER_H_SECTION)
         | OTHER_HEADER \<Rightarrow> finish OTHER_H_SECTION)"

section \<open>Classifying a header\<close>

definition RE_PATTERN_INCLUDE_NEW_STYLE :: regex where
  "RE_PATTERN_INCLUDE_NEW_STYLE = rx ''#include +\"[^/]+`.h\"''"

definition RE_FIRST_COMPONENT :: regex where
  "RE_FIRST_COMPONENT = rx ''^[^-_.]+''"

fun drop_suffix :: "string list \<Rightarrow> string \<Rightarrow> string" where
  "drop_suffix [] filename = fst (splitext filename)"
| "drop_suffix (suf # ss) filename =
     (let n = length filename; k = length suf in
      if endswith filename suf \<and> k < n \<and> filename ! (n - k - 1) \<in> {CHR ''-'', CHR ''_''}
      then take (n - k - 1) filename else drop_suffix ss filename)"

definition DropCommonSuffixes :: "string \<Rightarrow> string" where
  "DropCommonSuffixes filename =
     drop_suffix [''test.cc'', ''regtest.cc'', ''unittest.cc'', ''inl.h'', ''impl.h'', ''internal.h''] filename"

definition IsTestFilename :: "string \<Rightarrow> bool" where
  "IsTestFilename filename \<longleftrightarrow> endswith filename ''_test.cc'' \<or>
     endswith filename ''_unittest.cc'' \<or> endswith filename ''_regtest.cc''"

definition ClassifyInclude :: "environment \<Rightarrow> string \<Rightarrow> string \<Rightarrow> bool \<Rightarrow> header_type result" where
  "ClassifyInclude env filename include is_system =
     (let is_stl_h = include \<in> set STL_HEADERS; is_cpp_h = is_stl_h \<or> include \<in> set CPP_HEADERS in
      if is_system then Inr (if is_cpp_h then CPP_SYS_HEADER else C_SYS_HEADER)
      else bindE (RepositoryName env filename) (\<lambda>name.
        let (target_dir, target_base) = path_split (DropCommonSuffixes name);
            (include_dir, include_base) = path_split (DropCommonSuffixes include)
        in if target_base = include_base \<and>
              (include_dir = target_dir \<or> include_dir = normpath (target_dir @ ''/../public''))
           then Inr LIKELY_MY_HEADER
           else (case (re_match RE_FIRST_COMPONENT target_base, re_match RE_FIRST_COMPONENT include_base) of
                   (Some t, Some i) \<Rightarrow>
                     if m_text t = m_text i then Inr POSSIBLE_MY_HEADER else Inr OTHER_HEADER
                 | _ \<Rightarrow> Inr OTHER_HEADER)))"

section \<open>An include line\<close>

fun show_loc :: "include_loc \<Rightarrow> string" where
  "show_loc (AtLine n) = str_int n"
| "show_loc (AtFile s) = s"

text \<open>A run of checks on the linter's state alone, beside an include state.\<close>

definition with_include :: "include_state \<Rightarrow> lint result \<Rightarrow> (include_state \<times> lint) result" where
  "with_include s r = bindE r (\<lambda>g. Inr (s, g))"

definition CheckIncludeLine ::
  "environment \<Rightarrow> string \<Rightarrow> cleansed_lines \<Rightarrow> nat \<Rightarrow> handler \<Rightarrow> include_state \<Rightarrow> lint
     \<Rightarrow> (include_state \<times> lint) result" where
  "CheckIncludeLine env filename clean_lines linenum error s g =
     bindE (py_index (lines_of clean_lines) (int linenum)) (\<lambda>line.
     bindE (only_if (re_search RE_PATTERN_INCLUDE_NEW_STYLE line \<noteq> None)
              (error filename (int linenum) ''build/include'' 4
                 ''Include the directory when naming .h files'') g) (\<lambda>g.
       case re_search RE_PATTERN_INCLUDE line of
         None \<Rightarrow> Inr (s, g)
       | Some m \<Rightarrow>
           (let include = the (m_group m 2); is_system = (m_group m 1 = Some ''<'') in
            case map_of (included s) include of
              Some loc \<Rightarrow> with_include s (error filename (int linenum) ''build/include'' 4
                (''\"'' @ include @ ''\" already included at '' @ filename @ '':'' @ show_loc loc) g)
            | None \<Rightarrow>
                (let s = s\<lparr>included := AList.update include (AtLine (int linenum)) (included s)\<rparr> in
                 bindE (ClassifyInclude env filename include is_system) (\<lambda>kind.
                 let (error_message, s) = CheckNextIncludeOrder kind s in
                 bindE (if error_message \<noteq> [] then
                          bindE (BaseName env filename) (\<lambda>base.
                            error filename (int linenum) ''build/include_order'' 4
                              (error_message @ ''. Should be: '' @ base @ ''.h, c system, c++ system, other.'') g)
                        else Inr g) (\<lambda>g.
                 let (in_order, s) = IsInAlphabeticalOrder include s in
                 with_include s (only_if (\<not> in_order)
                   (error filename (int linenum) ''build/include_alpha'' 4
                     (''Include \"'' @ include @ ''\" not in alphabetical order'')) g)))))))"

section \<open>Modules\<close>

definition drop_end :: "string \<Rightarrow> string \<Rightarrow> string" where
  "drop_end s e = take (length s - length e) s"

definition cc_module :: "string \<Rightarrow> string" where
  "cc_module filename_cc =
     (let f = drop_end filename_cc ''.cc'';
          f = (if endswith f ''_unittest'' then drop_end f ''_unittest''
               else if endswith f ''_test'' then drop_end f ''_test'' else f)
      in str_replace (str_replace f ''/public/'' ''/'') ''/internal/'' ''/'')"

definition h_module :: "string \<Rightarrow> string" where
  "h_module filename_h =
     (let f = drop_end filename_h ''.h'';
          f = (if endswith f ''-inl'' then drop_end f ''-inl'' else f)
      in str_replace (str_replace f ''/public/'' ''/'') ''/internal/'' ''/'')"

definition FilesBelongToSameModule :: "string \<Rightarrow> string \<Rightarrow> bool \<times> string" where
  "FilesBelongToSameModule filename_cc filename_h =
     (if \<not> endswith filename_cc ''.cc'' then (False, [])
      else if \<not> endswith filename_h ''.h'' then (False, [])
      else (let c = cc_module filename_cc; h = h_module filename_h in
        if endswith c h then (True, py_upto c (- int (length h))) else (False, [])))"

section \<open>Include what you use\<close>

text \<open>The lines a text file is read by, with their line ends (\<open>unicode.splitlines(True)\<close>).\<close>

definition is_linebreak :: "char \<Rightarrow> bool" where
  "is_linebreak c \<longleftrightarrow> (of_char c :: nat) \<in> {10, 11, 12, 13, 28, 29, 30, 133}"

fun split_lines :: "string \<Rightarrow> string \<Rightarrow> string list" where
  "split_lines [] acc = (if acc = [] then [] else [rev acc])"
| "split_lines (c # cs) acc =
     (if c = CHR 0x0D \<and> startswith cs [newline] then split_lines cs (c # acc)
      else if is_linebreak c then rev (c # acc) # split_lines cs []
      else split_lines cs (c # acc))"

definition include_of :: "string \<Rightarrow> string option" where
  "include_of line = (case re_search RE_PATTERN_INCLUDE line of None \<Rightarrow> None | Some m \<Rightarrow> m_group m 2)"

text \<open>\<open>setdefault\<close>: an entry that is there stays.\<close>

definition set_default :: "string \<Rightarrow> 'v \<Rightarrow> (string \<times> 'v) list \<Rightarrow> (string \<times> 'v) list" where
  "set_default k v d = (if map_of d k = None then AList.update k v d else d)"

definition UpdateIncludeState :: "environment \<Rightarrow> string \<Rightarrow> include_dict \<Rightarrow> bool \<times> include_dict" where
  "UpdateIncludeState env filename d =
     (case read_file env filename of
        None \<Rightarrow> (False, d)
      | Some content \<Rightarrow>
          (True, fold (\<lambda>(linenum, line) d.
             case include_of (CleanseComments line) of
               None \<Rightarrow> d
             | Some include \<Rightarrow>
                 set_default include (AtFile (filename @ '':'' @ str_int (int linenum))) d)
             (List.enumerate 1 (split_lines content [])) d))"

definition HEADERS_CONTAINING_TEMPLATES :: "(string \<times> string list) list" where
  "HEADERS_CONTAINING_TEMPLATES = [
    (''<deque>'', [''deque'']),
    (''<functional>'', [''unary_function'', ''binary_function'',
      ''plus'', ''minus'', ''multiplies'', ''divides'', ''modulus'', ''negate'',
      ''equal_to'', ''not_equal_to'', ''greater'', ''less'', ''greater_equal'', ''less_equal'',
      ''logical_and'', ''logical_or'', ''logical_not'',
      ''unary_negate'', ''not1'', ''binary_negate'', ''not2'', ''bind1st'', ''bind2nd'',
      ''pointer_to_unary_function'', ''pointer_to_binary_function'', ''ptr_fun'',
      ''mem_fun_t'', ''mem_fun'', ''mem_fun1_t'', ''mem_fun1_ref_t'', ''mem_fun_ref_t'',
      ''const_mem_fun_t'', ''const_mem_fun1_t'', ''const_mem_fun_ref_t'', ''const_mem_fun1_ref_t'',
      ''mem_fun_ref'']),
    (''<limits>'', [''numeric_limits'']),
    (''<list>'', [''list'']),
    (''<map>'', [''map'', ''multimap'']),
    (''<memory>'', [''allocator'']),
    (''<queue>'', [''queue'', ''priority_queue'']),
    (''<set>'', [''set'', ''multiset'']),
    (''<stack>'', [''stack'']),
    (''<string>'', [''char_traits'', ''basic_string'']),
    (''<utility>'', [''pair'']),
    (''<vector>'', [''vector'']),
    (''<hash_map>'', [''hash_map'', ''hash_multimap'']),
    (''<hash_set>'', [''hash_set'', ''hash_multiset'']),
    (''<slist>'', [''slist''])]"

definition HEADERS_ACCEPTED_BUT_NOT_PROMOTED :: "(string \<times> string list) list" where
  "HEADERS_ACCEPTED_BUT_NOT_PROMOTED =
     [(''pair<>'', [''map'', ''multimap'', ''hash_map'', ''hash_multimap''])]"

definition RE_PATTERN_STRING :: regex where
  "RE_PATTERN_STRING = rx ''`bstring`b''"

text \<open>The compiled patterns, each with the entity it stands for and the header that provides it.\<close>

type_synonym use_pattern = "regex \<times> string \<times> string"

definition re_pattern_algorithm_header :: "use_pattern list" where
  "re_pattern_algorithm_header =
     map (\<lambda>t. (rx (''[^>.]`b'' @ t @ ''(<.*?>)?`([^`)]''), t, ''<algorithm>''))
       [''copy'', ''max'', ''min'', ''min_element'', ''sort'', ''swap'', ''transform'']"

definition re_pattern_templates :: "use_pattern list" where
  "re_pattern_templates =
     concat (map (\<lambda>(header, templates).
       map (\<lambda>t. (rx (''(`<|`b)'' @ t @ ''`s*`<''), t @ ''<>'', header)) templates)
       HEADERS_CONTAINING_TEMPLATES)"

text \<open>\<open>required\<close>: header name to line number and entity.\<close>

type_synonym required = "(string \<times> nat \<times> string) list"

definition require_matches :: "nat \<Rightarrow> string \<Rightarrow> use_pattern list \<Rightarrow> required \<Rightarrow> required" where
  "require_matches linenum line pats r =
     fold (\<lambda>(pattern, template, header) r.
       if re_search pattern line \<noteq> None then AList.update header (linenum, template) r else r) pats r"

definition uses_std_string :: "string \<Rightarrow> bool" where
  "uses_std_string line =
     (case re_search RE_PATTERN_STRING line of None \<Rightarrow> False
      | Some m \<Rightarrow> (let pre = take (m_start m) line in endswith pre ''std::'' \<or> \<not> endswith pre ''::''))"

definition required_step :: "nat \<Rightarrow> string \<Rightarrow> required \<Rightarrow> required" where
  "required_step linenum line r =
     (if line = [] \<or> line ! 0 = CHR ''#'' then r
      else
        (let r = (if uses_std_string line
                  then AList.update ''<string>'' (linenum, ''string'') r else r);
             r = require_matches linenum line re_pattern_algorithm_header r
         in if \<not> str_in line ''<'' then r
            else require_matches linenum line re_pattern_templates r))"

definition required_headers :: "cleansed_lines \<Rightarrow> required" where
  "required_headers clean_lines =
     fold (\<lambda>(linenum, line). required_step linenum line) (List.enumerate 0 (elided clean_lines)) []"

text \<open>The module's own headers are read, and what they include counts as included.\<close>

definition own_headers ::
  "environment \<Rightarrow> string \<Rightarrow> string list \<Rightarrow> include_dict \<Rightarrow> bool \<times> include_dict" where
  "own_headers env abs_filename headers d =
     fold (\<lambda>header (header_found, d).
       let (same_module, common_path) = FilesBelongToSameModule abs_filename header in
       if same_module then
         (let (ok, d) = UpdateIncludeState env (common_path @ header) d in (header_found \<or> ok, d))
       else (header_found, d)) headers (False, d)"

definition accepted_instead :: "string \<Rightarrow> include_dict \<Rightarrow> bool" where
  "accepted_instead template d =
     (case map_of HEADERS_ACCEPTED_BUT_NOT_PROMOTED template of None \<Rightarrow> False
      | Some headers \<Rightarrow> (\<exists>h\<in>set headers. map_of d h \<noteq> None))"

definition CheckForIncludeWhatYouUse ::
  "environment \<Rightarrow> (string list \<Rightarrow> string list) \<Rightarrow> string \<Rightarrow> cleansed_lines \<Rightarrow> include_state \<Rightarrow> handler \<Rightarrow> check" where
  "CheckForIncludeWhatYouUse env dict_order filename clean_lines s error =
     (let required = required_headers clean_lines;
          abs_filename = re_sub (rx ''_flymake`.cc$'') ''.cc'' (abspath env filename);
          (header_found, d) = own_headers env abs_filename (dict_order (map fst (included s))) (included s)
      in if endswith filename ''.cc'' \<and> \<not> header_found then Inr
         else forE (dict_order (map fst required)) (\<lambda>header.
           let (linenum, template) = the (map_of required header) in
           only_if (\<not> accepted_instead template d \<and> map_of d (strip_chars header ''<>\"'') = None)
             (error filename (int linenum) ''build/include_what_you_use'' 4
               (''Add #include '' @ header @ '' for '' @ template))))"

section \<open>Order of the sections\<close>

fun order_messages :: "header_type list \<Rightarrow> include_state \<Rightarrow> string list" where
  "order_messages [] s = []"
| "order_messages (t # ts) s =
     (let (msg, s') = CheckNextIncludeOrder t s in msg # order_messages ts s')"

abbreviation my_header :: "header_type \<Rightarrow> bool" where
  "my_header t \<equiv> t = LIKELY_MY_HEADER \<or> t = POSSIBLE_MY_HEADER"

abbreviation not_system :: "header_type \<Rightarrow> bool" where
  "not_system t \<equiv> t \<noteq> C_SYS_HEADER \<and> t \<noteq> CPP_SYS_HEADER"

lemmas section_less = less_eq_include_section_def less_include_section_def

lemma order_messages_from:
  "set (order_messages ts s) \<subseteq> {[]} \<longleftrightarrow>
     list_all not_system (case section_of s of
         C_SECTION \<Rightarrow> dropWhile (\<lambda>t. t = CPP_SYS_HEADER) (dropWhile (\<lambda>t. t = C_SYS_HEADER) ts)
       | CPP_SECTION \<Rightarrow> dropWhile (\<lambda>t. t = CPP_SYS_HEADER) ts
       | OTHER_H_SECTION \<Rightarrow> ts
       | _ \<Rightarrow> dropWhile (\<lambda>t. t = CPP_SYS_HEADER)
                (dropWhile (\<lambda>t. t = C_SYS_HEADER) (dropWhile my_header ts)))"
proof (induction ts arbitrary: s)
  case Nil
  then show ?case by (simp split: include_section.split)
next
  case (Cons t ts)
  show ?case
    by (cases t; cases "section_of s")
      (auto simp: CheckNextIncludeOrder_def Let_def section_less Cons.IH)
qed

section \<open>Alphabetical order\<close>

fun order_flags :: "string list \<Rightarrow> include_state \<Rightarrow> bool list" where
  "order_flags [] s = []"
| "order_flags (h # hs) s = (let (ok, s') = IsInAlphabeticalOrder h s in ok # order_flags hs s')"

lemma order_flags_from:
  "set (order_flags hs s) \<subseteq> {True} \<longleftrightarrow>
     sorted (last_header s # map CanonicalizeAlphabeticalOrder hs)"
proof (induction hs arbitrary: s)
  case (Cons h hs)
  let ?c = "CanonicalizeAlphabeticalOrder h"
  show ?case
  proof (cases "last_header s > ?c")
    case True
    then show ?thesis by (auto simp: IsInAlphabeticalOrder_def)
  next
    case False
    then have "last_header s \<le> ?c" by simp
    with False Cons.IH [of "s\<lparr>last_header := ?c\<rparr>"] show ?thesis
      by (auto simp: IsInAlphabeticalOrder_def intro: order_trans [OF \<open>last_header s \<le> ?c\<close>])
  qed
qed simp

section \<open>The dictionary of includes\<close>

text \<open>The checks of the include lines of a file, in order.\<close>

fun check_includes ::
  "environment \<Rightarrow> string \<Rightarrow> cleansed_lines \<Rightarrow> handler \<Rightarrow> nat list \<Rightarrow> include_state \<times> lint
     \<Rightarrow> (include_state \<times> lint) result" where
  "check_includes env fn cl error [] sg = Inr sg"
| "check_includes env fn cl error (n # ns) sg =
     bindE (CheckIncludeLine env fn cl n error (fst sg) (snd sg)) (check_includes env fn cl error ns)"

lemma check_includes_append:
  "check_includes env fn cl error (ns @ ms) sg =
     bindE (check_includes env fn cl error ns sg) (check_includes env fn cl error ms)"
  by (induction ns arbitrary: sg) (auto simp: bindE_def split: sum.splits)

lemma CheckNextIncludeOrder_included [simp]:
  "included (snd (CheckNextIncludeOrder t s)) = included s"
  by (auto simp: CheckNextIncludeOrder_def Let_def split: header_type.split)

lemma IsInAlphabeticalOrder_included [simp]:
  "included (snd (IsInAlphabeticalOrder h s)) = included s"
  by (simp add: IsInAlphabeticalOrder_def Let_def)

lemma include_ast:
  "RE_PATTERN_INCLUDE = Cat Bol (Cat (Rep True 0 None (Class False [SpaceChar])) (Cat (Lit CHR ''#'')
     (Cat (Rep True 0 None (Class False [SpaceChar])) (Cat (Lit CHR ''i'') (Cat (Lit CHR ''n'')
     (Cat (Lit CHR ''c'') (Cat (Lit CHR ''l'') (Cat (Lit CHR ''u'') (Cat (Lit CHR ''d'') (Cat (Lit CHR ''e'')
     (Cat (Rep True 0 None (Class False [SpaceChar]))
     (Cat (Group 1 (Class False [One CHR ''<'', One CHR 0x22]))
     (Cat (Group 2 (Rep True 0 None (Class True [One CHR ''>'', One CHR 0x22])))
     (Cat (Class False [One CHR ''>'', One CHR 0x22]) (Cat (Rep True 0 None Any) Eol)))))))))))))))"
  by code_simp

lemma include_groups:
  assumes "re_search RE_PATTERN_INCLUDE line = Some m"
  shows "\<exists>h. m_group m 2 = Some h"
proof -
  from re_search_sem [OF assms] obtain t u st where s: "sem RE_PATTERN_INCLUDE (MS (rev t) u []) st"
    and m: "m_caps m = caps st" by auto
  from drop_plain_sem [OF s] obtain st1 where
    "sem (drop_plain RE_PATTERN_INCLUDE) st1 st" by auto
  then have "\<exists>k x. map_of (caps st) 2 = Some (k, x)"
    unfolding include_ast by (auto simp: eats_iff capture_def dest!: rep_eats)
  then show ?thesis using m by (auto simp: m_group_def)
qed

lemma CheckIncludeLine_included:
  assumes "CheckIncludeLine env fn cl n error s g = Inr (s', g')"
  shows "included s' = (case include_of (lines_of cl ! n) of None \<Rightarrow> included s
    | Some h \<Rightarrow> set_default h (AtLine (int n)) (included s))"
proof -
  from assms have n: "n < length (lines_of cl)"
    by (cases "n < length (lines_of cl)") (auto simp: CheckIncludeLine_def)
  show ?thesis
  proof (cases "re_search RE_PATTERN_INCLUDE (lines_of cl ! n)")
    case None
    with assms n show ?thesis
      by (auto simp: CheckIncludeLine_def include_of_def bindE_eq_Inr)
  next
    case (Some m)
    then obtain h where h: "m_group m 2 = Some h" using include_groups by blast
    show ?thesis
    proof (cases "map_of (included s) h")
      case None
      let ?s = "s\<lparr>included := AList.update h (AtLine (int n)) (included s)\<rparr>"
      from assms n Some h None obtain kind g1 where
        "(let (error_message, s) = CheckNextIncludeOrder kind ?s in
          bindE (if error_message \<noteq> [] then
                  bindE (BaseName env fn) (\<lambda>base. error fn (int n) ''build/include_order'' 4
                    (error_message @ ''. Should be: '' @ base @ ''.h, c system, c++ system, other.'') g1)
                else Inr g1) (\<lambda>g. let (in_order, s) = IsInAlphabeticalOrder h s in
          with_include s (only_if (\<not> in_order)
            (error fn (int n) ''build/include_alpha'' 4
              (''Include \"'' @ h @ ''\" not in alphabetical order'')) g))) = Inr (s', g')"
        by (auto simp: CheckIncludeLine_def bindE_eq_Inr Let_def [of "the (m_group m 2)"]
            Let_def [of "s\<lparr>included := _\<rparr>"] Let_def [of "m_group m 1 = _"])
      then have "s' = snd (IsInAlphabeticalOrder h (snd (CheckNextIncludeOrder kind ?s)))"
        by (cases "CheckNextIncludeOrder kind ?s"; cases "IsInAlphabeticalOrder h (snd (CheckNextIncludeOrder kind ?s))")
          (auto simp: bindE_eq_Inr with_include_def)
      with Some h None show ?thesis by (simp add: include_of_def set_default_def)
    next
      case (Some loc)
      with assms n \<open>re_search _ _ = Some m\<close> h show ?thesis
        by (auto simp: CheckIncludeLine_def bindE_eq_Inr Let_def with_include_def include_of_def set_default_def)
    qed
  qed
qed

lemma map_of_set_default:
  "map_of (set_default k v d) x = (if x = k \<and> map_of d k = None then Some v else map_of d x)"
  by (auto simp: set_default_def update_conv')

section \<open>Names and modules\<close>

lemma endswith_rev: "endswith s p \<longleftrightarrow> startswith (rev s) (rev p)"
  by (auto simp: endswith_iff startswith_iff) (metis rev_append rev_rev_ident)+

lemma drop_end_append [simp]: "drop_end (s @ e) e = s"
  by (simp add: drop_end_def)

lemma str_replace_absent: "c \<notin> set s \<Longrightarrow> str_replace s (c # p) t = s"
  by (induction s) auto

lemma drop_suffix_hit:
  "sep \<in> {CHR ''-'', CHR ''_''} \<Longrightarrow> drop_suffix (s # ss) (name @ sep # s) = name"
  using endswith_append [of "name @ [sep]" s] by (simp add: nth_append)

lemma drop_suffix_skip: "\<not> endswith f s \<Longrightarrow> drop_suffix (s # ss) f = drop_suffix ss f"
  by simp

lemma drop_suffix_glued:
  "c \<notin> {CHR ''-'', CHR ''_''} \<Longrightarrow> drop_suffix (s # ss) (name @ c # s) = drop_suffix ss (name @ c # s)"
  by (simp add: nth_append)

lemma drop_suffixes:
  assumes "sep \<in> {CHR ''-'', CHR ''_''}"
    and "suf \<in> {''test.cc'', ''regtest.cc'', ''unittest.cc'', ''inl.h'', ''impl.h'', ''internal.h''}"
  shows "DropCommonSuffixes (name @ sep # suf) = name"
proof -
  note hit = drop_suffix_hit [OF assms(1)]
  have g1: "drop_suffix (''test.cc'' # ss) (name @ sep # ''regtest.cc'') = drop_suffix ss (name @ sep # ''regtest.cc'')"
    and g2: "drop_suffix (''test.cc'' # ss) (name @ sep # ''unittest.cc'') = drop_suffix ss (name @ sep # ''unittest.cc'')" for ss
    using drop_suffix_glued [of "CHR ''g''" "''test.cc''" ss "name @ sep # ''re''"]
      drop_suffix_glued [of "CHR ''t''" "''test.cc''" ss "name @ sep # ''uni''"] by simp_all
  from assms(2) show ?thesis
    unfolding DropCommonSuffixes_def
    by (elim insertE emptyE)
      (simp_all only: hit g1 g2 drop_suffix_skip endswith_rev rev.simps rev_append append.simps
        append_assoc startswith_simps char.inject simp_thms)
qed

lemma cc_module_variants:
  assumes "v \<in> {''.cc'', ''_test.cc'', ''_unittest.cc''}"
    and "\<not> endswith s ''_test''" and "\<not> endswith s ''_unittest''"
  shows "cc_module (s @ v) = str_replace (str_replace s ''/public/'' ''/'') ''/internal/'' ''/''"
proof -
  have d: "drop_end (s @ ''_test.cc'') ''.cc'' = s @ ''_test''"
    "drop_end (s @ ''_unittest.cc'') ''.cc'' = s @ ''_unittest''"
    using drop_end_append [of "s @ ''_test''" "''.cc''"] drop_end_append [of "s @ ''_unittest''" "''.cc''"] by simp_all
  have n: "\<not> endswith (s @ ''_test'') ''_unittest''" by (simp add: endswith_rev)
  have e: "drop_end (s @ ''_test'') ''_test'' = s" "drop_end (s @ ''_unittest'') ''_unittest'' = s" by simp_all
  show ?thesis using assms d n e by (auto simp: cc_module_def)
qed

lemma h_module_variants:
  assumes "w \<in> {''.h'', ''-inl.h''}" and "\<not> endswith s ''-inl''"
  shows "h_module (s @ w) = str_replace (str_replace s ''/public/'' ''/'') ''/internal/'' ''/''"
proof -
  have d: "drop_end (s @ ''-inl.h'') ''.h'' = s @ ''-inl''"
    using drop_end_append [of "s @ ''-inl''" "''.h''"] by simp
  have e: "drop_end (s @ ''-inl'') ''-inl'' = s" by simp
  show ?thesis using assms d e by (auto simp: h_module_def)
qed

lemma py_upto_all [simp]: "py_slice s 0 (- int (length s)) = []"
  by (auto simp: py_slice_def clip_def)

section \<open>What the file has to include\<close>

text \<open>The line uses an entity of the header.\<close>

definition pattern_hit :: "string \<Rightarrow> use_pattern list \<Rightarrow> string \<Rightarrow> bool" where
  "pattern_hit line pats h \<longleftrightarrow> (\<exists>p t. (p, t, h) \<in> set pats \<and> re_search p line \<noteq> None)"

definition uses_header :: "string \<Rightarrow> string \<Rightarrow> bool" where
  "uses_header line h \<longleftrightarrow> line \<noteq> [] \<and> line ! 0 \<noteq> CHR ''#'' \<and>
     (h = ''<string>'' \<and> uses_std_string line \<or> pattern_hit line re_pattern_algorithm_header h \<or>
      str_in line ''<'' \<and> pattern_hit line re_pattern_templates h)"

definition pair_ok :: "required \<Rightarrow> bool" where
  "pair_ok r \<longleftrightarrow> (\<forall>h n t. map_of r h = Some (n, t) \<longrightarrow> (t = ''pair<>'' \<longleftrightarrow> h = ''<utility>''))"

definition pair_pats :: "use_pattern list \<Rightarrow> bool" where
  "pair_pats pats \<longleftrightarrow> (\<forall>(p, t, h)\<in>set pats. t = ''pair<>'' \<longleftrightarrow> h = ''<utility>'')"

lemma pair_pats_templates: "pair_pats re_pattern_algorithm_header" "pair_pats re_pattern_templates"
  by (simp_all add: pair_pats_def re_pattern_algorithm_header_def re_pattern_templates_def
      HEADERS_CONTAINING_TEMPLATES_def)

lemma require_matches_spec:
  "pair_ok r \<Longrightarrow> pair_pats pats \<Longrightarrow> pair_ok (require_matches n line pats r) \<and>
     (map_of (require_matches n line pats r) h \<noteq> None \<longleftrightarrow> map_of r h \<noteq> None \<or> pattern_hit line pats h)"
proof (induction pats arbitrary: r)
  case Nil
  then show ?case by (simp add: require_matches_def pattern_hit_def)
next
  case (Cons pat pats)
  obtain p t k where pat: "pat = (p, t, k)" by (cases pat)
  let ?r = "if re_search p line \<noteq> None then AList.update k (n, t) r else r"
  have "require_matches n line (pat # pats) r = require_matches n line pats ?r"
    by (simp add: require_matches_def pat)
  moreover have "pair_ok ?r" using Cons.prems by (auto simp: pair_ok_def pair_pats_def pat update_conv')
  moreover have "map_of ?r h \<noteq> None \<longleftrightarrow> map_of r h \<noteq> None \<or> (h = k \<and> re_search p line \<noteq> None)"
    by (auto simp: update_conv')
  moreover have "pattern_hit line (pat # pats) h \<longleftrightarrow> (h = k \<and> re_search p line \<noteq> None) \<or> pattern_hit line pats h"
    by (auto simp: pattern_hit_def pat)
  ultimately show ?case
    using Cons.IH [of ?r] Cons.prems(2) by (auto simp: pair_pats_def)
qed

lemma required_step_spec:
  assumes "pair_ok r"
  shows "pair_ok (required_step n line r) \<and>
    (map_of (required_step n line r) h \<noteq> None \<longleftrightarrow> map_of r h \<noteq> None \<or> uses_header line h)"
proof -
  let ?r1 = "if uses_std_string line then AList.update ''<string>'' (n, ''string'') r else r"
  have 1: "pair_ok ?r1" using assms by (auto simp: pair_ok_def update_conv')
  note 2 = require_matches_spec [OF 1 pair_pats_templates(1), of n line]
  note 3 = require_matches_spec [OF conjunct1 [OF 2] pair_pats_templates(2), of n line]
  have "map_of ?r1 h \<noteq> None \<longleftrightarrow> map_of r h \<noteq> None \<or> (h = ''<string>'' \<and> uses_std_string line)"
    by (auto simp: update_conv')
  with 2 [of h] 3 [of h] assms show ?thesis by (auto simp: required_step_def uses_header_def Let_def)
qed

lemma required_headers_spec:
  "pair_ok (required_headers cl) \<and>
   (map_of (required_headers cl) h \<noteq> None \<longleftrightarrow> (\<exists>line\<in>set (elided cl). uses_header line h))"
proof -
  have "pair_ok r \<Longrightarrow>
      pair_ok (fold (\<lambda>(n, line). required_step n line) (List.enumerate k ls) r) \<and>
      (map_of (fold (\<lambda>(n, line). required_step n line) (List.enumerate k ls) r) h \<noteq> None \<longleftrightarrow>
        map_of r h \<noteq> None \<or> (\<exists>line\<in>set ls. uses_header line h))" for k r and ls :: "string list"
  proof (induction ls arbitrary: k r)
    case (Cons l ls)
    note step = required_step_spec [OF Cons.prems, of k l h]
    show ?case using Cons.IH [OF conjunct1 [OF step], of "Suc k"] conjunct2 [OF step]
      by (simp only: enumerate_simps fold_Cons prod.case o_def list.set bex_simps) blast
  qed simp
  from this [of "[]" 0 "elided cl"] show ?thesis
    unfolding required_headers_def by (simp add: pair_ok_def)
qed

lemma forE_silent_iff:
  "(\<forall>error :: handler. forE xs (\<lambda>x. only_if (b x) (error fn (ln x) cat conf (msg x))) g = Inr g) \<longleftrightarrow>
     (\<forall>x\<in>set xs. \<not> b x)"
proof
  assume l: "\<forall>error :: handler. forE xs (\<lambda>x. only_if (b x) (error fn (ln x) cat conf (msg x))) g = Inr g"
  have "\<exists>x\<in>set xs. b x \<Longrightarrow> forE xs (\<lambda>x. only_if (b x) (\<lambda>_. Inl AssertionError)) g = Inl AssertionError"
    for g :: lint
    by (induction xs arbitrary: g) (auto simp: only_if_def)
  note raises = this [of g]
  have "forE xs (\<lambda>x. only_if (b x) (\<lambda>_. Inl AssertionError)) g = Inr g"
    using l [THEN spec, of "\<lambda>_ _ _ _ _ _. Inl AssertionError"] .
  with raises show "\<forall>x\<in>set xs. \<not> b x" by (metis Inl_Inr_False)
next
  assume "\<forall>x\<in>set xs. \<not> b x"
  then show "\<forall>error :: handler. forE xs (\<lambda>x. only_if (b x) (error fn (ln x) cat conf (msg x))) g = Inr g"
    by (induction xs) auto
qed

section \<open>Properties\<close>

text \<open>
  C10: a sequence of headers is accepted without a message exactly when it consists of headers the
  file implements, then C system headers, then C++ system headers, then headers that are none of
  the system's.
\<close>

theorem include_order_accepts:
  "set (order_messages ts init_include_state) \<subseteq> {[]} \<longleftrightarrow>
     list_all not_system (dropWhile (\<lambda>t. t = CPP_SYS_HEADER)
       (dropWhile (\<lambda>t. t = C_SYS_HEADER) (dropWhile my_header ts)))"
  by (simp add: order_messages_from init_include_state_def)

text \<open>
  C18: a run of headers is in alphabetical order for the checker exactly when their canonical
  names (lower case, dashes as underscores, without \<open>-inl\<close>), behind the last header seen,
  are sorted.
\<close>

theorem alphabetical_iff_sorted:
  "set (order_flags hs s) \<subseteq> {True} \<longleftrightarrow>
     sorted (last_header s # map CanonicalizeAlphabeticalOrder hs)"
  by (rule order_flags_from)

text \<open>
  When the include lines of a file have been checked, the dictionary holds exactly the headers
  they name, each with the line of its first appearance.
\<close>

theorem includes_at_first_line:
  assumes "check_includes env fn cl error [0..<n] (init_include_state, g) = Inr (s', g')"
  shows "map_of (included s') h =
    map_option (\<lambda>i. AtLine (int i)) (List.find (\<lambda>i. include_of (lines_of cl ! i) = Some h) [0..<n])"
  using assms
proof (induction n arbitrary: s' g')
  case 0
  then show ?case by (auto simp: init_include_state_def)
next
  case (Suc n)
  then obtain s1 g1 where 1: "check_includes env fn cl error [0..<n] (init_include_state, g) = Inr (s1, g1)"
    and 2: "CheckIncludeLine env fn cl n error s1 g1 = Inr (s', g')"
    by (auto simp: check_includes_append bindE_eq_Inr)
  show ?case
    using Suc.IH [OF 1] CheckIncludeLine_included [OF 2]
    by (auto simp: find_append map_of_set_default split: option.splits)
qed

theorem includes_at_first_line_witness:
  "\<exists>s' g'. check_includes example_env ''a.cc''
       (CleansedLines [''#include <stdio.h>'', ''#include <vector>'', ''int x;'']) Error [0..<3]
       (init_include_state, init_lint) = Inr (s', g') \<and>
     map_of (included s') ''vector'' = Some (AtLine 1)"
proof -
  let ?cl = "CleansedLines [''#include <stdio.h>'', ''#include <vector>'', ''int x;'']"
  have "case check_includes example_env ''a.cc'' ?cl Error [0..<3] (init_include_state, init_lint) of
      Inl _ \<Rightarrow> False | Inr _ \<Rightarrow> True" by code_simp
  then obtain s' g' where run: "check_includes example_env ''a.cc'' ?cl Error [0..<3]
      (init_include_state, init_lint) = Inr (s', g')" by (auto split: sum.splits)
  have "List.find (\<lambda>i. include_of (lines_of ?cl ! i) = Some ''vector'') [0..<3] = Some 1" by code_simp
  with includes_at_first_line [OF run] run show ?thesis by auto
qed

text \<open>
  Dropping the common suffixes undoes adding one of them behind a dash or an underscore.
\<close>

theorem DropCommonSuffixes_drops:
  assumes "suf \<in> {''test.cc'', ''regtest.cc'', ''unittest.cc'', ''inl.h'', ''impl.h'', ''internal.h''}"
    and "sep \<in> {CHR ''-'', CHR ''_''}"
  shows "DropCommonSuffixes (name @ sep # suf) = name"
  using assms drop_suffixes by blast

theorem DropCommonSuffixes_drops_witness:
  "DropCommonSuffixes ''foo/bar_unittest.cc'' = ''foo/bar''"
  using DropCommonSuffixes_drops [of "''unittest.cc''" "CHR ''_''" "''foo/bar''"] by simp

text \<open>
  The source of a module and its tests belong to the same module as its header and its inline
  header, and the header is then opened under its own name.
\<close>

theorem same_module_variants:
  assumes "v \<in> {''.cc'', ''_test.cc'', ''_unittest.cc''}" and "w \<in> {''.h'', ''-inl.h''}"
    and "\<not> endswith s ''_test''" and "\<not> endswith s ''_unittest''" and "\<not> endswith s ''-inl''"
  shows "FilesBelongToSameModule (s @ v) (s @ w) = (True, [])"
proof -
  have "endswith (s @ v) ''.cc''" "endswith (s @ w) ''.h''"
    using assms(1,2) by (auto simp: endswith_rev)
  then show ?thesis
    using cc_module_variants [OF assms(1,3,4)] h_module_variants [OF assms(2,5)]
    by (simp add: FilesBelongToSameModule_def)
qed

theorem same_module_variants_witness:
  "FilesBelongToSameModule ''/w/base/sysinfo_unittest.cc'' ''/w/base/sysinfo-inl.h'' = (True, [])"
  using same_module_variants [of "''_unittest.cc''" "''-inl.h''" "''/w/base/sysinfo''"]
  by (simp add: endswith_rev)

text \<open>
  The comparison is one of suffixes of names, not of path components: a source file belongs
  to the module of every header whose name ends its own name, in whatever place it is cut.
\<close>

theorem same_module_by_suffix:
  assumes "CHR ''/'' \<notin> set (x @ s)" and "s \<noteq> []"
    and "\<not> endswith (x @ s) ''_test''" and "\<not> endswith (x @ s) ''_unittest''" and "\<not> endswith s ''-inl''"
  shows "FilesBelongToSameModule (x @ s @ ''.cc'') (s @ ''.h'') = (True, x)"
proof -
  have r: "str_replace (str_replace t ''/public/'' ''/'') ''/internal/'' ''/'' = t"
    if "CHR ''/'' \<notin> set t" for t using that by (simp add: str_replace_absent)
  have "cc_module ((x @ s) @ ''.cc'') = x @ s"
    using cc_module_variants [of "''.cc''" "x @ s"] assms r by simp
  moreover have "h_module (s @ ''.h'') = s"
    using h_module_variants [of "''.h''" s] assms r [of s] by simp
  moreover have "py_upto (x @ s) (- int (length s)) = x"
    using assms(2) by (simp add: py_upto_neg)
  moreover have "endswith ((x @ s) @ ''.cc'') ''.cc''" "endswith (x @ s) s"
    by (rule endswith_append)+
  ultimately show ?thesis by (simp add: FilesBelongToSameModule_def)
qed

theorem same_module_by_suffix_witness:
  "FilesBelongToSameModule ''handlebar.cc'' ''bar.h'' = (True, ''handle'')"
  using same_module_by_suffix [of "''handle''" "''bar''"] by (simp add: endswith_rev)

text \<open>
  C19: the check for the headers a file should include is silent, whatever the handler does and in
  whatever order the dictionaries are walked, exactly when no header of the module could be read
  for a source file, or every header whose entities the text uses is included; for
  \<open>utility\<close> one of the map headers does as well.
\<close>

theorem include_what_you_use_silent_iff:
  assumes "\<And>ks. set (dict_order ks) = set ks"
  shows "(\<forall>error. CheckForIncludeWhatYouUse env dict_order fn cl s error g = Inr g) \<longleftrightarrow>
    (let (header_found, d) = own_headers env (re_sub (rx ''_flymake`.cc$'') ''.cc'' (abspath env fn))
           (dict_order (map fst (included s))) (included s)
     in endswith fn ''.cc'' \<and> \<not> header_found \<or>
        (\<forall>line\<in>set (elided cl). \<forall>h. uses_header line h \<longrightarrow> map_of d (strip_chars h ''<>\"'') \<noteq> None \<or>
           h = ''<utility>'' \<and> accepted_instead ''pair<>'' d))"
proof -
  let ?r = "required_headers cl"
  obtain found d where own: "own_headers env (re_sub (rx ''_flymake`.cc$'') ''.cc'' (abspath env fn))
      (dict_order (map fst (included s))) (included s) = (found, d)" by fastforce
  note spec = required_headers_spec [of cl]
  have keys: "h \<in> set (dict_order (map fst ?r)) \<longleftrightarrow> map_of ?r h \<noteq> None" for h
    using assms [of "map fst ?r"] by (auto simp: map_of_eq_None_iff)
  have pair: "accepted_instead t d \<longleftrightarrow> h = ''<utility>'' \<and> accepted_instead ''pair<>'' d"
    if "map_of ?r h = Some (n, t)" for h n t
  proof (cases "t = ''pair<>''")
    case True
    then show ?thesis using spec that by (auto simp: pair_ok_def)
  next
    case False
    then have "h \<noteq> ''<utility>''" "\<not> accepted_instead t d"
      using spec that by (auto simp: pair_ok_def accepted_instead_def HEADERS_ACCEPTED_BUT_NOT_PROMOTED_def)
    then show ?thesis by blast
  qed
  let ?b = "\<lambda>h. \<not> accepted_instead (snd (the (map_of ?r h))) d \<and> map_of d (strip_chars h ''<>\"'') = None"
  let ?ln = "\<lambda>h. int (fst (the (map_of ?r h)))"
  let ?msg = "\<lambda>h. ''Add #include '' @ h @ '' for '' @ snd (the (map_of ?r h))"
  have check: "CheckForIncludeWhatYouUse env dict_order fn cl s error g =
      (if endswith fn ''.cc'' \<and> \<not> found then Inr g
       else forE (dict_order (map fst ?r)) (\<lambda>h. only_if (?b h)
         (error fn (?ln h) ''build/include_what_you_use'' 4 (?msg h))) g)" for error
    by (simp add: CheckForIncludeWhatYouUse_def own Let_def case_prod_beta)
  have "(\<forall>h\<in>set (dict_order (map fst ?r)). \<not> ?b h) \<longleftrightarrow>
      (\<forall>line\<in>set (elided cl). \<forall>h. uses_header line h \<longrightarrow> map_of d (strip_chars h ''<>\"'') \<noteq> None \<or>
           h = ''<utility>'' \<and> accepted_instead ''pair<>'' d)"
  proof -
    let ?ok = "\<lambda>h. map_of d (strip_chars h ''<>\"'') \<noteq> None \<or> h = ''<utility>'' \<and> accepted_instead ''pair<>'' d"
    have ok: "\<not> ?b h \<longleftrightarrow> ?ok h" if "map_of ?r h \<noteq> None" for h
    proof -
      from that obtain n t where "map_of ?r h = Some (n, t)" by auto
      with pair [OF this] show ?thesis by auto
    qed
    have "(\<forall>h\<in>set (dict_order (map fst ?r)). \<not> ?b h) \<longleftrightarrow> (\<forall>h. map_of ?r h \<noteq> None \<longrightarrow> ?ok h)"
      using keys ok by blast
    also have "\<dots> \<longleftrightarrow> (\<forall>line\<in>set (elided cl). \<forall>h. uses_header line h \<longrightarrow> ?ok h)"
      using spec by blast
    finally show ?thesis .
  qed
  note eq = this
  note silent = forE_silent_iff [of "dict_order (map fst ?r)" ?b fn ?ln "''build/include_what_you_use''" 4 ?msg g]
  show ?thesis
  proof (cases "endswith fn ''.cc'' \<and> \<not> found")
    case True
    then show ?thesis by (simp add: own check)
  next
    case False
    then show ?thesis
      unfolding own Let_def prod.case check if_not_P [OF False] silent eq by blast
  qed
qed

theorem include_what_you_use_silent_iff_witness:
  "CheckForIncludeWhatYouUse example_env id ''src/a.h'' (CleansedLines [''std::string s;''])
     (init_include_state\<lparr>included := [(''string'', AtLine 0)]\<rparr>) Error init_lint = Inr init_lint"
proof -
  let ?cl = "CleansedLines [''std::string s;'']"
  let ?s = "init_include_state\<lparr>included := [(''string'', AtLine 0)]\<rparr>"
  have order: "set (id ks) = set ks" for ks :: "string list" by simp
  have req: "required_headers ?cl = [(''<string>'', 0, ''string'')]" by code_simp
  have own: "own_headers example_env (re_sub (rx ''_flymake`.cc$'') ''.cc'' (abspath example_env ''src/a.h''))
      (id (map fst (included ?s))) (included ?s) = (False, [(''string'', AtLine 0)])" by code_simp
  have only: "h = ''<string>''" if "line \<in> set (elided ?cl)" "uses_header line h" for line h
    using required_headers_spec [of ?cl h] that unfolding req by (auto split: if_splits)
  have "strip_chars ''<string>'' ''<>\"'' = ''string''" by code_simp
  then have "\<forall>line\<in>set (elided ?cl). \<forall>h. uses_header line h \<longrightarrow>
      map_of [(''string'', AtLine 0)] (strip_chars h ''<>\"'') \<noteq> None \<or>
      h = ''<utility>'' \<and> accepted_instead ''pair<>'' [(''string'', AtLine 0)]"
    using only by fastforce
  then have "\<forall>error. CheckForIncludeWhatYouUse example_env id ''src/a.h'' ?cl ?s error init_lint = Inr init_lint"
    unfolding include_what_you_use_silent_iff [OF order, of example_env "''src/a.h''" ?cl ?s init_lint]
      own Let_def prod.case by blast
  then show ?thesis ..
qed

end
