(* ===== verification/Lint_Language.thy ===== *)
theory Lint_Language
  imports Lint_Style Lint_Include
begin

text \<open>
  The language checks of a line: \<open>CheckCStyleCast\<close> and \<open>CheckLanguage\<close>, with its
  scan of the tokens of an array size. The lemmas give the verdict of that scan, the delimiter it
  misses, and what the checks rely on not to raise.
\<close>

section \<open>Casts\<close>

definition CheckCStyleCast ::
  "string \<Rightarrow> nat \<Rightarrow> string \<Rightarrow> string \<Rightarrow> string \<Rightarrow> regex \<Rightarrow> handler \<Rightarrow> check" where
  "CheckCStyleCast filename linenum line raw_line cast_type pattern error =
     (case re_search pattern line of
        None \<Rightarrow> Inr
      | Some m \<Rightarrow>
          if matched ''.*sizeof`s*$'' (py_slice line 0 (m_group_start m 1 - 1)) then
            error filename (int linenum) ''runtime/sizeof'' 1
              ''Using sizeof(type).  Use sizeof(varname) instead if possible''
          else
            (case re_match (rx ''`s*(`)|=|(const)?`s*(;|`{|throw`(`)))'') (drop (m_end m) line) of
               Some f \<Rightarrow>
                 only_if (group_text f 3 = [] \<or> group_text f 3 = '';'' \<or> \<not> str_in raw_line ''/*'')
                   (error filename (int linenum) ''readability/function'' 3
                     ''All parameters should be named in a function'')
             | None \<Rightarrow>
                 error filename (int linenum) ''readability/casting'' 4
                   (''Using C-style cast.  Use '' @ cast_type @ ''<'' @ group_text m 1 @ ''>(...) instead'')))"

section \<open>Array sizes\<close>

definition RE_SIZE_DELIMITER :: regex where
  "RE_SIZE_DELIMITER = rx ''`s|`+|`-|`*|`/|<<|>>]''"

text \<open>\<open>False\<close> at the first token that is no compile-time constant.\<close>

fun constant_tokens :: "string list \<Rightarrow> bool \<Rightarrow> bool" where
  "constant_tokens [] skip_next = True"
| "constant_tokens (tok0 # toks) skip_next =
     (if skip_next then constant_tokens toks False
      else if found ''sizeof`(.+`)'' tok0 \<or> found ''arraysize`(`w+`)'' tok0 then constant_tokens toks False
      else
        (let tok = rstrip_chars (lstrip_chars tok0 ''('') '')'' in
         if tok = [] \<or> matched ''`d+'' tok \<or> matched ''0[xX][0-9a-fA-F]+'' tok \<or>
            matched ''k[A-Z0-9]`w*'' tok \<or> matched ''(.+::)?k[A-Z0-9]`w*'' tok \<or>
            matched ''(.+::)?[A-Z][A-Z0-9_]*'' tok
         then constant_tokens toks False
         else if startswith tok ''sizeof'' then constant_tokens toks True
         else False))"

definition constant_size :: "string \<Rightarrow> bool" where
  "constant_size size_text = constant_tokens (re_split RE_SIZE_DELIMITER size_text) False"

section \<open>The language checks\<close>

definition count_matches :: "string \<Rightarrow> string \<Rightarrow> nat" where
  "count_matches p s = length (find_all (rx p) s)"

definition mutable_reference :: "string \<Rightarrow> bool" where
  "mutable_reference fnline \<longleftrightarrow>
     count_matches ''`([^()]*`b(?:[`w:]|<[^()]*>)+(`s?&|&`s?)`w+'' fnline >
       count_matches (''`([^()]*`bconst`s+(?:typename`s+)?(?:struct`s+)?''
         @ ''(?:[`w:]|<[^()]*>)+(`s?&|&`s?)`w+'') fnline +
       count_matches ''`([^()]*`b(?:[`w:]|<[^()]*>)+`s+const(`s?&|&`s?)[`w]+'' fnline \<and>
     \<not> found ''(swap|Swap|operator[<>][<>])`s*`(`s*(?:[`w:]|<.*>)+`s*&'' fnline"

definition check_casts :: "string \<Rightarrow> string \<Rightarrow> string \<Rightarrow> nat \<Rightarrow> handler \<Rightarrow> check list" where
  "check_casts filename line raw_line linenum error = [
     (case re_search (rx (''(`bnew`s+)?`b''
              @ ''(int|float|double|bool|char|int32|uint32|int64|uint64)`([^)]'')) line of
        None \<Rightarrow> Inr
      | Some m \<Rightarrow> only_if (m_group m 1 = None \<and> \<not> matched ''^`s*MOCK_(CONST_)?METHOD`d+(_T)?`('' line)
          (error filename (int linenum) ''readability/casting'' 4
            (''Using deprecated casting style.  Use static_cast<'' @ group_text m 2 @ ''>(...) instead''))),
     CheckCStyleCast filename linenum line raw_line ''static_cast''
       (rx ''`((int|float|double|bool|char|u?int(16|32|64))`)'') error,
     CheckCStyleCast filename linenum line raw_line ''reinterpret_cast'' (rx ''`((`w+`s?`*+`s?)`)'') error,
     only_if (found ''(&`([^)]+`)[`w(])|(&(static|dynamic|reinterpret)_cast`b)'' line)
       (error filename (int linenum) ''runtime/casting'' 4
         (''Are you taking an address of a cast?  '' @ ''This is dangerous: could be a temp var.  ''
          @ ''Take the address before doing the cast, rather than after''))]"

definition check_members :: "string \<Rightarrow> string \<Rightarrow> nat \<Rightarrow> handler \<Rightarrow> check list" where
  "check_members filename line linenum error = [
     (case re_match (rx ''((?:|static +)(?:|const +))string +([a-zA-Z0-9_:]+)`b(.*)'') line of
        None \<Rightarrow> Inr
      | Some m \<Rightarrow> only_if (\<not> matched ''`s*(<.*>)?(::[a-zA-Z0-9_]+)?`s*`(([^\"]|$)'' (group_text m 3))
          (error filename (int linenum) ''runtime/string'' 4
            (''For a static/global string constant, use a C style string instead: ''
             @ ''\"'' @ group_text m 1 @ ''char '' @ group_text m 2 @ ''[]\".''))),
     only_if (found ''`bdynamic_cast<'' line \<and> \<not> IsTestFilename filename)
       (error filename (int linenum) ''runtime/rtti'' 5
         (''Do not use dynamic_cast<>.  If you need to cast within a class ''
          @ ''hierarchy, use static_cast<> to upcast.  Google doesn'' @ CHR 0x27 # ''t support RTTI.'')),
     only_if (found ''`b([A-Za-z0-9_]*_)`(`1`)'' line)
       (error filename (int linenum) ''runtime/init'' 4
         ''You seem to be initializing a member variable with itself.''),
     only_if (found ''`bshort port`b'' line \<and> \<not> found ''`bunsigned short port`b'' line)
       (error filename (int linenum) ''runtime/int'' 4 ''Use \"unsigned short\" for ports, not \"short\"'')]"

definition check_calls :: "string \<Rightarrow> string \<Rightarrow> nat \<Rightarrow> handler \<Rightarrow> check list" where
  "check_calls filename line linenum error =
    (let report = (\<lambda>b cat conf msg. only_if b (error filename (int linenum) cat conf msg)) in [
     (case re_search (rx ''snprintf`s*`(([^,]*),`s*([0-9]*)`s*,'') line of
        None \<Rightarrow> Inr
      | Some m \<Rightarrow> report (m_group m 2 \<noteq> Some ''0'') ''runtime/printf'' 3
          (''If you can, use sizeof('' @ group_text m 1 @ '') instead of '' @ group_text m 2
           @ '' as the 2nd arg to snprintf.'')),
     report (found ''`bsprintf`b'' line) ''runtime/printf'' 5 ''Never use sprintf.  Use snprintf instead.'',
     (case re_search (rx ''`b(strcpy|strcat)`b'') line of
        None \<Rightarrow> Inr
      | Some m \<Rightarrow> report True ''runtime/printf'' 4 (''Almost always, snprintf is better than '' @ group_text m 1)),
     report (found ''`bsscanf`b'' line) ''runtime/printf'' 1
       ''sscanf can be ok, but is slow and can overflow buffers.'',
     report (found ''`boperator`s*&`s*`(`s*`)'' line) ''runtime/operator'' 4
       ''Unary operator& is dangerous.  Do not use it.'',
     report (found ''`}`s*if`s*`('' line) ''readability/braces'' 4
       ''Did you mean \"else if\"? If not, start a new line for \"if\".'',
     (case re_search (ignore_case (rx ''`b((?:string)?printf)`s*`(([`w.`->()]+)`)'')) line of
        None \<Rightarrow> Inr
      | Some m \<Rightarrow> report True ''runtime/printf'' 4
          (''Potential format string bug. Do '' @ group_text m 1 @ ''(\"%s\", '' @ group_text m 2 @ '') instead.'')),
     (case re_search (rx ''memset`s*`(([^,]*),`s*([^,]*),`s*0`s*`)'') line of
        None \<Rightarrow> Inr
      | Some m \<Rightarrow>
          report (\<not> matched (CHR ''^'' # CHR 0x27 # CHR 0x27 # ''|-?[0-9]+|0x[0-9A-Fa-f]$'') (group_text m 2))
            ''runtime/memset'' 4
            (''Did you mean \"memset('' @ group_text m 1 @ '', 0, '' @ group_text m 2 @ '')\"?'')),
     report (found ''`busing namespace`b'' line) ''build/namespaces'' 5
       (''Do not use namespace using-directives.  '' @ ''Use using-declarations instead.'')])"

definition check_array :: "string \<Rightarrow> string \<Rightarrow> nat \<Rightarrow> handler \<Rightarrow> check" where
  "check_array filename line linenum error =
     (case re_match (rx ''`s*(.+::)?(`w+) [a-z]`w*`[(.+)];'') line of
        None \<Rightarrow> Inr
      | Some m \<Rightarrow>
          only_if (group_text m 2 \<noteq> ''return'' \<and> group_text m 2 \<noteq> ''delete'' \<and>
              \<not> str_in (group_text m 3) '']'' \<and> \<not> constant_size (group_text m 3))
            (error filename (int linenum) ''runtime/arrays'' 1
              (''Do not use variable-length arrays.  Use an appropriately named ''
               @ ''('' @ CHR 0x27 # ''k'' @ CHR 0x27 # '' followed by CamelCase) compile-time constant for the size.'')))"

definition check_disallow :: "string \<Rightarrow> cleansed_lines \<Rightarrow> string \<Rightarrow> nat \<Rightarrow> handler \<Rightarrow> check" where
  "check_disallow filename clean_lines line linenum error g =
     (case re_match (rx (''`s*(DISALLOW_(EVIL_CONSTRUCTORS|COPY_AND_ASSIGN|IMPLICIT_CONSTRUCTORS))''
              @ ''`(.*`);$'')) line of
        None \<Rightarrow> Inr g
      | Some m \<Rightarrow>
          if linenum + 1 < NumLines clean_lines then
            bindE (py_index (elided clean_lines) (int linenum + 1)) (\<lambda>next_line.
              only_if (\<not> found ''^`s*};'' next_line)
                (error filename (int linenum) ''readability/constructors'' 3
                  (group_text m 1 @ '' should be the last thing in the class'')) g)
          else Inr g)"

definition language_checks ::
  "string \<Rightarrow> cleansed_lines \<Rightarrow> string \<Rightarrow> string \<Rightarrow> nat \<Rightarrow> string \<Rightarrow> handler \<Rightarrow> check list" where
  "language_checks filename clean_lines line raw_line linenum file_extension error =
     [only_if (mutable_reference (takeWhile (\<lambda>c. c \<noteq> CHR ''{'') line))
        (error filename (int linenum) ''runtime/references'' 2
          (''Is this a non-const reference? '' @ ''If so, make const or use a pointer.''))]
     @ check_casts filename line raw_line linenum error
     @ check_members filename line linenum error
     @ check_calls filename line linenum error
     @ [check_array filename line linenum error,
        check_disallow filename clean_lines line linenum error,
        only_if (file_extension = ''h'' \<and> found ''`bnamespace`s*{'' line \<and> last line \<noteq> backslash)
          (error filename (int linenum) ''build/namespaces'' 4
            (''Do not use unnamed namespaces in header files.  See ''
             @ ''http://google-styleguide.googlecode.com/svn/trunk/cppguide.xml#Namespaces''
             @ '' for more information.''))]"

definition CheckLanguage ::
  "environment \<Rightarrow> string \<Rightarrow> cleansed_lines \<Rightarrow> nat \<Rightarrow> string \<Rightarrow> handler \<Rightarrow> include_state \<Rightarrow> lint
     \<Rightarrow> (include_state \<times> lint) result" where
  "CheckLanguage env filename clean_lines linenum file_extension error s g =
     bindE (py_index (elided clean_lines) (int linenum)) (\<lambda>line.
       if line = [] then Inr (s, g)
       else if re_search RE_PATTERN_INCLUDE line \<noteq> None
       then CheckIncludeLine env filename clean_lines linenum error s g
       else bindE (py_index (raw_lines clean_lines) (int linenum)) (\<lambda>raw_line.
         with_include s (seqE (language_checks filename clean_lines line raw_line linenum file_extension error) g)))"

section \<open>The delimiters of an array size\<close>

lemma re_split_no_match: "re_search r s = None \<Longrightarrow> re_split r s = [s]"
  by (simp add: re_split_def find_all_def re_search_def)

lemma size_delimiter_ast:
  "RE_SIZE_DELIMITER = Alt (Class False [SpaceChar]) (Alt (Lit CHR ''+'') (Alt (Lit CHR ''-'')
     (Alt (Lit CHR ''*'') (Alt (Lit CHR ''/'') (Alt (Cat (Lit CHR ''<'') (Lit CHR ''<''))
       (Cat (Lit CHR ''>'') (Cat (Lit CHR ''>'') (Lit CHR '']''))))))))"
  by code_simp

lemma no_delimiter:
  assumes "\<forall>c\<in>set s. \<not> re_space c \<and> c \<notin> set ''+-*/<]''"
  shows "re_split RE_SIZE_DELIMITER s = [s]"
proof (rule re_split_no_match)
  have "\<not> sem RE_SIZE_DELIMITER (MS b u []) st" if "s = t @ u" for b t u st
  proof -
    have "\<forall>c\<in>set u. \<not> re_space c \<and> c \<noteq> CHR ''+'' \<and> c \<noteq> CHR ''-'' \<and> c \<noteq> CHR ''*'' \<and>
        c \<noteq> CHR ''/'' \<and> c \<noteq> CHR ''<'' \<and> c \<noteq> CHR '']''"
      using assms that by simp
    then show ?thesis
      unfolding size_delimiter_ast
      by (cases u) (simp_all add: eats_iff class_matches_def, force)
  qed
  then show "re_search RE_SIZE_DELIMITER s = None" by (auto simp: re_search_None)
qed

lemma k_constant_ast:
  "rx ''k[A-Z0-9]`w*'' = Cat (Lit CHR ''k'') (Cat (Class False [Range CHR ''A'' CHR ''Z'', Range CHR ''0'' CHR ''9''])
     (Rep True 0 None (Class False [WordChar])))"
  by code_simp

lemma k_constant:
  assumes "is_upper c \<or> is_digit c"
  shows "matched ''k[A-Z0-9]`w*'' (CHR ''k'' # c # t)"
proof -
  let ?st = "MS (c # [CHR ''k'']) t []"
  have "class_matches False [Range CHR ''A'' CHR ''Z'', Range CHR ''0'' CHR ''9''] c"
    using assms by (auto simp: class_matches_def is_upper_def is_digit_def Let_def)
  then have "sem (rx ''k[A-Z0-9]`w*'') (MS [] (CHR ''k'' # c # t) []) ?st"
    unfolding k_constant_ast by (auto simp: eats_def intro: rep_stop)
  then show ?thesis unfolding matched_def re_match_None by blast
qed

lemma strip_parens_free:
  assumes "CHR ''('' \<notin> set s" and "CHR '')'' \<notin> set s"
  shows "rstrip_chars (lstrip_chars s ''('') '')'' = s"
proof -
  have "lstrip_chars s ''('' = s"
    using assms(1) by (cases s) (auto simp: lstrip_chars_def)
  moreover have "rstrip_chars s '')'' = s"
    using assms(2) by (cases s rule: rev_cases) (auto simp: rstrip_chars_def)
  ultimately show ?thesis by simp
qed

section \<open>What the checks rely on\<close>

lemma seqE_append_keeps: "keeps P (seqE fs) \<Longrightarrow> keeps P (seqE gs) \<Longrightarrow> keeps P (seqE (fs @ gs))"
  by (rule keeps_ext [OF seqE_append], rule keeps_bindE)

text \<open>A step on a state beside the linter's: it returns, and keeps the linter's invariant.\<close>

definition keeps_snd :: "('l \<Rightarrow> bool) \<Rightarrow> ('l \<Rightarrow> ('s \<times> 'l) result) \<Rightarrow> bool" where
  "keeps_snd P f \<longleftrightarrow> (\<forall>g. P g \<longrightarrow> (\<exists>s g'. f g = Inr (s, g') \<and> P g'))"

lemma keeps_sndD: "keeps_snd P f \<Longrightarrow> P g \<Longrightarrow> \<exists>s g'. f g = Inr (s, g') \<and> P g'"
  by (simp add: keeps_snd_def)

lemma keeps_snd_Inr: "keeps_snd P (\<lambda>g. Inr (s, g))"
  by (simp add: keeps_snd_def)

lemma keeps_snd_ext: "(\<And>g. f g = h g) \<Longrightarrow> keeps_snd P h \<Longrightarrow> keeps_snd P f"
  by (simp add: keeps_snd_def)

lemma keeps_snd_bindE:
  "keeps P f \<Longrightarrow> keeps_snd P h \<Longrightarrow> keeps_snd P (\<lambda>g. bindE (f g) h)"
  unfolding keeps_def keeps_snd_def by (metis bindE_simps(2))

lemma keeps_snd_pair:
  "keeps P f \<Longrightarrow> keeps_snd P (\<lambda>g. bindE (f g) (\<lambda>g. Inr (s, g)))"
  by (rule keeps_snd_bindE [OF _ keeps_snd_Inr])

context error_handler begin

lemma keeps_CheckCStyleCast [keeps_intros]:
  "keeps Inv (CheckCStyleCast fn n line raw cast_type pattern error)"
  unfolding CheckCStyleCast_def Let_def by (intro keeps_intros)

lemma keeps_check_disallow [keeps_intros]:
  assumes "NumLines cl = length (elided cl)"
  shows "keeps Inv (check_disallow fn cl line n error)"
proof (cases "n + 1 < NumLines cl")
  case True
  then have "py_index (elided cl) (int n + 1) = Inr (elided cl ! (n + 1))"
    using assms py_index_nat [of "n + 1" "elided cl"] by (simp add: ac_simps)
  with True show ?thesis
    by (intro keeps_ext [OF check_disallow_def]) (simp only: bindE_simps if_True simp_thms, intro keeps_intros)
next
  case False
  then show ?thesis
    by (intro keeps_ext [OF check_disallow_def]) (simp only: if_False, intro keeps_intros)
qed

lemma keeps_language_checks:
  assumes "NumLines cl = length (elided cl)"
  shows "keeps Inv (seqE (language_checks fn cl line raw n ext error))"
  unfolding language_checks_def check_casts_def check_members_def check_calls_def check_array_def Let_def
  by (intro seqE_append_keeps keeps_intros assms)

lemma keeps_CheckIncludeLine:
  assumes "n < length (lines_of cl)" and "\<exists>name. RepositoryName env fn = Inr name"
  shows "keeps_snd Inv (CheckIncludeLine env fn cl n error s)"
proof -
  from assms(2) obtain name where name: "RepositoryName env fn = Inr name" by blast
  obtain project tail where "path_split name = (project, tail)" by fastforce
  moreover obtain stem extension where "splitext tail = (stem, extension)" by fastforce
  ultimately have base: "BaseName env fn = Inr stem" by (simp add: BaseName_def Split_def name)
  have kind: "\<exists>k. ClassifyInclude env fn h sys = Inr k" for h sys
    by (auto simp: ClassifyInclude_def name Let_def split: prod.splits option.splits)
  show ?thesis
  proof (unfold keeps_snd_def, intro allI impI)
    fix g assume g: "Inv g"
    let ?line = "lines_of cl ! n"
    obtain g1 where g1: "only_if (re_search RE_PATTERN_INCLUDE_NEW_STYLE ?line \<noteq> None)
              (error fn (int n) ''build/include'' 4 ''Include the directory when naming .h files'') g = Inr g1" "Inv g1"
      using keepsD [OF keeps_only_if [OF error_keeps] g] by blast
    show "\<exists>s' g'. CheckIncludeLine env fn cl n error s g = Inr (s', g') \<and> Inv g'"
    proof (cases "re_search RE_PATTERN_INCLUDE ?line")
      case None
      with g1 assms(1) show ?thesis by (simp add: CheckIncludeLine_def)
    next
      case (Some m)
      then obtain h where h: "m_group m 2 = Some h" using include_groups by blast
      show ?thesis
      proof (cases "map_of (included s) h")
        case (Some loc)
        obtain g2 where "error fn (int n) ''build/include'' 4
            (''\"'' @ h @ ''\" already included at '' @ fn @ '':'' @ show_loc loc) g1 = Inr g2" "Inv g2"
          using keepsD [OF error_keeps g1(2)] by blast
        with g1 assms(1) \<open>re_search _ _ = Some m\<close> h Some show ?thesis
          by (simp add: CheckIncludeLine_def Let_def with_include_def)
      next
        case None
        let ?s = "s\<lparr>included := AList.update h (AtLine (int n)) (included s)\<rparr>"
        obtain k where k: "ClassifyInclude env fn h (m_group m 1 = Some ''<'') = Inr k" using kind by blast
        obtain msg s1 where s1: "CheckNextIncludeOrder k ?s = (msg, s1)" by fastforce
        obtain ok s2 where s2: "IsInAlphabeticalOrder h s1 = (ok, s2)" by fastforce
        obtain g2 where g2: "(if msg \<noteq> [] then bindE (BaseName env fn) (\<lambda>base. error fn (int n) ''build/include_order'' 4
              (msg @ ''. Should be: '' @ base @ ''.h, c system, c++ system, other.'') g1) else Inr g1) = Inr g2" "Inv g2"
        proof -
          have "keeps Inv (\<lambda>g. if msg \<noteq> [] then bindE (BaseName env fn) (\<lambda>base.
              error fn (int n) ''build/include_order'' 4
                (msg @ ''. Should be: '' @ base @ ''.h, c system, c++ system, other.'') g) else Inr g)"
            unfolding base bindE_simps by (intro keeps_intros)
          from keepsD [OF this g1(2)] that show thesis by blast
        qed
        obtain g3 where g3: "only_if (\<not> ok) (error fn (int n) ''build/include_alpha'' 4
              (''Include \"'' @ h @ ''\" not in alphabetical order'')) g2 = Inr g3" "Inv g3"
          using keepsD [OF keeps_only_if [OF error_keeps] g2(2)] by blast
        have "CheckIncludeLine env fn cl n error s g = Inr (s2, g3)"
          using assms(1) g1(1) Some h None k s1 s2 g2(1) g3(1)
          by (simp add: CheckIncludeLine_def Let_def with_include_def)
        with g3(2) show ?thesis by blast
      qed
    qed
  qed
qed

lemma keeps_CheckLanguage:
  assumes "n < length (elided cl)" and "length (lines_of cl) = length (elided cl)"
    and "NumLines cl = length (elided cl)" and "\<exists>name. RepositoryName env fn = Inr name"
  shows "keeps_snd Inv (CheckLanguage env fn cl n ext error s)"
proof -
  let ?line = "elided cl ! n"
  have n: "py_index (elided cl) (int n) = Inr ?line" "py_index (raw_lines cl) (int n) = Inr (raw_lines cl ! n)"
    using assms(1,3) by (simp_all add: NumLines_def)
  consider "?line = []" | "?line \<noteq> []" "re_search RE_PATTERN_INCLUDE ?line \<noteq> None"
    | "?line \<noteq> []" "re_search RE_PATTERN_INCLUDE ?line = None" by blast
  then show ?thesis
  proof cases
    case 1
    show ?thesis by (rule keeps_snd_ext [OF _ keeps_snd_Inr [of _ s]]) (simp add: CheckLanguage_def n 1)
  next
    case 2
    show ?thesis
      by (rule keeps_snd_ext [OF _ keeps_CheckIncludeLine [OF _ assms(4), of n cl s]])
        (use 2 assms(1,2) n in \<open>simp_all add: CheckLanguage_def\<close>)
  next
    case 3
    show ?thesis
      by (rule keeps_snd_ext [OF _ keeps_snd_pair [OF keeps_language_checks [OF assms(3), of fn ?line "raw_lines cl ! n" n ext], of s]])
        (use 3 n in \<open>simp add: CheckLanguage_def with_include_def\<close>)
  qed
qed

end

section \<open>Properties\<close>

text \<open>
  The pattern that splits an array size has a bracket too many: a right shift is no delimiter,
  and an array whose size is a constant shifted by anything passes for one of constant size.
\<close>

theorem shift_hides_array_size:
  assumes "is_upper c \<or> is_digit c" and "\<forall>x\<in>set (a @ b). re_word x"
  shows "re_split RE_SIZE_DELIMITER (CHR ''k'' # c # a @ ''>>'' @ b) = [CHR ''k'' # c # a @ ''>>'' @ b] \<and>
    constant_size (CHR ''k'' # c # a @ ''>>'' @ b)"
proof -
  let ?s = "CHR ''k'' # c # a @ ''>>'' @ b"
  have word: "\<not> re_space x \<and> x \<notin> set ''+-*/<]()''" if "re_word x" for x
    using that by (auto simp: re_word_def re_space_def is_digit_def is_upper_def is_lower_def Let_def)
  have c: "re_word c" using assms(1) by (auto simp: re_word_def)
  have free: "\<forall>x\<in>set ?s. \<not> re_space x \<and> x \<notin> set ''+-*/<]()''"
    using assms(2) word c by (auto simp: re_space_def)
  then have split: "re_split RE_SIZE_DELIMITER ?s = [?s]" by (intro no_delimiter) auto
  have "CHR ''('' \<notin> set ?s" "CHR '')'' \<notin> set ?s" using free by auto
  then have "rstrip_chars (lstrip_chars ?s ''('') '')'' = ?s" by (rule strip_parens_free)
  with k_constant [OF assms(1)] have "constant_tokens [?s] False" by (simp add: Let_def)
  with split show ?thesis by (simp add: constant_size_def)
qed

theorem shift_hides_array_size_witness:
  "constant_size ''kMax>>n''"
  using shift_hides_array_size [of "CHR ''M''" "''ax''" "''n''"]
  by (simp add: is_upper_def re_word_def is_lower_def)

end
