(* ===== verification/Lint_Function.thy ===== *)
theory Lint_Function
  imports Lint_Lines
begin

text \<open>
  The length of functions: \<open>_FunctionState\<close> and \<open>CheckForFunctionLengths\<close>. The
  lemmas follow a function body from its start to its end and show what is reported there.
\<close>

section \<open>The function state\<close>

record function_state =
  in_a_function :: bool
  lines_in_function :: int
  current_function :: string

definition init_function_state :: function_state where
  "init_function_state = \<lparr> in_a_function = False, lines_in_function = 0, current_function = [] \<rparr>"

definition Begin :: "string \<Rightarrow> function_state \<Rightarrow> function_state" where
  "Begin function_name s =
     s\<lparr>in_a_function := True, lines_in_function := 0, current_function := function_name\<rparr>"

definition Count :: "function_state \<Rightarrow> function_state" where
  "Count s = (if in_a_function s then s\<lparr>lines_in_function := lines_in_function s + 1\<rparr> else s)"

definition End :: "function_state \<Rightarrow> function_state" where
  "End s = s\<lparr>in_a_function := False\<rparr>"

text \<open>
  \<open>int(math.log(n, 2))\<close> of a positive integer, as far as the check uses it: capped at 5, the
  floating-point logarithm and the integer one agree.
\<close>

fun log2 :: "nat \<Rightarrow> nat" where
  "log2 n = (if n < 2 then 0 else Suc (log2 (n div 2)))"

declare log2.simps [simp del]

definition base_trigger :: "string \<Rightarrow> int" where
  "base_trigger function_name = (if re_match (rx ''T(EST|est)'') function_name \<noteq> None then 400 else 250)"

text \<open>
  \<open>n > base_trigger * 2**v\<close>, and the trigger as \<open>%d\<close> prints it; for a negative
  verbosity the power is a fraction.
\<close>

definition exceeds :: "int \<Rightarrow> int \<Rightarrow> int \<Rightarrow> bool" where
  "exceeds n base v = (if 0 \<le> v then n > base * 2 ^ nat v else n * 2 ^ nat (- v) > base)"

definition trigger :: "int \<Rightarrow> int \<Rightarrow> int" where
  "trigger base v = (if 0 \<le> v then base * 2 ^ nat v else base div 2 ^ nat (- v))"

definition error_level :: "int \<Rightarrow> int \<Rightarrow> int" where
  "error_level n base = min 5 (int (log2 (nat (n div base))))"

definition Check :: "handler \<Rightarrow> string \<Rightarrow> int \<Rightarrow> function_state \<Rightarrow> check" where
  "Check error filename linenum s g =
     (let base = base_trigger (current_function s); n = lines_in_function s; v = VerboseLevel g in
      if exceeds n base v then
        (if n div base \<le> 0 then Inl (ValueError ''math domain error'')
         else error filename linenum ''readability/fn_size'' (error_level n base)
           (''Small and focused functions are preferred: '' @ current_function s @ '' has '' @ str_int n
            @ '' non-comment lines (error triggered by exceeding '' @ str_int (trigger base v)
            @ '' lines).'') g)
      else Inr g)"

section \<open>The walk through the lines\<close>

definition RE_FUNCTION_START :: regex where
  "RE_FUNCTION_START = rx ''(`w(`w|::|`*|`&|`s)*)`(''"

definition starting_func :: "string \<Rightarrow> bool result" where
  "starting_func line =
     (case re_match RE_FUNCTION_START line of None \<Rightarrow> Inr False
      | Some m \<Rightarrow> bindE (py_index (str_words (the (m_group m 1))) (- 1)) (\<lambda>function_name.
          Inr (function_name = ''TEST'' \<or> function_name = ''TEST_F'' \<or>
               re_match (rx ''[A-Z_]+$'') function_name = None)))"

definition function_end :: "string \<Rightarrow> bool" where
  "function_end line \<longleftrightarrow> re_match (rx ''^`}`s*$'') line \<noteq> None"

definition blank_code :: "string \<Rightarrow> bool" where
  "blank_code line \<longleftrightarrow> re_match (rx ''^`s*$'') line \<noteq> None"

text \<open>The name under which the body is followed.\<close>

definition function_label :: "string \<Rightarrow> string \<Rightarrow> string result" where
  "function_label line joined_line =
     (case re_search (rx ''((`w|:)*)`('') line of
        None \<Rightarrow> Inl AttributeError
      | Some m \<Rightarrow>
          (let f = the (m_group m 1) in
           if re_match (rx ''TEST'') f \<noteq> None then
             (case re_search (rx ''(`(.*`))'') joined_line of
                None \<Rightarrow> Inr f | Some p \<Rightarrow> Inr (f @ the (m_group p 1)))
           else Inr (f @ ''()'')))"

text \<open>
  The search for the start of the body, from the current line on: the state is the one to go on
  with, and the flag tells whether a body (or evidence that there is none) was found.
\<close>

fun find_body ::
  "string \<Rightarrow> string list \<Rightarrow> string \<Rightarrow> function_state \<Rightarrow> (bool \<times> function_state) result" where
  "find_body line [] joined_line s = Inr (False, s)"
| "find_body line (start_line # ls) joined_line s =
     (let joined_line = joined_line @ '' '' @ lstrip start_line in
      if re_search (rx ''(;|})'') start_line \<noteq> None then Inr (True, s)
      else if re_search (rx ''{'') start_line \<noteq> None then
        bindE (function_label line joined_line) (\<lambda>f. Inr (True, Begin f s))
      else find_body line ls joined_line s)"

definition CheckForFunctionLengths ::
  "string \<Rightarrow> cleansed_lines \<Rightarrow> nat \<Rightarrow> handler \<Rightarrow> function_state \<Rightarrow> lint \<Rightarrow> (function_state \<times> lint) result" where
  "CheckForFunctionLengths filename clean_lines linenum error s g =
     bindE (py_index (lines_of clean_lines) (int linenum)) (\<lambda>line.
     bindE (starting_func line) (\<lambda>starting.
       if starting then
         bindE (find_body line (drop linenum (lines_of clean_lines)) [] s) (\<lambda>(body_found, s).
         bindE (only_if (\<not> body_found) (error filename (int linenum) ''readability/fn_size'' 5
           ''Lint failed to find start of function body.'') g) (\<lambda>g. Inr (s, g)))
       else if function_end line then
         bindE (Check error filename (int linenum) s g) (\<lambda>g. Inr (End s, g))
       else if \<not> blank_code line then Inr (Count s, g)
       else Inr (s, g)))"

section \<open>The level of a report\<close>

lemma log2_ge: "2 ^ k \<le> n \<Longrightarrow> k \<le> log2 n"
proof (induction k arbitrary: n)
  case (Suc k)
  then have "2 ^ k \<le> n div 2" "\<not> n < 2"
    using le_trans [OF _ Suc.prems, of 2] by (auto simp: self_le_power)
  with Suc.IH [of "n div 2"] show ?case by (subst log2.simps) simp
qed simp

lemma base_trigger_pos: "0 < base_trigger f"
  by (simp add: base_trigger_def)

lemma level_reaches:
  assumes "0 \<le> v" and "exceeds n base v" and "0 < base"
  shows "0 < n div base" and "min 5 v \<le> error_level n base"
proof -
  have gt: "base * 2 ^ nat v < n" using assms by (simp add: exceeds_def)
  have "base * 2 ^ nat v div base \<le> n div base" using gt assms(3) by (intro zdiv_mono1) auto
  then have le: "2 ^ nat v \<le> n div base" using assms(3) by simp
  moreover have "(0::int) < 2 ^ nat v" by simp
  ultimately show "0 < n div base" by linarith
  from le have "(2::nat) ^ nat v \<le> nat (n div base)" by (simp add: le_nat_iff)
  then have "nat v \<le> log2 (nat (n div base))" by (rule log2_ge)
  then show "min 5 v \<le> error_level n base" using assms(1) by (simp add: error_level_def)
qed

section \<open>A function body\<close>

text \<open>A line of a body: it neither starts nor ends a function.\<close>

definition body_line :: "string \<Rightarrow> bool" where
  "body_line line \<longleftrightarrow> starting_func line = Inr False \<and> \<not> function_end line"

fun walk_lines ::
  "string \<Rightarrow> cleansed_lines \<Rightarrow> handler \<Rightarrow> nat list \<Rightarrow> function_state \<times> lint
     \<Rightarrow> (function_state \<times> lint) result" where
  "walk_lines fn cl error [] sg = Inr sg"
| "walk_lines fn cl error (n # ns) sg =
     bindE (CheckForFunctionLengths fn cl n error (fst sg) (snd sg)) (walk_lines fn cl error ns)"

lemma walk_lines_append:
  "walk_lines fn cl error (ns @ ms) sg =
     bindE (walk_lines fn cl error ns sg) (walk_lines fn cl error ms)"
  by (induction ns arbitrary: sg) (auto simp: bindE_def split: sum.splits)

lemma body_counted:
  assumes "in_a_function s" and "\<And>k. i \<le> k \<Longrightarrow> k < j \<Longrightarrow> body_line (lines_of cl ! k)"
    and "i \<le> j" and "j \<le> length (lines_of cl)"
  shows "walk_lines fn cl error [i..<j] (s, g) =
    Inr (s\<lparr>lines_in_function := lines_in_function s +
      int (length (filter (\<lambda>k. \<not> blank_code (lines_of cl ! k)) [i..<j]))\<rparr>, g)"
  using assms(3,2,4)
proof (induction j rule: dec_induct)
  case base
  then show ?case by simp
next
  case (step j)
  from step.prems(1) [of j] step.hyps have l: "starting_func (lines_of cl ! j) = Inr False"
      "\<not> function_end (lines_of cl ! j)" by (auto simp: body_line_def)
  have "walk_lines fn cl error [i..<j] (s, g) =
      Inr (s\<lparr>lines_in_function := lines_in_function s +
        int (length (filter (\<lambda>k. \<not> blank_code (lines_of cl ! k)) [i..<j]))\<rparr>, g)"
    using step by auto
  with l step assms(1) show ?case
    by (simp add: walk_lines_append CheckForFunctionLengths_def Count_def)
qed

section \<open>Properties\<close>

text \<open>
  C13: a function body is reported at its closing line exactly when its non-blank lines exceed the
  trigger of its name and the verbosity, with their number in the message; and the confidence of
  the report reaches the verbosity level, so that the level never hides it, up to level 5.
\<close>

theorem function_body_reported:
  assumes "in_a_function s" and "lines_in_function s = 0" and "0 \<le> verbose_level g"
    and "\<And>k. i \<le> k \<Longrightarrow> k < j \<Longrightarrow> body_line (lines_of cl ! k)" and "i \<le> j" and "j < length (lines_of cl)"
    and "starting_func (lines_of cl ! j) = Inr False" and "function_end (lines_of cl ! j)"
  shows "\<exists>level text. (verbose_level g \<le> level \<or> level = 5) \<and>
    walk_lines fn cl error [i..<Suc j] (s, g) =
     (let n = length (filter (\<lambda>k. \<not> blank_code (lines_of cl ! k)) [i..<j]);
          s' = s\<lparr>lines_in_function := int n, in_a_function := False\<rparr> in
      if base_trigger (current_function s) * 2 ^ nat (verbose_level g) < int n
      then bindE (error fn (int j) ''readability/fn_size'' level text g) (\<lambda>g. Inr (s', g))
      else Inr (s', g))"
proof -
  let ?n = "length (filter (\<lambda>k. \<not> blank_code (lines_of cl ! k)) [i..<j])"
  let ?base = "base_trigger (current_function s)"
  let ?s = "s\<lparr>lines_in_function := int ?n\<rparr>"
  let ?text = "''Small and focused functions are preferred: '' @ current_function s @ '' has '' @ str_int (int ?n)
            @ '' non-comment lines (error triggered by exceeding '' @ str_int (trigger ?base (verbose_level g))
            @ '' lines).''"
  let ?level = "error_level (int ?n) ?base"
  have walk: "walk_lines fn cl error [i..<j] (s, g) = Inr (?s, g)"
    using body_counted [OF assms(1,4,5), of fn error g] assms(2,6) by simp
  have ex: "exceeds (int ?n) ?base (verbose_level g) \<longleftrightarrow> ?base * 2 ^ nat (verbose_level g) < int ?n"
    using assms(3) by (simp add: exceeds_def)
  have run: "walk_lines fn cl error [i..<Suc j] (s, g) =
      bindE (Check error fn (int j) ?s g) (\<lambda>g. Inr (End ?s, g))"
    using assms(5-8) walk
    by (simp add: walk_lines_append CheckForFunctionLengths_def) (simp add: bindE_def split: sum.splits)
  have ends: "End ?s = s\<lparr>lines_in_function := int ?n, in_a_function := False\<rparr>"
    by (simp add: End_def)
  show ?thesis
  proof (cases "exceeds (int ?n) ?base (verbose_level g)")
    case True
    have "\<not> int ?n div ?base \<le> 0" "verbose_level g \<le> ?level \<or> ?level = 5"
      using level_reaches [OF assms(3) True base_trigger_pos] by (auto simp: error_level_def)
    then show ?thesis
      using True ex run ends
      by (intro exI [of _ ?level] exI [of _ ?text]) (simp add: Check_def Let_def)
  next
    case False
    then show ?thesis
      using ex run ends by (intro exI [of _ 5] exI) (simp add: Check_def Let_def)
  qed
qed

theorem function_body_reported_witness:
  "walk_lines ''a.cc'' (CleansedLines [''void f() {'', ''  x;'', ''}'']) Error [1..<3]
      (Begin ''f()'' init_function_state, init_lint) =
    Inr (\<lparr> in_a_function = False, lines_in_function = 1, current_function = ''f()'' \<rparr>, init_lint)"
proof -
  let ?cl = "CleansedLines [''void f() {'', ''  x;'', ''}'']" and ?s = "Begin ''f()'' init_function_state"
  have lines: "lines_of ?cl = [''void f() {'', ''  x;'', ''}'']"
    and kinds: "starting_func ''  x;'' = Inr False" "\<not> function_end ''  x;''" "\<not> blank_code ''  x;''"
      "starting_func ''}'' = Inr False" "function_end ''}''" "base_trigger ''f()'' = 250"
    by code_simp+
  have "\<exists>level text. (verbose_level init_lint \<le> level \<or> level = 5) \<and>
    walk_lines ''a.cc'' ?cl Error [1..<Suc 2] (?s, init_lint) =
     (let n = length (filter (\<lambda>k. \<not> blank_code (lines_of ?cl ! k)) [1..<2]);
          s' = ?s\<lparr>lines_in_function := int n, in_a_function := False\<rparr> in
      if base_trigger (current_function ?s) * 2 ^ nat (verbose_level init_lint) < int n
      then bindE (Error ''a.cc'' (int 2) ''readability/fn_size'' level text init_lint) (\<lambda>g. Inr (s', g))
      else Inr (s', init_lint))"
  proof (rule function_body_reported)
    show "body_line (lines_of ?cl ! k)" if "1 \<le> k" "k < 2" for k
    proof -
      from that have "k = 1" by simp
      then show ?thesis using kinds by (simp add: body_line_def lines)
    qed
  qed (simp_all add: Begin_def init_lint_def lines kinds numeral_2_eq_2)
  then show ?thesis
    by (auto simp: lines kinds Begin_def init_function_state_def init_lint_def upt_rec [of 1 2])
qed

text \<open>
  With a negative verbosity the report of a function between the trigger and the base trigger
  raises: the logarithm of zero is taken.
\<close>

theorem negative_verbosity_raises:
  assumes "exceeds (lines_in_function s) (base_trigger (current_function s)) (verbose_level g)"
    and "0 \<le> lines_in_function s" and "lines_in_function s < base_trigger (current_function s)"
  shows "Check error fn ln s g = Inl (ValueError ''math domain error'') \<and> verbose_level g < 0"
proof
  have "lines_in_function s div base_trigger (current_function s) = 0" using assms(2,3) by simp
  with assms(1) show "Check error fn ln s g = Inl (ValueError ''math domain error'')"
    by (simp add: Check_def Let_def)
  show "verbose_level g < 0"
  proof (rule ccontr)
    assume "\<not> verbose_level g < 0"
    then have v: "0 \<le> verbose_level g" by simp
    from level_reaches(1) [OF v assms(1) base_trigger_pos] assms(2,3) show False by simp
  qed
qed

theorem negative_verbosity_raises_witness:
  "Check Error ''a.cc'' 200 \<lparr> in_a_function = True, lines_in_function = 130, current_function = ''f()'' \<rparr>
     (init_lint\<lparr>verbose_level := - 1\<rparr>) = Inl (ValueError ''math domain error'')"
proof -
  let ?s = "\<lparr> in_a_function = True, lines_in_function = 130, current_function = ''f()'' \<rparr>"
  have b: "base_trigger ''f()'' = 250" by code_simp
  have "exceeds (lines_in_function ?s) (base_trigger (current_function ?s)) (verbose_level (init_lint\<lparr>verbose_level := - 1\<rparr>))"
    by (simp add: b exceeds_def)
  from negative_verbosity_raises [OF this] show ?thesis by (simp add: b)
qed

end
