(* ===== verification/Lint_Class.thy ===== *)
theory Lint_Class
  imports Lint_Lines
begin

text \<open>
  Class declarations: the stack of \<open>_ClassState\<close> and \<open>CheckForNonStandardConstructs\<close>,
  which follows them line by line. The innermost class is the head of the list (the back of the
  source's stack). The lemmas give the invariant of the stack and the verdict on a class body.
\<close>

section \<open>The class stack\<close>

record class_info =
  class_name :: string
  class_linenum :: nat
  seen_open_brace :: bool
  is_derived :: bool
  virtual_method_linenumber :: "nat option"
  has_virtual_destructor :: bool
  brace_depth :: int

definition ClassInfo :: "string \<Rightarrow> nat \<Rightarrow> class_info" where
  "ClassInfo name linenum = \<lparr> class_name = name, class_linenum = linenum, seen_open_brace = False,
     is_derived = False, virtual_method_linenumber = None, has_virtual_destructor = False, brace_depth = 0 \<rparr>"

type_synonym class_stack = "class_info list"

definition CheckFinished :: "class_stack \<Rightarrow> string \<Rightarrow> handler \<Rightarrow> check" where
  "CheckFinished stack filename error =
     (if stack \<noteq> [] then
        error filename (int (class_linenum (last stack))) ''build/class'' 5
          (''Failed to find complete declaration of class '' @ class_name (last stack))
      else Inr)"

section \<open>Constructs that are not standard\<close>

definition RE_STORAGE_CLASS :: regex where
  "RE_STORAGE_CLASS = rx (''`b(const|volatile|void|char|short|int|long''
     @ ''|float|double|signed|unsigned'' @ ''|schar|u?int8|u?int16|u?int32|u?int64)''
     @ ''`s+(auto|register|static|extern|typedef)`b'')"

definition nonstandard_lines :: "string \<Rightarrow> nat \<Rightarrow> string \<Rightarrow> string \<Rightarrow> handler \<Rightarrow> check list" where
  "nonstandard_lines filename linenum line elided_line error =
    (let unescaped = str_replace line (lit ''``'') [];
         report = (\<lambda>b cat conf msg. only_if b (error filename (int linenum) cat conf msg)) in [
      report (re_search (rx ''printf`s*`(.*\".*%[-+ ]?`d*q'') line \<noteq> None) ''runtime/printf_format'' 3
        ''%q in format strings is deprecated.  Use %ll instead.'',
      report (re_search (rx ''printf`s*`(.*\".*%`d+`$'') line \<noteq> None) ''runtime/printf_format'' 2
        ''%N$ formats are unconventional.  Try rewriting to avoid them.'',
      report (re_search (rx (''(\"|'' @ CHR 0x27 # '').*``(%|`[|`(|{)'')) unescaped \<noteq> None) ''build/printf_format'' 3
        ''%, [, (, and { are undefined character escapes.  Unescape them.'',
      report (re_search RE_STORAGE_CLASS elided_line \<noteq> None) ''build/storage_class'' 5
        ''Storage class (static, extern, typedef, etc) should be first.'',
      report (re_match (rx ''`s*#`s*endif`s*[^/`s]+'') elided_line \<noteq> None) ''build/endif_comment'' 5
        ''Uncommented text after #endif is non-standard.  Use a comment.'',
      report (re_match (rx ''`s*class`s+(`w+`s*::`s*)+`w+`s*;'') elided_line \<noteq> None) ''build/forward_decl'' 5
        ''Inner-style forward declarations are invalid.  Remove this line.'',
      report (re_search (rx ''(`w+|[+-]?`d+(`.`d*)?)`s*(<|>)`?=?`s*(`w+|[+-]?`d+)(`.`d*)?'') elided_line \<noteq> None)
        ''build/deprecated'' 3
        ''>? and <? (max and min) operators are non-standard and deprecated.'',
      report (re_search (rx ''^`s*const`s*string`s*&`s*`w+`s*;'') elided_line \<noteq> None)
        ''runtime/member_string_references'' 2
        (''const string& members are dangerous. It is much better to use ''
         @ ''alternatives, such as pointers or simple constants.'')])"

section \<open>Following the classes\<close>

definition class_decl :: "string \<Rightarrow> string option" where
  "class_decl line =
     (case re_match (rx ''`s*(template`s*<[`w`s<>,:]*>`s*)?(class|struct)`s+(`w+(::`w+)*)'') line of
        None \<Rightarrow> None | Some m \<Rightarrow> m_group m 3)"

text \<open>\<open>re.escape\<close>\<close>

definition re_escape :: "string \<Rightarrow> string" where
  "re_escape s = concat (map (\<lambda>c. if is_digit c \<or> is_upper c \<or> is_lower c then [c]
     else if c = CHR 0x00 then lit ''`000'' else [backslash, c]) s)"

definition base_classname :: "class_info \<Rightarrow> string" where
  "base_classname ci = last (str_split (class_name ci) ''::'')"

definition unmarked_constructor :: "string \<Rightarrow> string \<Rightarrow> bool" where
  "unmarked_constructor name line =
     (case re_match (rx (''(?<!explicit)`s+'' @ re_escape name @ ''`s*`(([^,()]+)`)'')) line of
        None \<Rightarrow> False
      | Some args \<Rightarrow>
          the (m_group args 1) \<noteq> ''void'' \<and>
          re_match (rx (''(const`s+)?'' @ re_escape name @ ''`s*&'')) (strip (the (m_group args 1))) = None)"

definition declares_virtual :: "string \<Rightarrow> bool" where
  "declares_virtual line \<longleftrightarrow> re_search (rx ''`bvirtual`b'') line \<noteq> None"

definition declares_destructor :: "string \<Rightarrow> string \<Rightarrow> bool" where
  "declares_destructor name line \<longleftrightarrow> re_search (rx (''~'' @ name @ ''`s*`('')) line \<noteq> None"

definition bare_colon :: "string \<Rightarrow> bool" where
  "bare_colon line \<longleftrightarrow> re_search (rx ''(^|[^:]):($|[^:])'') line \<noteq> None"

text \<open>The part after the opening brace, for the innermost class \<open>ci\<close>.\<close>

definition note_virtual :: "nat \<Rightarrow> string \<Rightarrow> class_info \<Rightarrow> class_info" where
  "note_virtual linenum line ci =
     (if declares_virtual line then
        (let ci = ci\<lparr>virtual_method_linenumber := Some linenum\<rparr> in
         if declares_destructor (base_classname ci) line then ci\<lparr>has_virtual_destructor := True\<rparr> else ci)
      else ci)"

definition needs_destructor :: "class_info \<Rightarrow> bool" where
  "needs_destructor ci \<longleftrightarrow> virtual_method_linenumber ci \<noteq> None \<and> \<not> has_virtual_destructor ci \<and> \<not> is_derived ci"

definition virtual_report :: "string \<Rightarrow> handler \<Rightarrow> class_info \<Rightarrow> check" where
  "virtual_report filename error ci =
     only_if (needs_destructor ci)
       (error filename (int (class_linenum ci)) ''runtime/virtual'' 4
          (''The class '' @ class_name ci @ '' probably needs a virtual destructor due to ''
           @ ''having virtual method(s), one declared at line ''
           @ str_int (int (the (virtual_method_linenumber ci))) @ ''.''))"

definition braces_of :: "string \<Rightarrow> int" where
  "braces_of line = int (str_count line ''{'') - int (str_count line ''}'')"

definition class_body ::
  "string \<Rightarrow> nat \<Rightarrow> string \<Rightarrow> handler \<Rightarrow> class_info \<Rightarrow> class_stack \<Rightarrow> lint \<Rightarrow> (class_stack \<times> lint) result" where
  "class_body filename linenum line error ci up g =
     bindE (only_if (unmarked_constructor (base_classname ci) line)
       (error filename (int linenum) ''runtime/explicit'' 5
          ''Single-argument constructors should be marked explicit.'') g) (\<lambda>g.
     let ci = note_virtual linenum line ci; depth = brace_depth ci + braces_of line in
     if depth \<le> 0 then bindE (virtual_report filename error ci g) (\<lambda>g. Inr (up, g))
     else Inr (ci\<lparr>brace_depth := depth\<rparr> # up, g))"

definition class_line ::
  "string \<Rightarrow> nat \<Rightarrow> string \<Rightarrow> handler \<Rightarrow> class_stack \<Rightarrow> lint \<Rightarrow> (class_stack \<times> lint) result" where
  "class_line filename linenum line error stack0 g =
     (let stack = (case class_decl line of None \<Rightarrow> stack0 | Some name \<Rightarrow> ClassInfo name linenum # stack0) in
      case stack of
        [] \<Rightarrow> Inr (stack, g)
      | ci # up \<Rightarrow>
          if \<not> seen_open_brace ci then
            (if CHR '';'' \<in> set line then Inr (up, g)
             else
              (let ci = ci\<lparr>seen_open_brace := CHR ''{'' \<in> set line\<rparr>;
                   ci = (if bare_colon line then ci\<lparr>is_derived := True\<rparr> else ci)
               in if \<not> seen_open_brace ci then Inr (ci # up, g)
                  else class_body filename linenum line error ci up g))
          else class_body filename linenum line error ci up g)"

definition CheckForNonStandardConstructs ::
  "string \<Rightarrow> cleansed_lines \<Rightarrow> nat \<Rightarrow> handler \<Rightarrow> class_stack \<Rightarrow> lint \<Rightarrow> (class_stack \<times> lint) result" where
  "CheckForNonStandardConstructs filename clean_lines linenum error stack g =
     bindE (py_index (lines_of clean_lines) (int linenum)) (\<lambda>line.
     bindE (py_index (elided clean_lines) (int linenum)) (\<lambda>elided_line.
     bindE (seqE (nonstandard_lines filename linenum line elided_line error) g)
       (class_line filename linenum elided_line error stack)))"

section \<open>The invariant of the stack\<close>

text \<open>
  What holds of every class on the stack before line \<open>n\<close>: its brace depth is positive once its
  opening brace was seen and zero before, and the lines noted lie behind its own.
\<close>

definition class_ok :: "nat \<Rightarrow> class_info \<Rightarrow> bool" where
  "class_ok n ci \<longleftrightarrow> class_linenum ci < n \<and>
     (if seen_open_brace ci then 0 < brace_depth ci
      else brace_depth ci = 0 \<and> virtual_method_linenumber ci = None \<and> \<not> has_virtual_destructor ci) \<and>
     (\<forall>v. virtual_method_linenumber ci = Some v \<longrightarrow> class_linenum ci \<le> v \<and> v < n)"

definition stack_ok :: "nat \<Rightarrow> class_stack \<Rightarrow> bool" where
  "stack_ok n stack \<longleftrightarrow> list_all (class_ok n) stack \<and> sorted_wrt (\<lambda>a b. class_linenum b < class_linenum a) stack"

lemma class_ok_Suc: "class_ok n ci \<Longrightarrow> class_ok (Suc n) ci"
  by (auto simp: class_ok_def less_Suc_eq)

lemma note_virtual_sel [simp]:
  "class_name (note_virtual n line ci) = class_name ci"
  "class_linenum (note_virtual n line ci) = class_linenum ci"
  "seen_open_brace (note_virtual n line ci) = seen_open_brace ci"
  "is_derived (note_virtual n line ci) = is_derived ci"
  "brace_depth (note_virtual n line ci) = brace_depth ci"
  "virtual_method_linenumber (note_virtual n line ci) =
     (if declares_virtual line then Some n else virtual_method_linenumber ci)"
  "has_virtual_destructor (note_virtual n line ci) \<longleftrightarrow>
     has_virtual_destructor ci \<or> declares_virtual line \<and> declares_destructor (base_classname ci) line"
  by (auto simp: note_virtual_def Let_def base_classname_def)

lemma class_body_stack:
  assumes "class_body fn n line error ci up g = Inr (stack, g')"
  shows "stack = (if brace_depth ci + braces_of line \<le> 0 then up
    else (note_virtual n line ci)\<lparr>brace_depth := brace_depth ci + braces_of line\<rparr> # up)"
  using assms by (auto simp: class_body_def Let_def bindE_eq_Inr split: if_splits)

lemma stack_ok_up: "stack_ok n (ci # up) \<Longrightarrow> stack_ok (Suc n) up"
  by (auto simp: stack_ok_def list_all_iff intro: class_ok_Suc)

lemma class_body_ok:
  assumes "class_body fn n line error ci up g = Inr (stack, g')"
    and "seen_open_brace ci" and "class_linenum ci \<le> n"
    and "\<forall>v. virtual_method_linenumber ci = Some v \<longrightarrow> class_linenum ci \<le> v \<and> v < n"
    and "\<forall>c\<in>set up. class_linenum c < class_linenum ci" and "stack_ok (Suc n) up"
  shows "stack_ok (Suc n) stack"
  using assms(2-) unfolding class_body_stack [OF assms(1)]
  by (auto simp: stack_ok_def class_ok_def less_Suc_eq_le split: if_splits)

lemma class_line_ok:
  assumes "class_line fn n line error stack0 g = Inr (stack, g')" and "stack_ok n stack0"
  shows "stack_ok (Suc n) stack"
proof -
  define pushed where "pushed = (case class_decl line of None \<Rightarrow> stack0 | Some name \<Rightarrow> ClassInfo name n # stack0)"
  show ?thesis
  proof (cases pushed)
    case Nil
    with assms(1) show ?thesis by (simp add: class_line_def pushed_def [symmetric] stack_ok_def)
  next
    case (Cons ci up)
    have ci: "class_linenum ci \<le> n" "\<forall>v. virtual_method_linenumber ci = Some v \<longrightarrow> class_linenum ci \<le> v \<and> v < n"
      "if seen_open_brace ci then 0 < brace_depth ci else brace_depth ci = 0 \<and>
        virtual_method_linenumber ci = None \<and> \<not> has_virtual_destructor ci"
      "\<forall>c\<in>set up. class_linenum c < class_linenum ci"
      using Cons assms(2)
      by (auto simp: pushed_def ClassInfo_def stack_ok_def class_ok_def list_all_iff split: option.splits if_splits)
    have up: "stack_ok (Suc n) up"
      using Cons assms(2) stack_ok_up [of n ci up]
      by (auto simp: pushed_def stack_ok_def list_all_iff intro: class_ok_Suc split: option.splits)
    define op_ci where "op_ci = (if bare_colon line then ci\<lparr>seen_open_brace := CHR ''{'' \<in> set line, is_derived := True\<rparr>
        else ci\<lparr>seen_open_brace := CHR ''{'' \<in> set line\<rparr>)"
    have o: "class_linenum op_ci = class_linenum ci" "brace_depth op_ci = brace_depth ci"
      "virtual_method_linenumber op_ci = virtual_method_linenumber ci"
      "has_virtual_destructor op_ci = has_virtual_destructor ci"
      "seen_open_brace op_ci \<longleftrightarrow> CHR ''{'' \<in> set line"
      by (simp_all add: op_ci_def)
    consider (body) "seen_open_brace ci" "class_body fn n line error ci up g = Inr (stack, g')"
      | (forward) "stack = up"
      | (waiting) "\<not> seen_open_brace ci" "\<not> seen_open_brace op_ci" "stack = op_ci # up"
      | (brace) "seen_open_brace op_ci" "class_body fn n line error op_ci up g = Inr (stack, g')"
      using assms(1) Cons o
      by (auto simp: class_line_def pushed_def [symmetric] op_ci_def Let_def split: if_splits)
    then show ?thesis
    proof cases
      case body
      show ?thesis by (rule class_body_ok [OF body(2,1) ci(1,2,4) up])
    next
      case forward
      with up show ?thesis by simp
    next
      case waiting
      with ci up o show ?thesis by (auto simp: stack_ok_def class_ok_def)
    next
      case brace
      have v: "\<forall>v. virtual_method_linenumber op_ci = Some v \<longrightarrow> class_linenum op_ci \<le> v \<and> v < n"
        using ci(2) o by simp
      show ?thesis
        by (rule class_body_ok [OF brace(2,1) _ v _ up]) (use ci(1,4) o in simp_all)
    qed
  qed
qed

section \<open>The verdict on a class body\<close>

fun walk_classes ::
  "string \<Rightarrow> cleansed_lines \<Rightarrow> handler \<Rightarrow> nat list \<Rightarrow> class_stack \<times> lint \<Rightarrow> (class_stack \<times> lint) result" where
  "walk_classes fn cl error [] sg = Inr sg"
| "walk_classes fn cl error (n # ns) sg =
     bindE (CheckForNonStandardConstructs fn cl n error (fst sg) (snd sg)) (walk_classes fn cl error ns)"

lemma walk_classes_append:
  "walk_classes fn cl error (ns @ ms) sg =
     bindE (walk_classes fn cl error ns sg) (walk_classes fn cl error ms)"
  by (induction ns arbitrary: sg) (auto simp: bindE_def split: sum.splits)

text \<open>A handler that records the reports about virtual destructors and drops the others.\<close>

definition record_virtual :: handler where
  "record_virtual fn ln cat conf msg g = Inr (if cat = ''runtime/virtual'' then write_err msg g else g)"

lemma nonstandard_quiet: "seqE (nonstandard_lines fn n line line' record_virtual) g = Inr g"
  by (simp add: nonstandard_lines_def Let_def only_if_def record_virtual_def)

lemma record_explicit: "only_if b (record_virtual fn n ''runtime/explicit'' 5 msg) g = Inr g"
  by (simp add: only_if_def record_virtual_def)

lemma check_quiet:
  assumes "n < length (elided cl)" and "length (lines_of cl) = length (elided cl)"
  shows "CheckForNonStandardConstructs fn cl n record_virtual stack g =
    class_line fn n (elided cl ! n) record_virtual stack g"
  using assms by (simp add: CheckForNonStandardConstructs_def nonstandard_quiet)

text \<open>What is known of a class declared at line \<open>i\<close> before line \<open>k\<close> of its body.\<close>

definition virtual_lines :: "string list \<Rightarrow> nat \<Rightarrow> nat \<Rightarrow> nat list" where
  "virtual_lines ls i k = filter (\<lambda>m. declares_virtual (ls ! m)) [i..<k]"

definition destructor_seen :: "string list \<Rightarrow> string \<Rightarrow> nat \<Rightarrow> nat \<Rightarrow> bool" where
  "destructor_seen ls name i k \<longleftrightarrow>
     list_ex (\<lambda>m. declares_virtual (ls ! m) \<and> declares_destructor name (ls ! m)) [i..<k]"

definition depth_at :: "string list \<Rightarrow> nat \<Rightarrow> nat \<Rightarrow> int" where
  "depth_at ls i k = sum_list (map (\<lambda>m. braces_of (ls ! m)) [i..<k])"

definition info_at :: "string list \<Rightarrow> string \<Rightarrow> nat \<Rightarrow> nat \<Rightarrow> class_info" where
  "info_at ls name i k = \<lparr> class_name = name, class_linenum = i, seen_open_brace = True,
     is_derived = bare_colon (ls ! i),
     virtual_method_linenumber = (let vs = virtual_lines ls i k in if vs = [] then None else Some (last vs)),
     has_virtual_destructor = destructor_seen ls (last (str_split name ''::'')) i k,
     brace_depth = depth_at ls i k \<rparr>"

lemma info_at_step:
  "i \<le> k \<Longrightarrow> (note_virtual k (ls ! k) (info_at ls name i k))\<lparr>brace_depth := depth_at ls i (Suc k)\<rparr> =
     info_at ls name i (Suc k)"
  by (auto simp: info_at_def note_virtual_def base_classname_def virtual_lines_def destructor_seen_def Let_def)

lemma depth_at_step: "i \<le> k \<Longrightarrow> depth_at ls i (Suc k) = depth_at ls i k + braces_of (ls ! k)"
  by (simp add: depth_at_def)

lemma class_body_at:
  assumes "i \<le> k"
  shows "class_body fn k (ls ! k) record_virtual (info_at ls name i k) up g =
    (if depth_at ls i (Suc k) \<le> 0 then
       bindE (virtual_report fn record_virtual (info_at ls name i (Suc k)) g) (\<lambda>g. Inr (up, g))
     else Inr (info_at ls name i (Suc k) # up, g))"
proof -
  let ?ci = "note_virtual k (ls ! k) (info_at ls name i k)"
  have d: "brace_depth (info_at ls name i k) + braces_of (ls ! k) = depth_at ls i (Suc k)"
    by (simp add: info_at_def depth_at_step [OF assms])
  have "virtual_report fn record_virtual ?ci = virtual_report fn record_virtual (info_at ls name i (Suc k))"
    by (simp add: virtual_report_def needs_destructor_def flip: info_at_step [OF assms])
  moreover have "class_body fn k (ls ! k) record_virtual (info_at ls name i k) up g =
      (if depth_at ls i (Suc k) \<le> 0 then bindE (virtual_report fn record_virtual ?ci g) (\<lambda>g. Inr (up, g))
       else Inr (?ci\<lparr>brace_depth := depth_at ls i (Suc k)\<rparr> # up, g))"
    by (simp add: class_body_def record_explicit d [symmetric] Let_def)
  ultimately show ?thesis by (simp add: info_at_step [OF assms])
qed

lemma class_line_open:
  assumes "class_decl (ls ! i) = Some name" and "CHR ''{'' \<in> set (ls ! i)" and "CHR '';'' \<notin> set (ls ! i)"
  shows "class_line fn i (ls ! i) record_virtual up g =
    class_body fn i (ls ! i) record_virtual (info_at ls name i i) up g"
proof -
  have "(if bare_colon (ls ! i) then (ClassInfo name i)\<lparr>seen_open_brace := True, is_derived := True\<rparr>
      else (ClassInfo name i)\<lparr>seen_open_brace := True\<rparr>) = info_at ls name i i"
    by (simp add: ClassInfo_def info_at_def virtual_lines_def destructor_seen_def depth_at_def)
  with assms show ?thesis by (auto simp: class_line_def ClassInfo_def Let_def split: if_splits)
qed

lemma class_line_inside:
  "class_decl line = None \<Longrightarrow> class_line fn k line error (info_at ls name i k # up) g =
     class_body fn k line error (info_at ls name i k) up g"
  by (simp add: class_line_def info_at_def Let_def)

lemma walk_inside:
  assumes "class_decl (elided cl ! i) = Some name" and "CHR ''{'' \<in> set (elided cl ! i)"
    and "CHR '';'' \<notin> set (elided cl ! i)" and "length (lines_of cl) = length (elided cl)"
  shows "i < k \<Longrightarrow> k \<le> length (elided cl) \<Longrightarrow> (\<forall>m. i < m \<longrightarrow> m < k \<longrightarrow> class_decl (elided cl ! m) = None) \<Longrightarrow>
    (\<forall>m. i \<le> m \<longrightarrow> m < k \<longrightarrow> 0 < depth_at (elided cl) i (Suc m)) \<Longrightarrow>
    walk_classes fn cl record_virtual [i..<k] (up, g) = Inr (info_at (elided cl) name i k # up, g)"
proof (induction k)
  case (Suc k)
  note step = walk_classes_append [of fn cl record_virtual "[i..<k]" "[k]"]
  show ?case
  proof (cases "i = k")
    case True
    with Suc.prems assms show ?thesis
      by (auto simp: check_quiet class_line_open class_body_at)
  next
    case False
    with Suc have "walk_classes fn cl record_virtual [i..<k] (up, g) = Inr (info_at (elided cl) name i k # up, g)"
      by auto
    moreover have "0 < depth_at (elided cl) i (Suc k)" "class_decl (elided cl ! k) = None"
        "i \<le> k" "k < length (elided cl)"
      using Suc.prems False by auto
    ultimately show ?thesis using assms(4)
      by (auto simp: step check_quiet class_line_inside class_body_at)
  qed
qed simp

section \<open>Properties\<close>

text \<open>
  C20: the stack of classes stays well formed from line to line: brace depths are positive exactly
  for the classes whose brace was seen, the noted lines lie between the class and the current line,
  and the classes lie inside one another in the order of their lines.
\<close>

theorem class_stack_invariant:
  assumes "CheckForNonStandardConstructs fn cl n error stack g = Inr (stack', g')" and "stack_ok n stack"
  shows "stack_ok (Suc n) stack'"
proof -
  from assms(1) obtain line g1 where "class_line fn n line error stack g1 = Inr (stack', g')"
    unfolding CheckForNonStandardConstructs_def bindE_eq_Inr by blast
  then show ?thesis using assms(2) by (rule class_line_ok)
qed

theorem class_stack_invariant_witness:
  "\<exists>stack' g'. CheckForNonStandardConstructs ''a.h'' (CleansedLines [''class A {'']) 0 Error [] init_lint =
     Inr (stack', g') \<and> stack_ok 1 stack' \<and> map class_name stack' = [''A'']"
proof -
  let ?cl = "CleansedLines [''class A {'']"
  have "case CheckForNonStandardConstructs ''a.h'' ?cl 0 Error [] init_lint of
      Inl _ \<Rightarrow> False | Inr (stack', g') \<Rightarrow> map class_name stack' = [''A'']" by code_simp
  then obtain stack' g' where run: "CheckForNonStandardConstructs ''a.h'' ?cl 0 Error [] init_lint = Inr (stack', g')"
    and name: "map class_name stack' = [''A'']" by (auto split: sum.splits)
  have "stack_ok 0 []" by (simp add: stack_ok_def)
  from class_stack_invariant [OF run this] run name show ?thesis by auto
qed

text \<open>
  C9: a class body is followed to the line where its braces balance, and there the class is
  reported for its missing virtual destructor exactly when some line of it declares a virtual
  method, no such line declares the destructor, and the class has no base; the message names the
  last virtual line.
\<close>

theorem virtual_destructor_verdict:
  assumes "class_decl (elided cl ! i) = Some name" and "CHR ''{'' \<in> set (elided cl ! i)"
    and "CHR '';'' \<notin> set (elided cl ! i)" and "length (lines_of cl) = length (elided cl)"
    and "i \<le> j" and "j < length (elided cl)"
    and "\<And>m. i < m \<Longrightarrow> m \<le> j \<Longrightarrow> class_decl (elided cl ! m) = None"
    and "\<And>m. i \<le> m \<Longrightarrow> m < j \<Longrightarrow> 0 < depth_at (elided cl) i (Suc m)"
    and "depth_at (elided cl) i (Suc j) \<le> 0"
  shows "walk_classes fn cl record_virtual [i..<Suc j] (up, g) = Inr (up,
    (let vs = virtual_lines (elided cl) i (Suc j) in
     if vs \<noteq> [] \<and> \<not> destructor_seen (elided cl) (last (str_split name ''::'')) i (Suc j) \<and>
        \<not> bare_colon (elided cl ! i)
     then write_err (''The class '' @ name @ '' probably needs a virtual destructor due to ''
            @ ''having virtual method(s), one declared at line '' @ str_int (int (last vs)) @ ''.'') g
     else g))"
proof -
  have report: "virtual_report fn record_virtual (info_at (elided cl) name i (Suc j)) g =
      Inr (let vs = virtual_lines (elided cl) i (Suc j) in
     if vs \<noteq> [] \<and> \<not> destructor_seen (elided cl) (last (str_split name ''::'')) i (Suc j) \<and>
        \<not> bare_colon (elided cl ! i)
     then write_err (''The class '' @ name @ '' probably needs a virtual destructor due to ''
            @ ''having virtual method(s), one declared at line '' @ str_int (int (last vs)) @ ''.'') g
     else g)"
    by (simp add: virtual_report_def needs_destructor_def info_at_def record_virtual_def Let_def only_if_def)
  show ?thesis
  proof (cases "i = j")
    case True
    with assms(1-4,6,9) report show ?thesis
      by (simp add: check_quiet class_line_open class_body_at)
  next
    case False
    then have "walk_classes fn cl record_virtual [i..<j] (up, g) = Inr (info_at (elided cl) name i j # up, g)"
      using assms by (intro walk_inside) auto
    moreover have "class_decl (elided cl ! j) = None" using assms(5,7) False by simp
    ultimately show ?thesis using assms(4-6,9) report
      by (simp add: walk_classes_append check_quiet class_line_inside class_body_at)
  qed
qed

theorem virtual_destructor_verdict_witness:
  "walk_classes ''a.h'' (CleansedLines [''class A {'', ''  virtual void f();'', ''};'']) record_virtual [0..<3]
      ([], init_lint) = Inr ([], write_err
     (''The class A probably needs a virtual destructor due to having virtual method(s), one declared at line 1.'')
     init_lint)"
proof -
  let ?cl = "CleansedLines [''class A {'', ''  virtual void f();'', ''};'']"
  have e: "elided ?cl = [''class A {'', ''  virtual void f();'', ''};'']"
    and l: "lines_of ?cl = [''class A {'', ''  virtual void f();'', ''};'']" by code_simp+
  have kinds: "class_decl ''class A {'' = Some ''A''" "class_decl ''  virtual void f();'' = None" "class_decl ''};'' = None"
    and found: "virtual_lines (elided ?cl) 0 3 = [1]" "\<not> destructor_seen (elided ?cl) (last (str_split ''A'' ''::'')) 0 3"
      "\<not> bare_colon (elided ?cl ! 0)" "str_int (int 1) = ''1''"
    and depth: "depth_at (elided ?cl) 0 1 = 1" "depth_at (elided ?cl) 0 2 = 1" "depth_at (elided ?cl) 0 3 = 0"
    by (unfold e) code_simp+
  have "walk_classes ''a.h'' ?cl record_virtual [0..<Suc 2] ([], init_lint) = Inr ([],
    (let vs = virtual_lines (elided ?cl) 0 (Suc 2) in
     if vs \<noteq> [] \<and> \<not> destructor_seen (elided ?cl) (last (str_split ''A'' ''::'')) 0 (Suc 2) \<and>
        \<not> bare_colon (elided ?cl ! 0)
     then write_err (''The class '' @ ''A'' @ '' probably needs a virtual destructor due to ''
            @ ''having virtual method(s), one declared at line '' @ str_int (int (last vs)) @ ''.'') init_lint
     else init_lint))"
  proof (rule virtual_destructor_verdict)
    show "class_decl (elided ?cl ! m) = None" if "0 < m" "m \<le> 2" for m
    proof -
      from that have "m = 1 \<or> m = 2" by auto
      then show ?thesis using kinds by (auto simp: e)
    qed
    show "0 < depth_at (elided ?cl) 0 (Suc m)" if "0 \<le> m" "m < 2" for m
    proof -
      from that have "m = 0 \<or> m = 1" by auto
      then show ?thesis using depth by (auto simp: numeral_2_eq_2)
    qed
  qed (use kinds depth in \<open>simp_all add: e l numeral_3_eq_3 numeral_2_eq_2\<close>)
  moreover have "Suc 2 = (3 :: nat)" by simp
  ultimately show ?thesis using found by (simp only: Let_def) simp
qed

end
