(* ===== verification/Lint_Process.thy ===== *)
theory Lint_Process
  imports Lint_Language Lint_Function Lint_Class
begin

text \<open>
  A whole file: \<open>ProcessLine\<close> runs the line checks in their order over the state of the
  file (includes, function, classes) and the linter's, \<open>ProcessFileData\<close> runs it over the
  cleansed lines between the checks of the whole text, and \<open>ProcessFile\<close> reads the file,
  looks at its extension and reports carriage returns. The lemmas carry the contract of the error
  handler through the checks that have a state of their own, up to the whole file.
\<close>

section \<open>A line\<close>

record file_state =
  fs_includes :: include_state
  fs_function :: function_state
  fs_classes :: class_stack

definition init_file_state :: file_state where
  "init_file_state = \<lparr> fs_includes = init_include_state, fs_function = init_function_state, fs_classes = [] \<rparr>"

definition ProcessLine ::
  "environment \<Rightarrow> string \<Rightarrow> string \<Rightarrow> cleansed_lines \<Rightarrow> handler \<Rightarrow> nat \<Rightarrow> file_state \<times> lint
     \<Rightarrow> (file_state \<times> lint) result" where
  "ProcessLine env filename file_extension clean_lines error line = (\<lambda>(s, g).
     bindE (py_index (raw_lines clean_lines) (int line)) (\<lambda>raw_line.
     bindE (ParseNolintSuppressions filename raw_line (int line) error g) (\<lambda>g.
     bindE (CheckForFunctionLengths filename clean_lines line error (fs_function s) g) (\<lambda>(fun_state, g).
     bindE (seqE [
       CheckForMultilineCommentsAndStrings filename clean_lines line error,
       CheckStyle env filename clean_lines line file_extension error] g) (\<lambda>g.
     bindE (CheckLanguage env filename clean_lines line file_extension error (fs_includes s) g) (\<lambda>(inc, g).
     bindE (CheckForNonStandardConstructs filename clean_lines line error (fs_classes s) g) (\<lambda>(classes, g).
     bindE (seqE [
       CheckPosixThreading filename clean_lines line error,
       CheckInvalidIncrement filename clean_lines line error] g) (\<lambda>g.
     Inr (\<lparr> fs_includes = inc, fs_function = fun_state, fs_classes = classes \<rparr>, g)))))))))"

section \<open>The text of a file\<close>

definition marked :: "string list \<Rightarrow> string list" where
  "marked lines =
     ''// marker so line numbers and indices both start at 1'' # lines
     @ [''// marker so line numbers end in a known way'']"

text \<open>
  \<open>dict_order\<close> is the order in which the language enumerates the keys of a dictionary. The
  characters of the model are code points below 256, so the look for \<open>U+FFFD\<close> sees the
  lines as they are.
\<close>

definition ProcessFileData ::
  "environment \<Rightarrow> (string list \<Rightarrow> string list) \<Rightarrow> string \<Rightarrow> string \<Rightarrow> string list \<Rightarrow> handler \<Rightarrow> check" where
  "ProcessFileData env dict_order filename file_extension lines0 error g =
     (let lines = marked lines0; g = ResetNolintSuppressions g in
      bindE (CheckForCopyright filename lines error g) (\<lambda>g.
      bindE (if file_extension = ''h'' then CheckForHeaderGuard env filename lines error g else Inr g) (\<lambda>g.
      bindE (RemoveMultiLineComments filename lines error g) (\<lambda>(lines, g).
      let clean_lines = CleansedLines lines in
      bindE (forE [0..<NumLines clean_lines]
          (ProcessLine env filename file_extension clean_lines error) (init_file_state, g)) (\<lambda>(s, g).
      seqE [
        CheckFinished (fs_classes s) filename error,
        CheckForIncludeWhatYouUse env dict_order filename clean_lines (fs_includes s) error,
        CheckForUnicodeReplacementCharacters filename (map (map of_char) lines) error,
        CheckForNewlineAtEOF filename lines error] g)))))"

section \<open>A file\<close>

text \<open>
  \<open>None\<close> for a file that cannot be read (\<open>IOError\<close>); \<open>-\<close> is the standard input.
\<close>

definition source_text :: "environment \<Rightarrow> string \<Rightarrow> string option" where
  "source_text env filename = (if filename = ''-'' then Some (stdin_text env) else read_file env filename)"

definition drop_returns :: "string \<Rightarrow> string" where
  "drop_returns line = (if endswith line [CHR 0x0D] then rstrip_chars line [CHR 0x0D] else line)"

definition file_extension_of :: "string \<Rightarrow> string" where
  "file_extension_of filename = py_from filename (str_rfind filename ''.'' + 1)"

definition linted :: "string \<Rightarrow> bool" where
  "linted filename \<longleftrightarrow> filename = ''-'' \<or> file_extension_of filename \<in> {''cc'', ''h'', ''cpp''}"

definition ProcessFile ::
  "environment \<Rightarrow> (string list \<Rightarrow> string list) \<Rightarrow> string \<Rightarrow> int \<Rightarrow> check" where
  "ProcessFile env dict_order filename vlevel g =
     (let g = snd (cpplint_SetVerboseLevel vlevel g) in
      case source_text env filename of
        None \<Rightarrow> Inr (write_err (''Skipping input '' @ CHR 0x27 # filename @ CHR 0x27 #
                       '': Can'' @ CHR 0x27 # ''t open for reading'' @ [newline]) g)
      | Some text0 \<Rightarrow>
          (let read_lines = str_split text0 [newline];
               carriage_return_found = list_ex (\<lambda>l. endswith l [CHR 0x0D]) read_lines;
               lines = map drop_returns read_lines
           in bindE (if \<not> linted filename
                then Inr (write_err (''Ignoring '' @ filename @ ''; not a .cc or .h file'' @ [newline]) g)
                else seqE [
                  ProcessFileData env dict_order filename (file_extension_of filename) lines Error,
                  only_if (carriage_return_found \<and> linesep env \<noteq> [CHR 0x0D, newline])
                    (Error filename 0 ''whitespace/newline'' 1
                      (lit (''One or more unexpected `r (^M) found;'' @ ''better to use only a `n'')))] g)
              (\<lambda>g. Inr (write_err (''Done processing '' @ filename @ [newline]) g))))"

section \<open>Steps over the state of a file\<close>

lemma keeps_snd_bind [keeps_intros]:
  "keeps_snd P f \<Longrightarrow> (\<And>s. keeps_snd P (h s)) \<Longrightarrow> keeps_snd P (\<lambda>g. bindE (f g) (\<lambda>(s, g). h s g))"
  unfolding keeps_snd_def by (metis (mono_tags, lifting) bindE_simps(2) case_prod_conv)

lemma keeps_fst_snd: "(\<And>s. keeps_snd P (\<lambda>g. f (s, g))) \<Longrightarrow> keeps (\<lambda>(s, g). P g) f"
  unfolding keeps_def keeps_snd_def by fast

lemma keeps_snd_if:
  "(b \<Longrightarrow> keeps_snd P f) \<Longrightarrow> (\<not> b \<Longrightarrow> keeps_snd P h) \<Longrightarrow> keeps_snd P (\<lambda>g. if b then f g else h g)"
  by (cases b) simp_all

lemma keeps_snd_index:
  "n < length xs \<Longrightarrow> keeps_snd P (f (xs ! n)) \<Longrightarrow> keeps_snd P (\<lambda>g. bindE (py_index xs (int n)) (\<lambda>x. f x g))"
  by simp

section \<open>Function names\<close>

lemma function_start_ast: "RE_FUNCTION_START =
  Cat (Group 1 (Cat (Class False [WordChar]) (Rep True 0 None (Group 2
    (Alt (Class False [WordChar]) (Alt (Cat (Lit CHR '':'') (Lit CHR '':''))
      (Alt (Lit CHR ''*'') (Alt (Lit CHR ''&'') (Class False [SpaceChar]))))))))) (Lit CHR ''('')"
  by code_simp

text \<open>The name before the parenthesis starts with a word character, so it has a last word.\<close>

lemma str_words_aux_nonempty: "(\<exists>c\<in>set s. \<not> is_space c) \<or> acc \<noteq> [] \<Longrightarrow> str_words_aux s acc \<noteq> []"
  by (induction s acc rule: str_words_aux.induct) auto

lemma starting_func_returns: "\<exists>b. starting_func line = Inr b \<and> (b \<longrightarrow> CHR ''('' \<in> set line)"
proof (cases "re_match RE_FUNCTION_START line")
  case None
  then show ?thesis by (intro exI [of _ False]) (simp add: starting_func_def)
next
  case (Some m)
  let ?st0 = "MS [] line []"
  obtain st where st: "sem RE_FUNCTION_START ?st0 st"
    and m: "m = Match_Obj 0 (take (length line - length (rest st)) line) (caps st)"
    using re_match_sem [OF Some] by blast
  from st obtain c st1 st2 where c: "re_word c" "rest ?st0 = c # rest st1"
    and st2: "reaches st1 st2" and paren: "eats (\<lambda>x. x = CHR ''('') (capture 1 ?st0 st2) st"
    unfolding function_start_ast sem.simps(8,11)
    by (auto simp: eats_iff class_matches_def dest!: sem_reaches simp del: sem.simps(10) One_nat_def)
  from st2 obtain t where t: "rest st1 = t @ rest st2" by (auto simp: reaches_def)
  from paren have open_paren: "rest st2 = CHR ''('' # rest st" and caps: "caps st = caps (capture 1 ?st0 st2)"
    by (auto simp: eats_iff)
  have "m_group m 1 = Some (c # t)"
    using c(2) t by (simp add: m caps capture_def m_group_def)
  moreover have "str_words (c # t) \<noteq> []"
    using c(1) str_words_aux_nonempty [of "c # t" "[]"]
    by (auto simp: str_words_def re_word_def is_space_def is_digit_def is_upper_def is_lower_def Let_def)
  moreover have "CHR ''('' \<in> set line" using c(2) t open_paren by simp
  ultimately show ?thesis using Some by (simp add: starting_func_def)
qed

lemma function_label_returns:
  assumes "CHR ''('' \<in> set line"
  shows "\<exists>f. function_label line joined = Inr f"
proof -
  have ast: "rx ''((`w|:)*)`('' = Cat (Group 1 (Rep True 0 None (Group 2
      (Alt (Class False [WordChar]) (Lit CHR '':''))))) (Lit CHR ''('')" by code_simp
  from assms obtain a b where line: "line = a @ CHR ''('' # b" by (meson split_list)
  let ?st = "MS (rev a) (CHR ''('' # b) []"
  have "sem (Group 1 (Rep True 0 None (Group 2 (Alt (Class False [WordChar]) (Lit CHR '':''))))) ?st
      (capture 1 ?st ?st)"
    unfolding sem.simps(10,11) using rep_stop by blast
  moreover have "sem (Lit CHR ''('') (capture 1 ?st ?st) (MS (CHR ''('' # rev a) b (caps (capture 1 ?st ?st)))"
    by (simp add: eats_def)
  ultimately have "\<exists>st. sem (rx ''((`w|:)*)`('') ?st st" unfolding ast sem.simps(8) by blast
  with line have "re_search (rx ''((`w|:)*)`('') line \<noteq> None" unfolding re_search_None by blast
  then show ?thesis by (auto simp: function_label_def Let_def split: option.splits)
qed

lemma find_body_returns: "CHR ''('' \<in> set line \<Longrightarrow> \<exists>r. find_body line ls joined s = Inr r"
proof (induction line ls joined s rule: find_body.induct)
  case (2 line start_line ls joined s)
  obtain f where "function_label line (joined @ '' '' @ lstrip start_line) = Inr f"
    using function_label_returns [OF 2(2)] by blast
  with 2 show ?case
    by (cases "re_search (rx ''(;|})'') start_line"; cases "re_search (rx ''{'') start_line") (auto simp: Let_def)
qed (simp, blast)

section \<open>The checks of the text keep the contract\<close>

text \<open>The lines that the removal of multi-line comments leaves, whatever the handler does.\<close>

definition silent :: handler where
  "silent fn ln cat conf msg g = Inr g"

definition without_comments :: "string list \<Rightarrow> string list" where
  "without_comments lines =
     (case RemoveMultiLineComments [] lines silent init_lint of Inr (ls, _) \<Rightarrow> ls | Inl _ \<Rightarrow> lines)"

context error_handler begin

lemma keeps_remove_comments_from:
  assumes "Inv g"
  shows "\<exists>ls' g'. remove_comments_from fn error i ls g = Inr (ls', g') \<and> Inv g' \<and>
    remove_comments_from [] silent i ls g0 = Inr (ls', g0)"
  using assms
proof (induction "length ls - i" arbitrary: i ls rule: less_induct)
  case less
  let ?b = "FindNextMultiLineCommentStart ls i"
  let ?e = "FindNextMultiLineCommentEnd ls ?b"
  note steps = remove_comments_from.simps [of fn error i ls] remove_comments_from.simps [of "[]" silent i ls]
  consider "length ls \<le> i \<or> length ls \<le> ?b" | "i < length ls" "?b < length ls" "length ls \<le> ?e"
    | "i < length ls" "?b < length ls" "?e < length ls" by linarith
  then show ?case
  proof cases
    case 1
    with less.prems show ?thesis by (auto simp: steps Let_def)
  next
    case 2
    obtain g' where "error fn (int ?b + 1) ''readability/multiline_comment'' 5
        ''Could not find end of multi-line comment'' g = Inr g'" "Inv g'"
      using keepsD [OF error_keeps less.prems] by blast
    with 2 show ?thesis by (simp add: steps Let_def silent_def)
  next
    case 3
    then have "length ls - (?e + 1) < length ls - i"
      using start_range [of i ls] end_range [of ?b ls] by auto
    then have "\<exists>ls' g'. remove_comments_from fn error (?e + 1) (RemoveMultiLineCommentsFromRange ls ?b (?e + 1)) g =
        Inr (ls', g') \<and> Inv g' \<and>
      remove_comments_from [] silent (?e + 1) (RemoveMultiLineCommentsFromRange ls ?b (?e + 1)) g0 = Inr (ls', g0)"
      by (intro less.hyps less.prems) simp
    with 3 show ?thesis by (simp add: steps Let_def)
  qed
qed

lemma RemoveMultiLineComments_returns:
  assumes "Inv g"
  shows "\<exists>g'. RemoveMultiLineComments fn lines error g = Inr (without_comments lines, g') \<and> Inv g'"
  using keeps_remove_comments_from [OF assms, of fn 0 lines init_lint]
  by (auto simp: RemoveMultiLineComments_def without_comments_def)

lemma keeps_CheckForHeaderGuard:
  assumes "\<exists>v. GetHeaderGuardCPPVariable env fn = Inr v"
  shows "keeps Inv (CheckForHeaderGuard env fn lines error)"
proof -
  from assms obtain v where v: "GetHeaderGuardCPPVariable env fn = Inr v" by blast
  show ?thesis
    by (rule keeps_ext [OF CheckForHeaderGuard_def], unfold v bindE_simps Let_def) (intro keeps_intros)
qed

lemma keeps_CheckFinished [keeps_intros]: "keeps Inv (CheckFinished stack fn error)"
  unfolding CheckFinished_def by (intro keeps_intros)

lemma keeps_CheckForNewlineAtEOF [keeps_intros]: "keeps Inv (CheckForNewlineAtEOF fn lines error)"
  unfolding CheckForNewlineAtEOF_def by (intro keeps_intros)

lemma keeps_CheckForIncludeWhatYouUse [keeps_intros]:
  "keeps Inv (CheckForIncludeWhatYouUse env dict_order fn cl s error)"
  unfolding CheckForIncludeWhatYouUse_def by (intro keeps_intros)

lemma keeps_CheckForNonStandardConstructs:
  assumes "n < length (elided cl)" and "length (lines_of cl) = length (elided cl)"
  shows "keeps_snd Inv (CheckForNonStandardConstructs fn cl n error stack)"
proof -
  have "keeps Inv (virtual_report fn error ci)" for ci
    unfolding virtual_report_def by (intro keeps_intros)
  then have body: "keeps_snd Inv (class_body fn n line error ci up)" for line ci up
    by (intro keeps_snd_ext [OF class_body_def], unfold Let_def)
      (intro keeps_snd_bindE keeps_snd_if keeps_snd_Inr keeps_intros)
  have "keeps_snd Inv (class_line fn n line error stack0)" for line stack0
  proof (cases "case class_decl line of None \<Rightarrow> stack0 | Some name \<Rightarrow> ClassInfo name n # stack0")
    case Nil
    then show ?thesis by (simp add: class_line_def keeps_snd_def)
  next
    case (Cons ci up)
    then show ?thesis
      by (intro keeps_snd_ext [OF class_line_def], unfold Cons Let_def list.case)
        (intro keeps_snd_if keeps_snd_Inr body)
  qed
  moreover have "keeps Inv (seqE (nonstandard_lines fn n a b error))" for a b
    unfolding nonstandard_lines_def Let_def by (intro keeps_intros)
  ultimately show ?thesis
    by (intro keeps_snd_ext [OF CheckForNonStandardConstructs_def] keeps_snd_index keeps_snd_bindE)
      (use assms in simp_all)
qed

end

section \<open>The contract for a whole file\<close>

text \<open>
  The length check also needs a verbosity that is not negative: that is the only further demand
  on the state.
\<close>

locale file_handler = error_handler +
  assumes verbosity: "Inv g \<Longrightarrow> 0 \<le> verbose_level g"
begin

lemma keeps_Check: "keeps Inv (Check error fn ln s)"
proof (unfold keeps_def, intro allI impI)
  fix g assume g: "Inv g"
  let ?base = "base_trigger (current_function s)" and ?n = "lines_in_function s"
  have "0 < ?base" by (rule base_trigger_pos)
  have "0 < ?n div ?base" if "exceeds ?n ?base (verbose_level g)"
  proof -
    have "?base * 1 \<le> ?base * 2 ^ nat (verbose_level g)"
      using \<open>0 < ?base\<close> by (intro mult_left_mono) auto
    then have "?base \<le> ?n" using that verbosity [OF g] by (simp add: exceeds_def)
    with \<open>0 < ?base\<close> show ?thesis by (simp add: pos_imp_zdiv_pos_iff)
  qed
  with keepsD [OF error_keeps g] g show "\<exists>g'. Check error fn ln s g = Inr g' \<and> Inv g'"
    by (auto simp: Check_def Let_def)
qed

lemma keeps_CheckForFunctionLengths:
  assumes "n < length (lines_of cl)"
  shows "keeps_snd Inv (CheckForFunctionLengths fn cl n error s)"
proof -
  let ?line = "lines_of cl ! n"
  obtain b where b: "starting_func ?line = Inr b" "b \<longrightarrow> CHR ''('' \<in> set ?line"
    using starting_func_returns by blast
  show ?thesis
  proof (cases b)
    case True
    with b obtain found s' where body: "find_body ?line (drop n (lines_of cl)) [] s = Inr (found, s')"
      using find_body_returns [of ?line "drop n (lines_of cl)" "[]" s] by auto
    have "keeps_snd Inv (\<lambda>g. bindE (only_if (\<not> found) (error fn (int n) ''readability/fn_size'' 5
           ''Lint failed to find start of function body.'') g) (\<lambda>g. Inr (s', g)))"
      by (intro keeps_snd_pair keeps_intros)
    then show ?thesis
      using assms b(1) True body by (elim keeps_snd_ext [rotated]) (simp add: CheckForFunctionLengths_def)
  next
    case False
    have "keeps_snd Inv (\<lambda>g. if function_end ?line then
         bindE (Check error fn (int n) s g) (\<lambda>g. Inr (End s, g))
       else if \<not> blank_code ?line then Inr (Count s, g) else Inr (s, g))"
      by (intro keeps_snd_if keeps_snd_pair keeps_snd_Inr keeps_Check)
    then show ?thesis
      using assms b(1) False by (elim keeps_snd_ext [rotated]) (simp add: CheckForFunctionLengths_def)
  qed
qed

lemma keeps_ProcessLine:
  assumes cl: "n < length (elided cl)" "length (raw_lines cl) = length (elided cl)"
      "length (lines_of cl) = length (elided cl)"
    and name: "\<exists>name. RepositoryName env fn = Inr name" and braces: "braces_ok cl n"
    and guard: "ext = ''h'' \<Longrightarrow> \<exists>v. GetHeaderGuardCPPVariable env fn = Inr v"
  shows "keeps_snd Inv (\<lambda>g. ProcessLine env fn ext cl error n (s, g))"
proof -
  have n: "n < length (raw_lines cl)" "n < length (lines_of cl)" "NumLines cl = length (elided cl)"
    using cl by (simp_all add: NumLines_def)
  show ?thesis
    unfolding ProcessLine_def prod.case
    by (intro keeps_snd_index keeps_snd_bindE keeps_snd_bind keeps_snd_Inr keeps_intros
        keeps_CheckForFunctionLengths keeps_CheckLanguage keeps_CheckForNonStandardConstructs cl n name braces guard)
qed

lemma keeps_ProcessFileData:
  assumes name: "\<exists>name. RepositoryName env fn = Inr name"
    and guard: "ext = ''h'' \<Longrightarrow> \<exists>v. GetHeaderGuardCPPVariable env fn = Inr v"
    and braces: "\<And>n. n < length lines + 2 \<Longrightarrow> braces_ok (CleansedLines (without_comments (marked lines))) n"
  shows "keeps Inv (ProcessFileData env dict_order fn ext lines error)"
proof (unfold keeps_def, intro allI impI)
  fix g assume g: "Inv g"
  let ?ls = "marked lines" and ?cl = "CleansedLines (without_comments (marked lines))"
  let ?g = "ResetNolintSuppressions g"
  have g0: "Inv ?g" using g suppress_inv by (simp add: ResetNolintSuppressions_def)
  have "keeps Inv (\<lambda>g. if ext = ''h'' then CheckForHeaderGuard env fn ?ls error g else Inr g)"
    using keeps_CheckForHeaderGuard [OF guard] by (intro keeps_intros)
  then obtain g1 where g1: "(if ext = ''h'' then CheckForHeaderGuard env fn ?ls error ?g else Inr ?g) = Inr g1" "Inv g1"
    using g0 unfolding keeps_def by blast
  obtain g2 where g2: "RemoveMultiLineComments fn ?ls error g1 = Inr (without_comments ?ls, g2)" "Inv g2"
    using RemoveMultiLineComments_returns [OF g1(2)] by blast
  have "length (without_comments ?ls) = length lines + 2"
    using remove_comments_from_spec [OF g2(1) [unfolded RemoveMultiLineComments_def]] by (simp add: marked_def)
  then have cl: "length (elided ?cl) = length lines + 2" "length (raw_lines ?cl) = length (elided ?cl)"
      "length (lines_of ?cl) = length (elided ?cl)" "NumLines ?cl = length lines + 2"
    by (simp_all add: CleansedLines_def NumLines_def)
  have "keeps (\<lambda>(s, g). Inv g) (forE [0..<NumLines ?cl] (ProcessLine env fn ext ?cl error))"
    by (intro keeps_forE keeps_fst_snd keeps_ProcessLine name) (use braces cl guard in auto)
  then obtain s g3 where g3: "forE [0..<NumLines ?cl] (ProcessLine env fn ext ?cl error) (init_file_state, g2) = Inr (s, g3)"
    "Inv g3"
    using keepsD [of "\<lambda>(s, g). Inv g" _ "(init_file_state, g2)"] g2(2) by fastforce
  have "keeps Inv (seqE [
        CheckFinished (fs_classes s) fn error,
        CheckForIncludeWhatYouUse env dict_order fn ?cl (fs_includes s) error,
        CheckForUnicodeReplacementCharacters fn (map (map of_char) (without_comments ?ls)) error,
        CheckForNewlineAtEOF fn (without_comments ?ls) error])"
    by (intro keeps_intros)
  from keepsD [OF this g3(2)] g1(1) g2(1) g3(1)
  show "\<exists>g'. ProcessFileData env dict_order fn ext lines error g = Inr g' \<and> Inv g'"
    unfolding ProcessFileData_def Let_def CheckForCopyright_def by (simp del: seqE.simps)
qed

end

section \<open>The linter's own handler\<close>

text \<open>
  A run of the linter: the settings stay as they are, and every error counted wrote one line
  besides the \<open>n\<close> other lines.
\<close>

definition run_ok :: "int \<Rightarrow> int \<times> string list \<times> string \<times> string \<Rightarrow> lint \<Rightarrow> bool" where
  "run_ok n st g \<longleftrightarrow> lint_ok n g \<and> settings g = st \<and> 0 \<le> verbose_level g"

lemma verbose_settings: "settings g' = settings g \<Longrightarrow> verbose_level g' = verbose_level g"
  by (simp add: settings_def)

interpretation file_linter: file_handler Error "run_ok n st" for n st
proof unfold_locales
  show "keeps (run_ok n st) (Error fn ln cat conf msg)" for fn ln cat conf msg
  proof (unfold keeps_def, intro allI impI)
    fix g assume g: "run_ok n st g"
    with keepsD [OF linter.error_keeps [of n fn ln cat conf msg]] obtain g'
      where g': "Error fn ln cat conf msg g = Inr g'" "lint_ok n g'"
      by (auto simp: run_ok_def)
    from linter.error_frame [OF g'(1)] g g'(2) verbose_settings [of g' g]
    have "run_ok n st g'" by (simp add: run_ok_def)
    with g' show "\<exists>g'. Error fn ln cat conf msg g = Inr g' \<and> run_ok n st g'" by blast
  qed
  show "run_ok n st (g\<lparr>suppressions := s\<rparr>)" if "run_ok n st g" for g s
    using that linter.suppress_inv by (simp add: run_ok_def settings_def)
  show "0 \<le> verbose_level g" if "run_ok n st g" for g
    using that by (simp add: run_ok_def)
qed

lemma run_ok_write_err: "run_ok n st g \<Longrightarrow> run_ok (n + 1) st (write_err s g)"
  by (auto simp: run_ok_def lint_ok_def filters_ok_def counts_ok_def by_category_def settings_def write_err_def)

text \<open>Where no top directory is a subversion checkout, every file has a repository name.\<close>

definition no_top_checkout :: "environment \<Rightarrow> bool" where
  "no_top_checkout env \<longleftrightarrow> (\<forall>d. dirname d = d \<longrightarrow> \<not> path_exists env (path_join d ''.svn''))"

lemma names_return:
  assumes "no_top_checkout env"
  shows "\<exists>name. RepositoryName env fn = Inr name" "\<exists>v. GetHeaderGuardCPPVariable env fn = Inr v"
proof -
  have name: "\<exists>name. RepositoryName env fn = Inr name" for fn
  proof -
    have "\<exists>r. svn_root env (dirname f) (dirname (dirname f)) = Some r" for f
      using assms by (intro svn_root_returns_aux) (auto simp: no_top_checkout_def)
    then show ?thesis by (auto simp: RepositoryName_def Let_def split: option.splits) (metis option.simps(3))
  qed
  then show "\<exists>name. RepositoryName env fn = Inr name" .
  from name [of "re_sub (rx ''_flymake`.h$'') ''.h'' fn"]
  show "\<exists>v. GetHeaderGuardCPPVariable env fn = Inr v" by (auto simp: GetHeaderGuardCPPVariable_def)
qed

text \<open>
  What a run over one file relies on: on every line of the cleansed text the checks of braces
  return. And how many lines that are no errors it writes.
\<close>

definition read_lines :: "string \<Rightarrow> string list" where
  "read_lines text0 = map drop_returns (str_split text0 [newline])"

definition braces_settle :: "string list \<Rightarrow> bool" where
  "braces_settle lines \<longleftrightarrow>
     list_all (braces_ok (CleansedLines (without_comments (marked lines)))) [0..<length lines + 2]"

definition source_settles :: "environment \<Rightarrow> string \<Rightarrow> bool" where
  "source_settles env fn \<longleftrightarrow>
     (case source_text env fn of None \<Rightarrow> True | Some t \<Rightarrow> \<not> linted fn \<or> braces_settle (read_lines t))"

definition notices :: "environment \<Rightarrow> string \<Rightarrow> int" where
  "notices env fn = (if source_text env fn \<noteq> None \<and> \<not> linted fn then 2 else 1)"

lemma ProcessFileData_run:
  assumes "no_top_checkout env" and "braces_settle lines"
  shows "keeps (run_ok n st) (ProcessFileData env dict_order fn ext lines Error)"
proof (rule file_linter.keeps_ProcessFileData)
  show "braces_ok (CleansedLines (without_comments (marked lines))) k" if "k < length lines + 2" for k
    using assms(2) that unfolding braces_settle_def list_all_iff set_upt Ball_def atLeastLessThan_iff
    by (metis le0)
qed (use names_return [OF assms(1)] in auto)

lemma ProcessFile_run:
  assumes "no_top_checkout env" and "source_settles env fn" and "lint_ok n g" and "0 \<le> v"
  shows "\<exists>g'. ProcessFile env dict_order fn v g = Inr g' \<and>
    run_ok (n + notices env fn) (settings (g\<lparr>verbose_level := v\<rparr>)) g'"
proof -
  let ?g = "g\<lparr>verbose_level := v\<rparr>"
  have start: "run_ok n (settings ?g) ?g"
    using assms(3,4) by (simp add: run_ok_def lint_ok_def filters_ok_def counts_ok_def by_category_def)
  show ?thesis
  proof (cases "source_text env fn")
    case None
    with run_ok_write_err [OF start] show ?thesis
      by (simp add: ProcessFile_def SetVerboseLevel_def notices_def)
  next
    case (Some t)
    show ?thesis
    proof (cases "linted fn")
      case True
      let ?ls = "map drop_returns (str_split t [newline])"
      have "keeps (run_ok n (settings ?g)) (seqE [
          ProcessFileData env dict_order fn (file_extension_of fn) ?ls Error,
          only_if (list_ex (\<lambda>l. endswith l [CHR 0x0D]) (str_split t [newline]) \<and> linesep env \<noteq> [CHR 0x0D, newline])
            (Error fn 0 ''whitespace/newline'' 1
              (lit (''One or more unexpected `r (^M) found;'' @ ''better to use only a `n'')))])"
        using assms(1,2) Some True
        by (intro keeps_intros ProcessFileData_run file_linter.error_keeps)
          (simp_all add: source_settles_def read_lines_def)
      from keepsD [OF this start] obtain g' where g': "seqE [
          ProcessFileData env dict_order fn (file_extension_of fn) ?ls Error,
          only_if (list_ex (\<lambda>l. endswith l [CHR 0x0D]) (str_split t [newline]) \<and> linesep env \<noteq> [CHR 0x0D, newline])
            (Error fn 0 ''whitespace/newline'' 1
              (lit (''One or more unexpected `r (^M) found;'' @ ''better to use only a `n'')))] ?g = Inr g'"
        "run_ok n (settings ?g) g'" by blast
      from run_ok_write_err [OF g'(2)] show ?thesis
        unfolding ProcessFile_def cpplint_SetVerboseLevel_def SetVerboseLevel_def Some snd_conv option.case Let_def notices_def g'(1)
        using True by simp
    next
      case False
      with run_ok_write_err [OF run_ok_write_err [OF start]] Some show ?thesis
        by (simp add: ProcessFile_def SetVerboseLevel_def notices_def add.commute)
    qed
  qed
qed

section \<open>Properties\<close>


text \<open>A run whose conditions hold: a short file, no repository.\<close>

definition plain_env :: environment where
  "plain_env = \<lparr> cwd = ''/w'', path_exists = (\<lambda>_. False),
     read_file = (\<lambda>p. if p = ''a.cc'' then Some (''int x;'' @ [newline]) else None),
     stdin_text = [], linesep = [newline] \<rparr>"

lemma plain_settles: "braces_settle [''int x;'', []]"
proof -
  let ?cl = "CleansedLines (without_comments (marked [''int x;'', []]))"
  have "elided ?cl = [[], ''int x;'', [], []]" by code_simp
  moreover have "\<not> ends_block []" "\<not> ends_block ''int x;''" "\<not> lopsided_else []" "\<not> lopsided_else ''int x;''"
    by code_simp+
  moreover have "IsBlankLine []" by code_simp
  ultimately have "braces_ok ?cl n" if "n < 4" for n
    using that by (auto simp: braces_ok_def Let_def less_Suc_eq numeral_eq_Suc)
  then show ?thesis by (simp add: braces_settle_def list_all_iff)
qed


end
