(* ===== verification/Lint_Options.thy ===== *)
theory Lint_Options
  imports Lint_State
begin

text \<open>
  The command line: \<open>getopt\<close> as far as \<open>ParseArguments\<close> uses it (long options
  only, with unique prefixes), the usage text, and \<open>ParseArguments\<close>, which checks the
  values and installs the settings. Leaving the program is the exception \<open>SystemExit\<close> with
  the status and the text written. The lemmas say how every option is read back and what the
  settings satisfy when \<open>ParseArguments\<close> returns.
\<close>

section \<open>getopt\<close>

datatype getopt_error = GetoptError

type_synonym options = "(string \<times> string) list"

definition long_options :: "string list" where
  "long_options = [''help'', ''output='', ''verbose='', ''counting='', ''filter='']"

definition long_has_args :: "string \<Rightarrow> string list \<Rightarrow> getopt_error + bool \<times> string" where
  "long_has_args opt longopts =
     (let possibilities = filter (\<lambda>p. startswith p opt) longopts in
      if possibilities = [] then Inl GetoptError
      else if opt \<in> set possibilities then Inr (False, opt)
      else if opt @ ''='' \<in> set possibilities then Inr (True, opt)
      else if 1 < length possibilities then Inl GetoptError
      else (let unique_match = hd possibilities in
            if endswith unique_match ''='' then Inr (True, butlast unique_match)
            else Inr (False, unique_match)))"

text \<open>The text before the first equals sign, and the one behind it when there is a sign.\<close>

definition cut_equals :: "string \<Rightarrow> string \<times> string option" where
  "cut_equals opt =
     (if CHR ''='' \<in> set opt
      then (takeWhile (\<lambda>c. c \<noteq> CHR ''='') opt, Some (tl (dropWhile (\<lambda>c. c \<noteq> CHR ''='') opt)))
      else (opt, None))"

definition do_longs ::
  "string \<Rightarrow> string list \<Rightarrow> string list \<Rightarrow> getopt_error + (string \<times> string) \<times> string list" where
  "do_longs opt0 longopts args =
     (let (opt, optarg) = cut_equals opt0 in
      case long_has_args opt longopts of
        Inl e \<Rightarrow> Inl e
      | Inr (has_arg, opt) \<Rightarrow>
          if has_arg then
            (case optarg of
               Some v \<Rightarrow> Inr ((''--'' @ opt, v), args)
             | None \<Rightarrow> (case args of [] \<Rightarrow> Inl GetoptError
                                | v # args \<Rightarrow> Inr ((''--'' @ opt, v), args)))
          else if optarg \<noteq> None then Inl GetoptError
          else Inr ((''--'' @ opt, []), args))"

lemma do_longs_shorter: "do_longs opt longopts args = Inr (p, args') \<Longrightarrow> length args' \<le> length args"
  by (auto simp: do_longs_def split: prod.splits sum.splits if_splits option.splits list.splits)

text \<open>
  The source gives no short options, so an argument with one dash is an error; a single dash, or
  anything without a dash, ends the options, and two dashes end them and are dropped.
\<close>

function getopt :: "string list \<Rightarrow> string list \<Rightarrow> getopt_error + options \<times> string list" where
  "getopt [] longopts = Inr ([], [])"
| "getopt (a # args) longopts =
     (if \<not> startswith a ''-'' \<or> a = ''-'' then Inr ([], a # args)
      else if a = ''--'' then Inr ([], args)
      else if startswith a ''--'' then
        (case do_longs (drop 2 a) longopts args of
           Inl e \<Rightarrow> Inl e
         | Inr (p, args) \<Rightarrow>
             (case getopt args longopts of Inl e \<Rightarrow> Inl e | Inr (opts, args) \<Rightarrow> Inr (p # opts, args)))
      else Inl GetoptError)"
  by pat_completeness auto
termination
  by (relation "measure (\<lambda>(args, longopts). length args)") (auto dest: do_longs_shorter)

declare getopt.simps(2) [simp del]

section \<open>Numbers\<close>

text \<open>
  \<open>int(s)\<close>: white space around the numeral and behind its sign is skipped. The message of
  the \<open>ValueError\<close> is given without the text it quotes.
\<close>

definition py_int :: "string \<Rightarrow> int result" where
  "py_int s =
     (let skip = dropWhile re_space; t = rev (skip (rev (skip s)));
          negative = startswith t ''-'';
          ds = (if negative \<or> startswith t ''+'' then skip (tl t) else t)
      in if ds \<noteq> [] \<and> list_all is_digit ds
         then Inr (if negative then - int (number ds) else int (number ds))
         else Inl (ValueError ''invalid literal for int() with base 10''))"

section \<open>Leaving the program\<close>

definition USAGE :: string where
  "USAGE = str_join [newline] [
     [],
     ''Syntax: cpplint.py [--verbose=#] [--output=vs7] [--filter=-x,+y,...]'',
     ''                   [--counting=total|toplevel|detailed]'',
     ''        <file> [file] ...'',
     [],
     ''  The style guidelines this tries to follow are those in'',
     ''    http://google-styleguide.googlecode.com/svn/trunk/cppguide.xml'',
     [],
     ''  Every problem is given a confidence score from 1-5, with 5 meaning we are'',
     ''  certain of the problem, and 1 meaning it could be a legitimate construct.'',
     ''  This will miss some errors, and is not a substitute for a code review.'',
     [],
     ''  To suppress false-positive errors of a certain category, add a'',
     ''  'NOLINT(category)' comment to the line.  NOLINT or NOLINT(*)'',
     ''  suppresses errors of all categories on that line.'',
     [],
     ''  The files passed in will be linted; at least one file must be provided.'',
     ''  Linted extensions are .cc, .cpp, and .h.  Other file types will be ignored.'',
     [],
     ''  Flags:'',
     [],
     ''    output=vs7'',
     ''      By default, the output is formatted to ease emacs parsing.  Visual Studio'',
     ''      compatible output (vs7) may also be used.  Other formats are unsupported.'',
     [],
     ''    verbose=#'',
     ''      Specify a number 0-5 to restrict errors to certain verbosity levels.'',
     [],
     ''    filter=-x,+y,...'',
     ''      Specify a comma-separated list of category-filters to apply: only'',
     ''      error messages whose category names pass the filters will be printed.'',
     ''      (Category names are printed with the message and look like'',
     ''      \"[whitespace/indent]\".)  Filters are evaluated left to right.'',
     ''      \"-FOO\" and \"FOO\" means \"do not print categories that start with FOO\".'',
     ''      \"+FOO\" means \"do print categories that start with FOO\".'',
     [],
     ''      Examples: --filter=-whitespace,+whitespace/braces'',
     ''                --filter=whitespace,runtime/printf,+runtime/printf_format'',
     ''                --filter=-,+build/include_what_you_use'',
     [],
     ''      To see a list of all the categories used in cpplint, pass no arg:'',
     ''         --filter='',
     [],
     ''    counting=total|toplevel|detailed'',
     ''      The total number of errors found is always printed. If'',
     ''      'toplevel' is provided, then the count of errors in each of'',
     ''      the top-level categories like 'build' and 'whitespace' will'',
     ''      also be printed. If 'detailed' is provided, then a count'',
     ''      is provided for each category like 'build/class'.'',
     []]"

definition PrintUsage :: "string option \<Rightarrow> 'a result" where
  "PrintUsage message =
     (case message of
        Some m \<Rightarrow> Inl (SystemExit 1 (USAGE @ [newline] @ ''FATAL ERROR: '' @ m @ [newline]))
      | None \<Rightarrow> Inl (SystemExit 1 USAGE))"

definition PrintCategories :: "'a result" where
  "PrintCategories =
     Inl (SystemExit 0 (concat (map (\<lambda>cat. ''  '' @ cat @ [newline]) ERROR_CATEGORIES)))"

section \<open>The arguments\<close>

record arguments =
  arg_verbosity :: int
  arg_output :: string
  arg_filters :: string
  arg_counting :: string

definition argument :: "string \<times> string \<Rightarrow> arguments \<Rightarrow> arguments result" where
  "argument = (\<lambda>(opt, val) a.
     if opt = ''--help'' then PrintUsage None
     else if opt = ''--output'' then
       (if val \<notin> {''emacs'', ''vs7''}
        then PrintUsage (Some ''The only allowed output formats are emacs and vs7.'')
        else Inr (a\<lparr>arg_output := val\<rparr>))
     else if opt = ''--verbose'' then bindE (py_int val) (\<lambda>v. Inr (a\<lparr>arg_verbosity := v\<rparr>))
     else if opt = ''--filter'' then
       (if val = [] then PrintCategories else Inr (a\<lparr>arg_filters := val\<rparr>))
     else if opt = ''--counting'' then
       (if val \<notin> {''total'', ''toplevel'', ''detailed''}
        then PrintUsage (Some ''Valid counting options are total, toplevel, and detailed'')
        else Inr (a\<lparr>arg_counting := val\<rparr>))
     else Inr a)"

definition ParseArguments :: "string list \<Rightarrow> lint \<Rightarrow> (string list \<times> lint) result" where
  "ParseArguments args g =
     (case getopt args long_options of
        Inl GetoptError \<Rightarrow> PrintUsage (Some ''Invalid arguments.'')
      | Inr (opts, filenames) \<Rightarrow>
          bindE (forE opts argument \<lparr> arg_verbosity = VerboseLevel g, arg_output = OutputFormat g,
                   arg_filters = [], arg_counting = [] \<rparr>) (\<lambda>a.
          if filenames = [] then PrintUsage (Some ''No files were specified.'')
          else
            (let g = cpplint_SetOutputFormat (arg_output a) g;
                 g = snd (cpplint_SetVerboseLevel (arg_verbosity a) g)
             in bindE (cpplint_SetFilters (arg_filters a) g) (\<lambda>g.
                Inr (filenames, cpplint_SetCountingStyle (arg_counting a) g)))))"

section \<open>Numerals are read back\<close>

lemma is_digit_char [simp]: "n < 10 \<Longrightarrow> is_digit (char_of (48 + n :: nat))"
  by (simp add: is_digit_def Let_def)

lemma digit_value_char [simp]: "n < 10 \<Longrightarrow> digit_value (char_of (48 + n :: nat)) = n"
  by (simp add: digit_value_def)

lemma number_snoc: "number (ds @ [c]) = 10 * number ds + digit_value c"
  by (simp add: number_def)

lemma str_digits_read: "list_all is_digit (str_digits n) \<and> number (str_digits n) = n"
proof (induction n rule: less_induct)
  case (less n)
  show ?case
  proof (cases "n < 10")
    case True
    then show ?thesis by (subst (1 2) str_digits.simps) (simp add: number_def)
  next
    case False
    then have "n div 10 < n" by simp
    from less [OF this] False show ?thesis
      by (subst (1 2) str_digits.simps) (simp add: number_snoc)
  qed
qed

lemma digit_no_space: "is_digit c \<Longrightarrow> \<not> re_space c \<and> c \<noteq> CHR ''-'' \<and> c \<noteq> CHR ''+''"
  by (auto simp: is_digit_def re_space_def Let_def)

lemma dropWhile_digits: "list_all is_digit ds \<Longrightarrow> dropWhile re_space ds = ds"
  by (cases ds) (auto dest: digit_no_space)

lemma py_int_str_int: "py_int (str_int v) = Inr v"
proof -
  let ?ds = "str_digits (nat \<bar>v\<bar>)"
  have ds: "list_all is_digit ?ds" "number ?ds = nat \<bar>v\<bar>" "?ds \<noteq> []"
    using str_digits_read str_digits_nonempty by auto
  have plus: "\<not> startswith ?ds ''-''" "\<not> startswith ?ds ''+''"
    using ds(1,3) by (cases ?ds; auto dest: digit_no_space)+
  have behind: "dropWhile re_space (rev ?ds) = rev ?ds" using ds(1) by (intro dropWhile_digits) simp
  show ?thesis
  proof (cases "v < 0")
    case True
    have "dropWhile re_space (rev (CHR ''-'' # ?ds)) = rev (CHR ''-'' # ?ds)"
    proof -
      obtain d ds where r: "rev ?ds = d # ds" using ds(3) by (cases "rev ?ds") auto
      then have "d \<in> set ?ds" by (metis list.set_intros(1) set_rev)
      then have "\<not> re_space d" using ds(1) digit_no_space by (auto simp: list_all_iff)
      with r show ?thesis by simp
    qed
    moreover have "dropWhile re_space (CHR ''-'' # ?ds) = CHR ''-'' # ?ds" by (simp add: re_space_def)
    ultimately show ?thesis
      using True ds dropWhile_digits [OF ds(1)] by (simp add: py_int_def str_int_def Let_def)
  next
    case False
    then show ?thesis
      using ds dropWhile_digits [OF ds(1)] behind plus by (simp add: py_int_def str_int_def Let_def)
  qed
qed

section \<open>Options are read back\<close>

text \<open>An option as a user means it, and how it is spelled with the first \<open>k\<close> letters of its name.\<close>

datatype cli_option = Output string | Verbose int | Filter string | Counting string

fun option_name :: "cli_option \<Rightarrow> string" where
  "option_name (Output f) = ''output''"
| "option_name (Verbose v) = ''verbose''"
| "option_name (Filter f) = ''filter''"
| "option_name (Counting c) = ''counting''"

fun option_value :: "cli_option \<Rightarrow> string" where
  "option_value (Output f) = f"
| "option_value (Verbose v) = str_int v"
| "option_value (Filter f) = f"
| "option_value (Counting c) = c"

definition spell :: "nat \<times> cli_option \<Rightarrow> string" where
  "spell = (\<lambda>(k, opt). ''--'' @ take k (option_name opt) @ ''='' @ option_value opt)"

fun option_ok :: "cli_option \<Rightarrow> bool" where
  "option_ok (Output f) \<longleftrightarrow> f = ''emacs'' \<or> f = ''vs7''"
| "option_ok (Verbose v) \<longleftrightarrow> True"
| "option_ok (Filter f) \<longleftrightarrow> f \<noteq> []"
| "option_ok (Counting c) \<longleftrightarrow> c = ''total'' \<or> c = ''toplevel'' \<or> c = ''detailed''"

lemma prefix_unique:
  assumes "1 \<le> k"
  shows "long_has_args (take k (option_name opt)) long_options = Inr (True, option_name opt)"
proof -
  have "list_all (\<lambda>k. long_has_args (take k name) long_options = Inr (True, name)) [1..<9]"
    if "name \<in> set [''output'', ''verbose'', ''filter'', ''counting'']" for name
  proof -
    have "list_all (\<lambda>name. list_all (\<lambda>k. long_has_args (take k name) long_options = Inr (True, name)) [1..<9])
        [''output'', ''verbose'', ''filter'', ''counting'']" by code_simp
    then show ?thesis using that unfolding list_all_iff by blast
  qed
  moreover have "option_name opt \<in> set [''output'', ''verbose'', ''filter'', ''counting'']"
    and "length (option_name opt) \<le> 8" by (cases opt; simp)+
  moreover have "take k (option_name opt) = take (min k 8) (option_name opt)"
    using \<open>length (option_name opt) \<le> 8\<close> by (cases "k \<le> 8") (simp_all add: min_def)
  moreover have "min k 8 \<in> set [1..<9]" using assms by auto
  ultimately show ?thesis unfolding list_all_iff by metis
qed

lemma getopt_spell:
  assumes "1 \<le> k"
  shows "getopt (spell (k, opt) # args) long_options =
    (case getopt args long_options of Inl e \<Rightarrow> Inl e
     | Inr (opts, files) \<Rightarrow> Inr ((''--'' @ option_name opt, option_value opt) # opts, files))"
proof -
  let ?name = "take k (option_name opt)"
  have free: "\<forall>c\<in>set ?name. c \<noteq> CHR ''=''"
  proof -
    have "CHR ''='' \<notin> set (option_name opt)" by (cases opt) auto
    then show ?thesis using in_set_takeD by fastforce
  qed
  then have "cut_equals (?name @ ''='' @ option_value opt) = (?name, Some (option_value opt))"
    by (simp add: cut_equals_def takeWhile_append2 dropWhile_append2)
  then have "do_longs (drop 2 (spell (k, opt))) long_options args =
      Inr ((''--'' @ option_name opt, option_value opt), args)"
    using prefix_unique [OF assms, of opt] by (simp add: do_longs_def spell_def numeral_2_eq_2)
  moreover have "startswith (spell (k, opt)) ''--''" "spell (k, opt) \<noteq> ''--''" "startswith (spell (k, opt)) ''-''"
    "spell (k, opt) \<noteq> ''-''"
    by (simp_all add: spell_def)
  ultimately show ?thesis by (simp add: getopt.simps(2) split: sum.splits)
qed

lemma getopt_options:
  assumes "\<forall>(k, opt)\<in>set opts. 1 \<le> k" and "files \<noteq> []" and "\<not> startswith (hd files) ''-'' \<or> hd files = ''-''"
  shows "getopt (map spell opts @ files) long_options =
    Inr (map (\<lambda>(k, opt). (''--'' @ option_name opt, option_value opt)) opts, files)"
  using assms
proof (induction opts)
  case Nil
  then show ?case by (cases files) (simp_all add: getopt.simps(2))
next
  case (Cons p opts)
  then show ?case by (cases p) (simp add: getopt_spell)
qed

text \<open>The values given for each option, in the order of the command line.\<close>

definition outputs :: "(nat \<times> cli_option) list \<Rightarrow> string list" where
  "outputs opts = concat (map (\<lambda>(k, opt). case opt of Output f \<Rightarrow> [f] | _ \<Rightarrow> []) opts)"

definition verbosities :: "(nat \<times> cli_option) list \<Rightarrow> int list" where
  "verbosities opts = concat (map (\<lambda>(k, opt). case opt of Verbose v \<Rightarrow> [v] | _ \<Rightarrow> []) opts)"

definition filter_args :: "(nat \<times> cli_option) list \<Rightarrow> string list" where
  "filter_args opts = concat (map (\<lambda>(k, opt). case opt of Filter f \<Rightarrow> [f] | _ \<Rightarrow> []) opts)"

definition countings :: "(nat \<times> cli_option) list \<Rightarrow> string list" where
  "countings opts = concat (map (\<lambda>(k, opt). case opt of Counting c \<Rightarrow> [c] | _ \<Rightarrow> []) opts)"

lemmas given_defs = outputs_def verbosities_def filter_args_def countings_def

lemma argument_option:
  assumes "option_ok opt"
  shows "argument (''--'' @ option_name opt, option_value opt) a = Inr
    (case opt of Output f \<Rightarrow> a\<lparr>arg_output := f\<rparr> | Verbose v \<Rightarrow> a\<lparr>arg_verbosity := v\<rparr>
     | Filter f \<Rightarrow> a\<lparr>arg_filters := f\<rparr> | Counting c \<Rightarrow> a\<lparr>arg_counting := c\<rparr>)"
  using assms by (cases opt) (auto simp: argument_def py_int_str_int)

lemma arguments_read:
  assumes "\<forall>(k, opt)\<in>set opts. option_ok opt"
  shows "forE (map (\<lambda>(k, opt). (''--'' @ option_name opt, option_value opt)) opts) argument a = Inr
    \<lparr> arg_verbosity = last (arg_verbosity a # verbosities opts), arg_output = last (arg_output a # outputs opts),
      arg_filters = last (arg_filters a # filter_args opts), arg_counting = last (arg_counting a # countings opts) \<rparr>"
  using assms
proof (induction opts arbitrary: a)
  case Nil
  then show ?case by (simp add: given_defs)
next
  case (Cons p opts)
  obtain k opt where p: "p = (k, opt)" by fastforce
  with Cons.prems have ok: "option_ok opt" "\<forall>(k, opt)\<in>set opts. option_ok opt" by auto
  show ?case
    unfolding p list.map prod.case forE.simps argument_option [OF ok(1)] bindE_simps Cons.IH [OF ok(2)]
    by (cases opt) (auto simp: given_defs)
qed

section \<open>What \<open>ParseArguments\<close> leaves\<close>

lemma argument_ok:
  assumes "argument p a = Inr a'"
    and "arg_output a \<in> {''emacs'', ''vs7'', fmt} \<and> arg_counting a \<in> {[], ''total'', ''toplevel'', ''detailed''}"
  shows "arg_output a' \<in> {''emacs'', ''vs7'', fmt} \<and> arg_counting a' \<in> {[], ''total'', ''toplevel'', ''detailed''}"
  using assms
  by (auto simp: argument_def PrintUsage_def PrintCategories_def bindE_eq_Inr split: prod.splits if_splits)

lemma ParseArguments_Inr:
  assumes "ParseArguments args g = Inr (files, g')"
  shows "files \<noteq> [] \<and> filters_ok g' \<and> counting g' \<in> {[], ''total'', ''toplevel'', ''detailed''} \<and>
    output_format g' \<in> {''emacs'', ''vs7'', output_format g} \<and> stderr g' = stderr g \<and>
    suppressions g' = suppressions g \<and> error_count g' = error_count g"
proof -
  from assms obtain opts a g1 where a: "forE opts argument \<lparr> arg_verbosity = verbose_level g, arg_output = output_format g,
                   arg_filters = [], arg_counting = [] \<rparr> = Inr a"
    and "files \<noteq> []"
    and g1: "SetFilters (arg_filters a) (snd (SetVerboseLevel (arg_verbosity a) (SetOutputFormat (arg_output a) g))) = Inr g1"
    and g': "g' = SetCountingStyle (arg_counting a) g1"
    by (auto simp: ParseArguments_def PrintUsage_def bindE_eq_Inr Let_def
        split: sum.splits getopt_error.splits if_splits)
  from forE_invariant [where P = "\<lambda>a. arg_output a \<in> {''emacs'', ''vs7'', output_format g} \<and>
      arg_counting a \<in> {[], ''total'', ''toplevel'', ''detailed''}", OF argument_ok _ a]
  have "arg_output a \<in> {''emacs'', ''vs7'', output_format g}" "arg_counting a \<in> {[], ''total'', ''toplevel'', ''detailed''}"
    by auto
  moreover have "g1 = (snd (SetVerboseLevel (arg_verbosity a) (SetOutputFormat (arg_output a) g)))\<lparr>filters := filters g1\<rparr>"
    using g1 by (auto simp: SetFilters_def Let_def bindE_eq_Inr)
  moreover have "filters_ok g1" using SetFilters_filters_ok [OF g1] .
  ultimately show ?thesis
    using \<open>files \<noteq> []\<close> unfolding g'
    by (cases g1) (auto simp: SetCountingStyle_def SetVerboseLevel_def SetOutputFormat_def filters_ok_def)
qed

text \<open>The ways \<open>ParseArguments\<close> leaves the program, and the exceptions of bad values.\<close>

definition leaves :: "py_exn \<Rightarrow> bool" where
  "leaves e = (case e of
     SystemExit status t \<Rightarrow> status = 1 \<and> startswith t USAGE \<or>
       status = 0 \<and> t = concat (map (\<lambda>cat. ''  '' @ cat @ [newline]) ERROR_CATEGORIES)
   | ValueError m \<Rightarrow> True
   | _ \<Rightarrow> False)"

lemma leaves_ValueError [simp]: "leaves (ValueError m)"
  by (simp only: leaves_def py_exn.case)

lemma leaves_exits:
  "PrintUsage m = Inl e \<Longrightarrow> leaves e" "PrintCategories = Inl e \<Longrightarrow> leaves e"
  "argument p a = Inl e \<Longrightarrow> leaves e" "SetFilters s g = Inl e \<Longrightarrow> leaves e"
proof -
  have usage: "PrintUsage m = Inl e \<Longrightarrow> leaves e" for m and e :: py_exn
  proof -
    have "leaves (SystemExit 1 (USAGE @ t))" for t
      unfolding leaves_def py_exn.case by (intro disjI1 conjI refl startswith_append)
    from this [of "[]"] this show "PrintUsage m = Inl e \<Longrightarrow> leaves e"
      unfolding PrintUsage_def append_Nil2 by (cases m) (simp_all only: option.case sum.inject, blast+)
  qed
  have categories: "PrintCategories = Inl e \<Longrightarrow> leaves e" for e :: py_exn
    unfolding PrintCategories_def leaves_def sum.inject by (drule sym, simp only: py_exn.case, blast)
  have "py_int s = Inl e \<Longrightarrow> leaves e" for s e
    unfolding py_int_def Let_def
    by (simp only: sum.inject sum.distinct simp_thms if_False split: if_split_asm) ((drule sym, simp)+)
  with usage categories show "argument p a = Inl e \<Longrightarrow> leaves e"
    by (cases p) (auto simp: argument_def bindE_eq_Inl split: if_splits)
  have "check_filters fs = Inl e \<Longrightarrow> leaves e" for fs e
    by (induction fs) (auto split: if_splits)
  then show "SetFilters s g = Inl e \<Longrightarrow> leaves e"
    by (auto simp: SetFilters_def Let_def bindE_eq_Inl)
  show "PrintUsage m = Inl e \<Longrightarrow> leaves e" by (rule usage)
  show "PrintCategories = Inl e \<Longrightarrow> leaves e" by (rule categories)
qed

lemma forE_raises: "forE xs f s = Inl e \<Longrightarrow> \<exists>x\<in>set xs. \<exists>s. f x s = Inl e"
  by (induction xs arbitrary: s) (auto simp: bindE_eq_Inl)

section \<open>Properties\<close>

text \<open>
  C21: the command line is read back: options spelled with any non-empty part of their name from
  its start, in any order and number, followed by files, install the last value given for each
  setting, and the default where none is given.
\<close>

theorem options_read_back:
  assumes "\<forall>(k, opt)\<in>set opts. 1 \<le> k \<and> option_ok opt"
    and "files \<noteq> []" and "\<not> startswith (hd files) ''-'' \<or> hd files = ''-''"
    and "\<forall>f\<in>set (clean_filters (last ([] # filter_args opts))). signed_filter f"
  shows "ParseArguments (map spell opts @ files) g = Inr (files,
    g\<lparr>output_format := last (output_format g # outputs opts),
      verbose_level := last (verbose_level g # verbosities opts),
      filters := DEFAULT_FILTERS @ clean_filters (last ([] # filter_args opts)),
      counting := last ([] # countings opts)\<rparr>)"
proof -
  have k: "\<forall>(k, opt)\<in>set opts. 1 \<le> k" and ok: "\<forall>(k, opt)\<in>set opts. option_ok opt" using assms(1) by auto
  have "\<forall>f\<in>set (DEFAULT_FILTERS @ clean_filters (last ([] # filter_args opts))). signed_filter f"
    using assms(4) DEFAULT_FILTERS_signed by auto
  then have "check_filters (DEFAULT_FILTERS @ clean_filters (last ([] # filter_args opts))) = Inr ()"
    using check_filters_Inr by auto
  with assms(2) show ?thesis
    unfolding ParseArguments_def getopt_options [OF k assms(2,3)] sum.case prod.case arguments_read [OF ok]
    by (simp add: SetFilters_def SetOutputFormat_def SetVerboseLevel_def SetCountingStyle_def)
qed

theorem options_read_back_witness:
  "ParseArguments [''--verb=-3'', ''--o=vs7'', ''--filter=-build'', ''--v=4'', ''a.cc''] init_lint = Inr ([''a.cc''],
     init_lint\<lparr>output_format := ''vs7'', verbose_level := 4, filters := DEFAULT_FILTERS @ [''-build''], counting := []\<rparr>)"
proof -
  let ?opts = "[(4, Verbose (- 3)), (1, Output ''vs7''), (6, Filter ''-build''), (1, Verbose 4)]"
  have "map spell ?opts = [''--verb=-3'', ''--o=vs7'', ''--filter=-build'', ''--v=4'']" by code_simp
  moreover have "clean_filters ''-build'' = [''-build'']" by code_simp
  ultimately show ?thesis
    using options_read_back [of ?opts "[''a.cc'']" init_lint]
    by (simp add: given_defs signed_filter_def)
qed

text \<open>
  C22: the two ends of \<open>ParseArguments\<close>: it returns with files to lint, filters that carry
  a sign, and only settings the rest of the program knows, having written nothing; or it leaves the
  program with the usage and status 1, with the list of categories and status 0, or with the
  \<open>ValueError\<close> of a number or a filter.
\<close>

theorem ParseArguments_outcomes:
  "case ParseArguments args g of
     Inr (files, g') \<Rightarrow> files \<noteq> [] \<and> filters_ok g' \<and> counting g' \<in> {[], ''total'', ''toplevel'', ''detailed''} \<and>
       output_format g' \<in> {''emacs'', ''vs7'', output_format g} \<and> stderr g' = stderr g \<and>
       suppressions g' = suppressions g \<and> error_count g' = error_count g
   | Inl e \<Rightarrow> leaves e"
proof (cases "ParseArguments args g")
  case (Inl e)
  then have "leaves e"
    by (auto simp: ParseArguments_def bindE_eq_Inl Let_def leaves_exits
        dest!: forE_raises intro: leaves_exits split: sum.splits getopt_error.splits if_splits)
  with Inl show ?thesis by simp
next
  case (Inr r)
  with ParseArguments_Inr [of args g "fst r" "snd r"] show ?thesis by (simp add: case_prod_beta)
qed

text \<open>
  The usage text gives \<open>--filter=whitespace,runtime/printf,+runtime/printf_format\<close> as an
  example; it is refused, whatever the files, because its first two filters carry no sign.
\<close>

theorem usage_example_refused:
  assumes "\<not> startswith f ''-''"
  shows "ParseArguments (''--filter=whitespace,runtime/printf,+runtime/printf_format'' # f # files) g =
      Inl (ValueError ''Every filter in --filters must start with + or - (whitespace does not)'')"
proof -
  let ?arg = "''whitespace,runtime/printf,+runtime/printf_format''"
  have spelled: "spell (6, Filter ?arg) = ''--filter='' @ ?arg" by (simp add: spell_def)
  have opts: "getopt ((''--filter='' @ ?arg) # f # files) long_options = Inr ([(''--filter'', ?arg)], f # files)"
    using getopt_options [of "[(6, Filter ?arg)]" "f # files"] assms by (simp add: spelled)
  have "check_filters (DEFAULT_FILTERS @ clean_filters ?arg) =
      Inl (ValueError ''Every filter in --filters must start with + or - (whitespace does not)'')"
    by code_simp
  with opts show "ParseArguments (''--filter=whitespace,runtime/printf,+runtime/printf_format'' # f # files) g =
      Inl (ValueError ''Every filter in --filters must start with + or - (whitespace does not)'')"
    by (simp add: ParseArguments_def argument_def SetFilters_def SetOutputFormat_def SetVerboseLevel_def)
qed

theorem usage_example_refused_witness:
  "ParseArguments [''--filter=whitespace,runtime/printf,+runtime/printf_format'', ''a.cc''] init_lint =
     Inl (ValueError ''Every filter in --filters must start with + or - (whitespace does not)'')"
  using usage_example_refused [of "''a.cc''" "[]" init_lint] by simp

end
