(* ===== verification/Lint_Main.thy ===== *)
theory Lint_Main
  imports Lint_Process Lint_Options
begin

text \<open>
  The program: \<open>main\<close> reads the command line, lints the files one after the other, prints
  the counts and leaves with a status. The lemmas carry the accounts of a file over the list of
  files: what is written besides the errors, and that the status tells whether there were any.
\<close>

section \<open>The program\<close>

text \<open>The standard input is at its end once it was read.\<close>

definition after_reading :: "string \<Rightarrow> environment \<Rightarrow> environment" where
  "after_reading filename env = (if filename = ''-'' then env\<lparr>stdin_text := []\<rparr> else env)"

fun process_files :: "environment \<Rightarrow> (string list \<Rightarrow> string list) \<Rightarrow> string list \<Rightarrow> check" where
  "process_files env dict_order [] g = Inr g"
| "process_files env dict_order (filename # filenames) g =
     bindE (ProcessFile env dict_order filename (verbose_level g) g)
       (process_files (after_reading filename env) dict_order filenames)"

text \<open>
  \<open>key_order\<close> enumerates the keys of the dictionary of counts. The result is the status
  \<open>sys.exit\<close> is called with and the final state; every other way out is an exception.
\<close>

definition main ::
  "environment \<Rightarrow> (string list \<Rightarrow> string list) \<Rightarrow> ((string \<rightharpoonup> int) \<Rightarrow> string list) \<Rightarrow> string list \<Rightarrow> lint
     \<Rightarrow> (int \<times> lint) result" where
  "main env dict_order key_order argv g =
     bindE (ParseArguments argv g) (\<lambda>(filenames, g).
     bindE (process_files env dict_order filenames (ResetErrorCounts g)) (\<lambda>g.
     let g = PrintErrorCounts (key_order (errors_by_category g)) g
     in Inr (if 0 < error_count g then 1 else 0, g)))"

section \<open>The accounts of a run\<close>

text \<open>The environments before each file, and the lines that are no errors.\<close>

fun environments :: "environment \<Rightarrow> string list \<Rightarrow> (environment \<times> string) list" where
  "environments env [] = []"
| "environments env (fn # fns) = (env, fn) # environments (after_reading fn env) fns"

definition all_notices :: "environment \<Rightarrow> string list \<Rightarrow> int" where
  "all_notices env fns = (\<Sum>(e, fn)\<leftarrow>environments env fns. notices e fn)"

lemma no_top_checkout_after [simp]: "no_top_checkout (after_reading fn env) = no_top_checkout env"
  by (simp add: no_top_checkout_def after_reading_def)

lemma settings_verbose: "settings (g\<lparr>verbose_level := verbose_level g\<rparr>) = settings g"
  by (simp add: settings_def)

lemma process_files_run:
  assumes "no_top_checkout env" and "\<forall>(e, fn)\<in>set (environments env fns). source_settles e fn"
    and "run_ok n st g"
  shows "\<exists>g'. process_files env dict_order fns g = Inr g' \<and> run_ok (n + all_notices env fns) st g'"
  using assms
proof (induction fns arbitrary: env g n)
  case Nil
  then show ?case by (simp add: all_notices_def)
next
  case (Cons fn fns)
  from Cons.prems have g: "source_settles env fn" "lint_ok n g" "0 \<le> verbose_level g" "settings g = st"
    by (auto simp: run_ok_def)
  from ProcessFile_run [OF Cons.prems(1) g(1-3)] settings_verbose [of g] g(4) obtain g1
    where g1: "ProcessFile env dict_order fn (verbose_level g) g = Inr g1" "run_ok (n + notices env fn) st g1"
    by auto
  have "\<exists>g'. process_files (after_reading fn env) dict_order fns g1 = Inr g' \<and>
      run_ok (n + notices env fn + all_notices (after_reading fn env) fns) st g'"
    by (rule Cons.IH) (use Cons.prems g1 in auto)
  with g1(1) show ?case by (auto simp: all_notices_def ac_simps)
qed

lemma PrintErrorCounts_output:
  "\<exists>out. stderr (PrintErrorCounts keys g) = stderr g @ out \<and> length out = length keys + 1 \<and>
     last out = ''Total errors found: '' @ str_int (error_count g) @ [newline] \<and>
     error_count (PrintErrorCounts keys g) = error_count g"
proof -
  let ?w = "\<lambda>c g. write_err (''Category '' @ CHR 0x27 # c @ CHR 0x27 # '' errors found: ''
           @ str_int (the (errors_by_category g c)) @ [newline]) g"
  have "\<exists>out. stderr (fold ?w keys g) = stderr g @ out \<and> length out = length keys \<and>
      error_count (fold ?w keys g) = error_count g" for g :: lint
  proof (induction keys arbitrary: g)
    case (Cons c keys)
    from Cons [of "?w c g"] show ?case by (auto simp: write_err_def)
  qed simp
  then obtain out where "stderr (fold ?w keys g) = stderr g @ out" "length out = length keys"
    "error_count (fold ?w keys g) = error_count g" by blast
  then show ?thesis by (auto simp: PrintErrorCounts_def write_err_def)
qed

text \<open>What a run leaves behind; \<open>key_order\<close> is applied to the counts it ends with.\<close>

lemma main_run:
  assumes "ParseArguments argv init_lint = Inr (fns, g)" and "0 \<le> verbose_level g"
    and "no_top_checkout env" and "\<forall>(e, fn)\<in>set (environments env fns). source_settles e fn"
  shows "\<exists>status g' keys. main env dict_order key_order argv init_lint = Inr (status, g') \<and>
    int (length (stderr g')) = error_count g' + all_notices env fns + int (length keys) + 1 \<and>
    last (stderr g') = ''Total errors found: '' @ str_int (error_count g') @ [newline] \<and>
    status = (if 0 < error_count g' then 1 else 0) \<and> 0 \<le> error_count g' \<and>
    (\<exists>counts. keys = key_order counts \<and> finite (dom counts) \<and>
      (counting g = ''toplevel'' \<or> counting g = ''detailed'' \<longrightarrow> (\<Sum>c\<in>dom counts. the (counts c)) = error_count g'))"
proof -
  have g: "filters_ok g" "stderr g = []" "error_count g = 0"
    using ParseArguments_Inr [OF assms(1)] by (simp_all add: init_lint_def)
  let ?g = "ResetErrorCounts g"
  have start: "run_ok 0 (settings g) ?g"
    using g assms(2) by (simp add: run_ok_def lint_ok_def counts_ok_def filters_ok_def settings_def ResetErrorCounts_def)
  from process_files_run [OF assms(3,4) start] obtain g1
    where g1: "process_files env dict_order fns ?g = Inr g1" "run_ok (all_notices env fns) (settings g) g1"
    by auto
  let ?keys = "key_order (errors_by_category g1)"
  obtain out where out: "stderr (PrintErrorCounts ?keys g1) = stderr g1 @ out" "length out = length ?keys + 1"
    "last out = ''Total errors found: '' @ str_int (error_count g1) @ [newline]"
    "error_count (PrintErrorCounts ?keys g1) = error_count g1"
    using PrintErrorCounts_output by blast
  have "main env dict_order key_order argv init_lint =
      Inr (if 0 < error_count g1 then 1 else 0, PrintErrorCounts ?keys g1)"
    using assms(1) g1(1) out(4) by (simp add: main_def Let_def)
  moreover have "out \<noteq> []" using out(2) by auto
  moreover have "settings g1 = settings g" using g1(2) by (simp add: run_ok_def)
  then have "by_category g1 = by_category g" by (rule by_category_settings)
  ultimately show ?thesis
    using out g1(2)
    by (intro exI [of _ "if 0 < error_count g1 then 1 else 0"] exI [of _ "PrintErrorCounts ?keys g1"] exI [of _ ?keys])
      (auto simp: run_ok_def lint_ok_def counts_ok_def by_category_def)
qed

section \<open>Properties\<close>



end
