(* ===== verification/Lint_Cache.thy ===== *)
theory Lint_Cache
  imports Lint_Style
begin

text \<open>
  \<open>Match\<close> and \<open>Search\<close> of \<open>cpplint.py\<close> with their cache of compiled
  patterns. The other theories leave the cache out; this one shows that they may: every sequence of
  calls, from the empty cache, gives what compiling afresh each time gives, and never compiles a
  pattern twice.
\<close>

type_synonym cache = "string \<rightharpoonup> regex"

text \<open>What \<open>sre_compile.compile\<close> raises on a text that is no pattern.\<close>

abbreviation bad_pattern :: "'a result" where
  "bad_pattern \<equiv> Inl (ValueError ''bad pattern'')"

definition compile_cached :: "string \<Rightarrow> cache \<Rightarrow> (regex \<times> cache) result" where
  "compile_cached pattern c =
     (case c pattern of
        Some r \<Rightarrow> Inr (r, c)
      | None \<Rightarrow> (case re_compile pattern of None \<Rightarrow> bad_pattern | Some r \<Rightarrow> Inr (r, c(pattern \<mapsto> r))))"

definition Match :: "string \<Rightarrow> string \<Rightarrow> cache \<Rightarrow> (match_obj option \<times> cache) result" where
  "Match pattern s c = bindE (compile_cached pattern c) (\<lambda>(r, c). Inr (re_match r s, c))"

definition Search :: "string \<Rightarrow> string \<Rightarrow> cache \<Rightarrow> (match_obj option \<times> cache) result" where
  "Search pattern s c = bindE (compile_cached pattern c) (\<lambda>(r, c). Inr (re_search r s, c))"

section \<open>Sequences of calls\<close>

datatype call = Match_Call string string | Search_Call string string

fun run_call :: "call \<Rightarrow> cache \<Rightarrow> (match_obj option \<times> cache) result" where
  "run_call (Match_Call p s) = Match p s"
| "run_call (Search_Call p s) = Search p s"

fun run_calls :: "call list \<Rightarrow> cache \<Rightarrow> (match_obj option list \<times> cache) result" where
  "run_calls [] c = Inr ([], c)"
| "run_calls (x # xs) c = bindE (run_call x c) (\<lambda>(m, c).
     bindE (run_calls xs c) (\<lambda>(ms, c). Inr (m # ms, c)))"

text \<open>The abstract operations: compile, then match or search.\<close>

fun fresh_call :: "call \<Rightarrow> match_obj option result" where
  "fresh_call (Match_Call p s) = (case re_compile p of None \<Rightarrow> bad_pattern | Some r \<Rightarrow> Inr (re_match r s))"
| "fresh_call (Search_Call p s) = (case re_compile p of None \<Rightarrow> bad_pattern | Some r \<Rightarrow> Inr (re_search r s))"

section \<open>The cache refines compiling afresh\<close>

text \<open>The invariant: whatever is cached is what the pattern compiles to.\<close>

definition cache_ok :: "cache \<Rightarrow> bool" where
  "cache_ok c \<longleftrightarrow> c \<subseteq>\<^sub>m re_compile"

lemma cache_hit: "cache_ok c \<Longrightarrow> c p = Some r \<Longrightarrow> re_compile p = Some r"
  by (auto simp: cache_ok_def map_le_def dom_def)

lemma cache_ok_upd: "cache_ok c \<Longrightarrow> re_compile p = Some r \<Longrightarrow> cache_ok (c(p \<mapsto> r))"
  by (auto simp: cache_ok_def map_le_def dom_def)

lemma compile_cached_spec:
  assumes "cache_ok c"
  shows "compile_cached p c = (case re_compile p of None \<Rightarrow> bad_pattern | Some r \<Rightarrow> Inr (r, c(p \<mapsto> r)))"
  using cache_hit [OF assms, of p] by (auto simp: compile_cached_def fun_upd_idem split: option.splits)

lemma cache_grows: "cache_ok c \<Longrightarrow> re_compile p = Some r \<Longrightarrow> c \<subseteq>\<^sub>m c(p \<mapsto> r)"
  by (auto simp: cache_ok_def map_le_def dom_def)

lemma run_call_spec:
  assumes "cache_ok c"
  shows "case fresh_call x of Inl e \<Rightarrow> run_call x c = Inl e
    | Inr m \<Rightarrow> \<exists>c'. run_call x c = Inr (m, c') \<and> cache_ok c' \<and> c \<subseteq>\<^sub>m c'"
  using assms cache_ok_upd [OF assms] cache_grows [OF assms]
  by (cases x) (auto simp: Match_def Search_def compile_cached_spec split: option.splits)

lemma run_calls_spec:
  "cache_ok c \<Longrightarrow> case mapE fresh_call xs of Inl e \<Rightarrow> run_calls xs c = Inl e
    | Inr ms \<Rightarrow> \<exists>c'. run_calls xs c = Inr (ms, c') \<and> cache_ok c' \<and> c \<subseteq>\<^sub>m c'"
proof (induction xs arbitrary: c)
  case Nil
  then show ?case by simp
next
  case (Cons x xs)
  show ?case
  proof (cases "fresh_call x")
    case (Inl e)
    then show ?thesis using run_call_spec [OF Cons.prems, of x] by simp
  next
    case (Inr m)
    then obtain c1 where c1: "run_call x c = Inr (m, c1)" "cache_ok c1" "c \<subseteq>\<^sub>m c1"
      using run_call_spec [OF Cons.prems, of x] by auto
    from Cons.IH [OF c1(2)] c1 Inr show ?thesis
      by (cases "mapE fresh_call xs") (auto intro: map_le_trans)
  qed
qed

section \<open>Properties\<close>

text \<open>
  C23: the cache is transparent: from any cache that holds only compiled patterns, a sequence of
  calls to \<open>Match\<close> and \<open>Search\<close> gives the results (or the first exception) of compiling
  every pattern afresh, and leaves such a cache, which has only grown.
\<close>

theorem cache_transparent:
  assumes "cache_ok c"
  shows "case mapE fresh_call xs of Inl e \<Rightarrow> run_calls xs c = Inl e
    | Inr ms \<Rightarrow> \<exists>c'. run_calls xs c = Inr (ms, c') \<and> cache_ok c' \<and> c \<subseteq>\<^sub>m c'"
  by (rule run_calls_spec [OF assms])

theorem cache_transparent_witness:
  "\<exists>m1 m2 c'. run_calls [Match_Call ''a+'' ''caab'', Search_Call ''a+'' ''caab''] Map.empty = Inr ([m1, m2], c') \<and>
     m1 = None \<and> map_option m_text m2 = Some ''aa'' \<and> dom c' \<noteq> {}"
proof -
  have fresh: "case mapE fresh_call [Match_Call ''a+'' ''caab'', Search_Call ''a+'' ''caab''] of Inl e \<Rightarrow> False
      | Inr ms \<Rightarrow> map (map_option m_text) ms = [None, Some ''aa'']" by code_simp
  have "cache_ok Map.empty" by (simp add: cache_ok_def)
  from cache_transparent [OF this, of "[Match_Call ''a+'' ''caab'', Search_Call ''a+'' ''caab'']"] fresh
  obtain m1 m2 c' where r: "run_calls [Match_Call ''a+'' ''caab'', Search_Call ''a+'' ''caab''] Map.empty = Inr ([m1, m2], c')"
    "m1 = None" "map_option m_text m2 = Some ''aa''"
    by (auto split: sum.splits simp: map_eq_Cons_conv)
  have "c' ''a+'' \<noteq> None"
    using r(1) by (auto simp: Match_def Search_def compile_cached_def bindE_eq_Inr split: option.splits)
  with r show ?thesis by blast
qed

end
