(* ===== verification/Build_Test.thy ===== *)
theory Build_Test
  imports Py_Path "HOL-Library.Multiset"
begin

text \<open>
  The running of the unit tests of a build, from \<open>backend/tools/waf-plugins/unittest_gtest.py\<close>:
  which tests the command line selects, what a test task does, and the summary that is made of the
  results when the build is over. The tasks run in several threads; the part that touches the shared
  results is guarded by a lock, so a run of the tests is a sequence of them in the order they finish.
  The process that a test starts is an argument, \<open>popen\<close>.
\<close>

section \<open>Selecting tests\<close>

text \<open>A string option that is not given is \<open>False\<close>, here \<open>None\<close>.\<close>

record test_options =
  check :: bool
  checkall :: bool
  checkone :: "string option"
  checkfilter :: "string option"

definition before_dot :: "string \<Rightarrow> string" where
  "before_dot s = takeWhile (\<lambda>c. c \<noteq> CHR ''.'') s"

definition after_dot :: "string \<Rightarrow> string" where
  "after_dot s = drop 1 (dropWhile (\<lambda>c. c \<noteq> CHR ''.'') s)"

definition match_filter :: "string option \<Rightarrow> string \<Rightarrow> bool" where
  "match_filter filt targ = (case filt of
     None \<Rightarrow> False
   | Some f \<Rightarrow> before_dot f = ''*'' \<or> before_dot f = targ)"

definition test_remover :: "test_options \<Rightarrow> string \<Rightarrow> 'm list \<Rightarrow> 'm list" where
  "test_remover opts target meths =
     (if \<not> check opts \<and> \<not> checkall opts \<and> checkone opts \<noteq> Some target \<and> \<not> match_filter (checkfilter opts) target
      then [] else meths)"

datatype run_status = ASK_LATER | SKIP_ME | RUN_ME

text \<open>\<open>stat\<close> is what \<open>Task.runnable_status\<close> says.\<close>

definition runnable_status :: "test_options \<Rightarrow> string \<Rightarrow> run_status \<Rightarrow> run_status" where
  "runnable_status opts name stat =
     (if stat \<noteq> SKIP_ME then stat
      else if checkall opts then RUN_ME
      else if checkone opts = Some name then RUN_ME
      else if checkfilter opts \<noteq> None \<and> match_filter (checkfilter opts) name then RUN_ME
      else stat)"

section \<open>Running a test\<close>

datatype platform = Win32 | Darwin | Other_Platform

type_synonym variables = "string \<rightharpoonup> string"

text \<open>A result: the file, the exit code, and the bytes written to the two streams.\<close>

type_synonym test_result = "string \<times> int \<times> string \<times> string"

datatype callback = Summary

text \<open>The attributes of the build context; one that is not set is \<open>None\<close>.\<close>

record build_context =
  all_test_paths :: "variables option"
  utest_results :: "test_result list option"
  added_post_fun :: "bool option"
  post_funs :: "callback list"

text \<open>
  What a build offers its tests: the variables of the environment, the platform, the directories of
  the linked programs of each group (\<open>None\<close> for a task generator that links nothing), and how a
  process ends.
\<close>

record test_bed =
  variables_of :: variables
  sys_platform :: platform
  group_dirs :: "string option list list"
  popen :: "string list \<Rightarrow> string \<Rightarrow> variables \<Rightarrow> int \<times> string \<times> string"

text \<open>A test task; \<open>ut_fun\<close> is the function of the generator, if it has one, on the command.\<close>

record utest =
  utest_inputs :: "string list"
  ut_exec :: "string list option"
  ut_fun :: "(string list \<Rightarrow> string list) option"
  ut_cwd :: "string option"

definition pathsep :: "platform \<Rightarrow> string" where
  "pathsep p = (if p = Win32 then '';'' else '':'')"

definition add_path :: "test_bed \<Rightarrow> string list \<Rightarrow> string \<Rightarrow> variables \<Rightarrow> variables" where
  "add_path bed path var dct =
     dct(var \<mapsto> str_join (pathsep (sys_platform bed))
       (path @ [case variables_of bed var of None \<Rightarrow> [] | Some v \<Rightarrow> v]))"

definition linked_dirs :: "test_bed \<Rightarrow> string list" where
  "linked_dirs bed = concat (map (\<lambda>g. concat (map (\<lambda>d. case d of None \<Rightarrow> [] | Some p \<Rightarrow> [p]) g)) (group_dirs bed))"

definition test_paths :: "test_bed \<Rightarrow> variables" where
  "test_paths bed =
     (let fu = variables_of bed; lst = linked_dirs bed in
      case sys_platform bed of
        Win32 \<Rightarrow> add_path bed lst ''PATH'' fu
      | Darwin \<Rightarrow> add_path bed lst ''LD_LIBRARY_PATH'' (add_path bed lst ''DYLD_LIBRARY_PATH'' fu)
      | Other_Platform \<Rightarrow> add_path bed lst ''LD_LIBRARY_PATH'' fu)"

text \<open>The command of a task on a file, with the filter of the command line.\<close>

definition command :: "test_options \<Rightarrow> utest \<Rightarrow> string \<Rightarrow> string list" where
  "command opts t filename =
     (let exec = (case ut_exec t of None \<Rightarrow> [filename] | Some e \<Rightarrow> e);
          exec = (case ut_fun t of None \<Rightarrow> exec | Some f \<Rightarrow> f exec)
      in case checkfilter opts of
           None \<Rightarrow> exec
         | Some f \<Rightarrow> if after_dot f \<noteq> [] then exec @ [''--gtest_filter='' @ after_dot f] else exec)"

definition working_dir :: "utest \<Rightarrow> string \<Rightarrow> string" where
  "working_dir t filename = (case ut_cwd t of
     None \<Rightarrow> dirname filename
   | Some d \<Rightarrow> if d = [] then dirname filename else d)"

definition run_utest :: "test_bed \<Rightarrow> test_options \<Rightarrow> utest \<Rightarrow> build_context \<Rightarrow> build_context result" where
  "run_utest bed opts t bld = bindE (py_index (utest_inputs t) 0) (\<lambda>filename.
     let fu = (case all_test_paths bld of Some fu \<Rightarrow> fu | None \<Rightarrow> test_paths bed);
         bld = bld\<lparr>all_test_paths := Some fu\<rparr>;
         tup = (filename, popen bed (command opts t filename) (working_dir t filename) fu);
         bld = bld\<lparr>utest_results := Some (case utest_results bld of None \<Rightarrow> [tup] | Some ts \<Rightarrow> ts @ [tup])\<rparr>
     in Inr (if added_post_fun bld = Some True then bld
             else bld\<lparr>post_funs := post_funs bld @ [Summary], added_post_fun := Some True\<rparr>))"

section \<open>The summary\<close>

text \<open>
  \<open>out.decode('utf-8')\<close>, the decoder of Python 2, which lets surrogates pass: the code points,
  or \<open>None\<close> where it raises.
\<close>

definition cont_byte :: "char \<Rightarrow> bool" where
  "cont_byte c \<longleftrightarrow> 128 \<le> (of_char c :: nat) \<and> (of_char c :: nat) < 192"

definition bits_of :: "char \<Rightarrow> nat" where
  "bits_of c = of_char c - 128"

fun utf8_decode :: "string \<Rightarrow> nat list option" where
  "utf8_decode [] = Some []"
| "utf8_decode (c # s) =
     (let n = of_char c :: nat in
      if n < 128 then map_option ((#) n) (utf8_decode s)
      else if 194 \<le> n \<and> n < 224 then
        (case s of c1 # s' \<Rightarrow>
           if cont_byte c1 then map_option ((#) ((n - 192) * 64 + bits_of c1)) (utf8_decode s') else None
         | _ \<Rightarrow> None)
      else if 224 \<le> n \<and> n < 240 then
        (case s of c1 # c2 # s' \<Rightarrow>
           let k = ((n - 224) * 64 + bits_of c1) * 64 + bits_of c2 in
           if cont_byte c1 \<and> cont_byte c2 \<and> 2048 \<le> k then map_option ((#) k) (utf8_decode s') else None
         | _ \<Rightarrow> None)
      else if 240 \<le> n \<and> n < 245 then
        (case s of c1 # c2 # c3 # s' \<Rightarrow>
           let k = (((n - 240) * 64 + bits_of c1) * 64 + bits_of c2) * 64 + bits_of c3 in
           if cont_byte c1 \<and> cont_byte c2 \<and> cont_byte c3 \<and> 65536 \<le> k \<and> k < 1114112
           then map_option ((#) k) (utf8_decode s') else None
         | _ \<Rightarrow> None)
      else None)"

text \<open>What is printed: a line in a colour, the bytes of a stream, or decoded text.\<close>

datatype printed = Pprint string string | Bytes string | Unicode "nat list"

text \<open>The output so far, and how the function goes on; that printing itself succeeds is taken for granted.\<close>

type_synonym 'a shown = "printed list \<times> 'a result"

definition show_passed :: "test_options \<Rightarrow> test_result \<Rightarrow> printed list" where
  "show_passed opts = (\<lambda>(f, code, out, err).
     if code = 0
     then Pprint ''GREEN'' (''    '' @ f) # (if checkfilter opts \<noteq> None then [Bytes out] else [])
     else [])"

fun show_failed :: "test_result list \<Rightarrow> unit shown" where
  "show_failed [] = ([], Inl (WafError ''test failed''))"
| "show_failed ((f, code, out, err) # ts) =
     (if code = 0 then show_failed ts
      else case utf8_decode out of
             None \<Rightarrow> ([Pprint ''RED'' (''    '' @ f)], Inl UnicodeDecodeError)
           | Some t \<Rightarrow>
               let (shown, e) = show_failed ts in (Pprint ''RED'' (''    '' @ f) # Unicode t # shown, e))"

definition ratio :: "nat \<Rightarrow> nat \<Rightarrow> string" where
  "ratio k n = str_digits k @ ''/'' @ str_digits n"

definition summary :: "test_options \<Rightarrow> build_context \<Rightarrow> unit shown" where
  "summary opts bld =
     (let lst = (case utest_results bld of None \<Rightarrow> [] | Some ts \<Rightarrow> ts) in
      if lst = [] then ([], Inr ())
      else
        let total = length lst;
            fail = length (filter (\<lambda>(f, code, out, err). code \<noteq> 0) lst);
            head = [Pprint ''CYAN'' ''test summary'', Pprint ''CYAN'' (''  tests that pass '' @ ratio (total - fail) total)]
              @ concat (map (show_passed opts) lst)
        in if fail > 0
           then let (shown, e) = show_failed lst
                in (head @ Pprint ''RED'' (''  tests that fail '' @ ratio fail total) # shown, e)
           else (head, Inr ()))"

section \<open>The runs of a build\<close>

definition fresh_build :: build_context where
  "fresh_build = \<lparr> all_test_paths = None, utest_results = None, added_post_fun = None, post_funs = [] \<rparr>"

text \<open>What a test comes to, which does not depend on the tests before it.\<close>

definition outcome :: "test_bed \<Rightarrow> test_options \<Rightarrow> utest \<Rightarrow> test_result" where
  "outcome bed opts t =
     (let f = hd (utest_inputs t) in (f, popen bed (command opts t f) (working_dir t f) (test_paths bed)))"

definition exit_code :: "test_result \<Rightarrow> int" where
  "exit_code = (\<lambda>(f, code, out, err). code)"

text \<open>The build context after the tests \<open>ts\<close>.\<close>

definition context_after :: "test_bed \<Rightarrow> test_options \<Rightarrow> utest list \<Rightarrow> build_context" where
  "context_after bed opts ts =
     (if ts = [] then fresh_build
      else \<lparr> all_test_paths = Some (test_paths bed), utest_results = Some (map (outcome bed opts) ts),
             added_post_fun = Some True, post_funs = [Summary] \<rparr>)"

lemma run_utest_after:
  "utest_inputs t \<noteq> [] \<Longrightarrow> run_utest bed opts t (context_after bed opts ts) = Inr (context_after bed opts (ts @ [t]))"
  using py_index_nat [of 0 "utest_inputs t"]
  by (simp add: run_utest_def context_after_def fresh_build_def outcome_def Let_def hd_conv_nth)

lemma run_tests:
  "list_all (\<lambda>t. utest_inputs t \<noteq> []) ts \<Longrightarrow>
     forE ts (run_utest bed opts) (context_after bed opts ts0) = Inr (context_after bed opts (ts0 @ ts))"
  by (induction ts arbitrary: ts0) (simp_all add: run_utest_after)

lemma show_failed_raises: "\<exists>e. snd (show_failed ts) = Inl e \<and> (e = WafError ''test failed'' \<or> e = UnicodeDecodeError)"
  by (induction ts rule: show_failed.induct) (auto split: option.split prod.split)

definition results_of :: "build_context \<Rightarrow> test_result list" where
  "results_of bld = (case utest_results bld of None \<Rightarrow> [] | Some ts \<Rightarrow> ts)"

lemma results_after [simp]: "results_of (context_after bed opts ts) = map (outcome bed opts) ts"
  by (simp add: results_of_def context_after_def fresh_build_def)

lemma summary_verdict:
  "snd (summary opts bld) = Inr () \<longleftrightarrow> (\<forall>r\<in>set (results_of bld). exit_code r = 0)"
  using show_failed_raises [of "results_of bld"]
  by (auto simp: summary_def results_of_def exit_code_def Let_def filter_empty_conv split: option.splits prod.splits)

text \<open>The lines that count the tests.\<close>

lemma summary_head:
  "results_of bld \<noteq> [] \<Longrightarrow> take 2 (fst (summary opts bld)) =
     [Pprint ''CYAN'' ''test summary'',
      Pprint ''CYAN'' (''  tests that pass '' @ ratio (length (filter (\<lambda>r. exit_code r = 0) (results_of bld))) (length (results_of bld)))]"
proof -
  let ?l = "results_of bld" and ?bad = "\<lambda>(f, code, out, err). code \<noteq> (0::int)"
  assume "?l \<noteq> []"
  moreover have "(\<lambda>r. exit_code r = 0) = (\<lambda>r. \<not> ?bad r)" by (auto simp: exit_code_def fun_eq_iff)
  then have "length ?l - length (filter ?bad ?l) = length (filter (\<lambda>r. exit_code r = 0) ?l)"
    using sum_length_filter_compl [of ?bad ?l] by simp
  ultimately show ?thesis
    by (auto simp: summary_def results_of_def Let_def numeral_2_eq_2 split: prod.split option.splits)
qed


definition sample_bed :: test_bed where
  "sample_bed = \<lparr> variables_of = (\<lambda>_. None), sys_platform = Other_Platform, group_dirs = [[Some ''/out'', None]],
     popen = (\<lambda>cmd dir vars. (if cmd = [''/out/b''] then 1 else 0, [], [])) \<rparr>"

definition sample_test :: "string \<Rightarrow> utest" where
  "sample_test f = \<lparr> utest_inputs = [f], ut_exec = None, ut_fun = None, ut_cwd = None \<rparr>"

definition sample_options :: test_options where
  "sample_options = \<lparr> check = True, checkall = False, checkone = None, checkfilter = None \<rparr>"


end
