(* ===== verification/Build_Lint.thy ===== *)
theory Build_Lint
  imports Build_Test
begin

text \<open>
  The lint tasks of a build, from \<open>backend/tools/waf-plugins/lint.py\<close>: one for each source
  that is compiled, and, once the source is compiled and its dependencies are known, one for each
  dependency no task has been made for. A node of the build is named by its absolute path. When the
  tasks are asked for their status, and when the scheduler takes one, is not determined, so the build
  is a step relation.
\<close>

section \<open>State and operations\<close>

record lint_task =
  lint_input :: string
  lint_done :: bool
  source_task :: "nat option"

record lint_build =
  lint_ignore_patterns :: "string set"
  files_linted :: "string set"
  to_lint :: "string set"
  source_lints :: "lint_task list"
  outstanding :: "lint_task list"
  total :: nat

definition add_lint_ignore :: "string \<Rightarrow> lint_build \<Rightarrow> lint_build" where
  "add_lint_ignore pattern b = b\<lparr>lint_ignore_patterns := insert pattern (lint_ignore_patterns b)\<rparr>"

definition lint_should_ignore :: "lint_build \<Rightarrow> string \<Rightarrow> bool" where
  "lint_should_ignore b path \<longleftrightarrow> (\<exists>pattern\<in>lint_ignore_patterns b. str_in path pattern)"

text \<open>A compiled task: its identifier and its inputs.\<close>

definition add_files_to_lint :: "string \<Rightarrow> (nat \<times> string list) list \<Rightarrow> lint_build \<Rightarrow> lint_build result" where
  "add_files_to_lint target compiled_tasks b =
     (if target \<noteq> ''testprog'' then
        forE compiled_tasks (\<lambda>(uid, inputs) b. bindE (py_index inputs 0) (\<lambda>i. Inr
          (if i \<in> files_linted b then b
           else b\<lparr>files_linted := insert i (files_linted b),
                  source_lints := source_lints b @ [\<lparr> lint_input = i, lint_done = False, source_task = Some uid \<rparr>]\<rparr>))) b
      else Inr b)"

text \<open>A task made by the class itself has nothing more to do: \<open>__init__\<close> sets \<open>lint_done\<close>.\<close>

definition queue_lint :: "string \<Rightarrow> lint_build \<Rightarrow> lint_build" where
  "queue_lint dep b =
     (if dep \<notin> to_lint b \<and> \<not> lint_should_ignore b dep
      then b\<lparr>to_lint := insert dep (to_lint b),
             outstanding := \<lparr> lint_input = dep, lint_done = True, source_task = None \<rparr> # outstanding b,
             total := total b + 1\<rparr>
      else b)"

text \<open>\<open>node_deps.get(...)\<close> is \<open>None\<close> for a task nothing is known of, and not a thing to loop over.\<close>

definition add_lint_tasks :: "(nat \<Rightarrow> string list option) \<Rightarrow> nat \<Rightarrow> lint_build \<Rightarrow> lint_build result" where
  "add_lint_tasks node_deps k b = bindE (py_index (source_lints b) (int k)) (\<lambda>t.
     case source_task t of
       None \<Rightarrow> Inl AttributeError
     | Some uid \<Rightarrow>
         (case node_deps uid of
            None \<Rightarrow> Inl TypeError
          | Some deps \<Rightarrow>
              let b = fold queue_lint deps b
              in Inr (b\<lparr>source_lints := (source_lints b)[k := t\<lparr>lint_done := True\<rparr>]\<rparr>)))"

text \<open>
  The status of the \<open>k\<close>-th source task; \<open>hasrun\<close> says which of the tasks it runs after have run,
  \<open>stat\<close> is what \<open>Task.runnable_status\<close> says.
\<close>

definition lint_status ::
  "(nat \<Rightarrow> string list option) \<Rightarrow> bool list \<Rightarrow> run_status \<Rightarrow> nat \<Rightarrow> lint_build \<Rightarrow> (run_status \<times> lint_build) result" where
  "lint_status node_deps hasrun stat k b = bindE (py_index (source_lints b) (int k)) (\<lambda>t.
     if \<not> lint_done t
     then if \<not> list_all id hasrun then Inr (ASK_LATER, b)
          else bindE (add_lint_tasks node_deps k b) (\<lambda>b. Inr (stat, b))
     else Inr (stat, b))"

text \<open>
  \<open>run\<close>: the command that is executed, what is printed, and the value returned; \<open>cmd_and_log\<close>
  gives the error output of a command that fails.
\<close>

definition lint_run :: "(string \<Rightarrow> string option) \<Rightarrow> string \<Rightarrow> lint_build \<Rightarrow> string \<Rightarrow> string list \<times> string list \<times> int" where
  "lint_run cmd_and_log lint_program b path =
     (if lint_should_ignore b path then ([], [], 0)
      else let cmd = lint_program @ '' '' @ path
           in case cmd_and_log cmd of
                Some stderr \<Rightarrow> ([cmd], [stderr], 1)
              | None \<Rightarrow> ([cmd], [], 0))"

section \<open>The build as steps\<close>

definition fresh_lint :: "nat \<Rightarrow> lint_build" where
  "fresh_lint n = \<lparr> lint_ignore_patterns = {''unittest-gtest''}, files_linted = {}, to_lint = {},
     source_lints = [], outstanding = [], total = n \<rparr>"

inductive lint_step :: "(nat \<Rightarrow> string list option) \<Rightarrow> lint_build \<Rightarrow> lint_build \<Rightarrow> bool"
  for node_deps where
  ignored: "lint_step node_deps b (add_lint_ignore p b)"
| compiled: "add_files_to_lint target cs b = Inr b' \<Longrightarrow> lint_step node_deps b b'"
| polled: "lint_status node_deps hasrun stat k b = Inr (st, b') \<Longrightarrow> lint_step node_deps b b'"
| taken: "outstanding b = t # ts \<Longrightarrow> lint_step node_deps b (b\<lparr>outstanding := ts\<rparr>)"

inductive_cases lint_step_cases: "lint_step node_deps b b'"

text \<open>
  What holds of every build: sources and dependencies have one task each, the count of tasks is kept,
  the tasks yet to run are among those that were made, and a source whose task is done has each of its
  dependencies linted or ignored.
\<close>

definition covered :: "(nat \<Rightarrow> string list option) \<Rightarrow> lint_build \<Rightarrow> lint_task \<Rightarrow> bool" where
  "covered node_deps b t \<longleftrightarrow> (case source_task t of
     None \<Rightarrow> False
   | Some uid \<Rightarrow> lint_done t \<longrightarrow> (case node_deps uid of
       None \<Rightarrow> False
     | Some deps \<Rightarrow> \<forall>d\<in>set deps. d \<in> to_lint b \<or> lint_should_ignore b d))"

definition lint_inv :: "(nat \<Rightarrow> string list option) \<Rightarrow> nat \<Rightarrow> lint_build \<Rightarrow> bool" where
  "lint_inv node_deps n b \<longleftrightarrow>
     distinct (map lint_input (source_lints b)) \<and> set (map lint_input (source_lints b)) = files_linted b \<and>
     distinct (map lint_input (outstanding b)) \<and> set (map lint_input (outstanding b)) \<subseteq> to_lint b \<and>
     finite (to_lint b) \<and> total b = n + card (to_lint b) \<and>
     (\<forall>t\<in>set (source_lints b). covered node_deps b t)"

lemma should_ignore_mono:
  "lint_ignore_patterns b \<subseteq> lint_ignore_patterns b' \<Longrightarrow> lint_should_ignore b d \<Longrightarrow> lint_should_ignore b' d"
  by (auto simp: lint_should_ignore_def)

lemma covered_mono:
  "covered node_deps b t \<Longrightarrow> to_lint b \<subseteq> to_lint b' \<Longrightarrow> lint_ignore_patterns b \<subseteq> lint_ignore_patterns b' \<Longrightarrow>
     covered node_deps b' t"
  using should_ignore_mono [of b b'] unfolding covered_def by (auto split: option.splits)

lemma covered_update [simp]:
  "covered node_deps (b\<lparr>source_lints := ts\<rparr>) t = covered node_deps b t"
  "covered node_deps (b\<lparr>outstanding := ts\<rparr>) t = covered node_deps b t"
  "covered node_deps (b\<lparr>files_linted := fs\<rparr>) t = covered node_deps b t"
  by (simp_all add: covered_def lint_should_ignore_def cong: option.case_cong)

lemma lint_inv_queue: "lint_inv node_deps n b \<Longrightarrow> lint_inv node_deps n (queue_lint d b)"
  by (auto simp: lint_inv_def queue_lint_def elim!: covered_mono)

lemma queue_lint_frame [simp]:
  "source_lints (queue_lint d b) = source_lints b" "lint_ignore_patterns (queue_lint d b) = lint_ignore_patterns b"
  "to_lint b \<subseteq> to_lint (queue_lint d b)"
  by (auto simp: queue_lint_def)

lemma queue_lints:
  "lint_inv node_deps n b \<Longrightarrow> lint_inv node_deps n (fold queue_lint ds b)"
  "source_lints (fold queue_lint ds b) = source_lints b"
  "lint_ignore_patterns (fold queue_lint ds b) = lint_ignore_patterns b"
  "to_lint b \<subseteq> to_lint (fold queue_lint ds b)"
  "\<forall>d\<in>set ds. d \<in> to_lint (fold queue_lint ds b) \<or> lint_should_ignore b d"
proof (induction ds arbitrary: b)
  case (Cons d ds)
  {
    case 1
    then show ?case using Cons.IH(1) lint_inv_queue by simp
  next
    case 2
    then show ?case using Cons.IH(2) by simp
  next
    case 3
    then show ?case using Cons.IH(3) by simp
  next
    case 4
    show ?case using order_trans [OF queue_lint_frame(3) Cons.IH(4) [of "queue_lint d b"]] by simp
  next
    case 5
    have "d \<in> to_lint (queue_lint d b) \<or> lint_should_ignore b d" by (simp add: queue_lint_def)
    moreover have "lint_should_ignore (queue_lint d b) x = lint_should_ignore b x" for x
      by (simp add: lint_should_ignore_def)
    ultimately show ?case using Cons.IH(4,5) [of "queue_lint d b"] by auto
  }
qed simp_all

lemma lint_inv_ignore: "lint_inv node_deps n b \<Longrightarrow> lint_inv node_deps n (add_lint_ignore p b)"
  by (auto simp: lint_inv_def add_lint_ignore_def elim!: covered_mono)

lemma covered_done:
  "covered node_deps b t \<Longrightarrow> lint_done t \<Longrightarrow> \<exists>uid deps. source_task t = Some uid \<and> node_deps uid = Some deps \<and>
     list_all (\<lambda>d. d \<in> to_lint b \<or> lint_should_ignore b d) deps"
  by (auto simp: covered_def list_all_iff split: option.splits)

lemma lint_inv_source:
  "lint_inv node_deps n b \<Longrightarrow> i \<notin> files_linted b \<Longrightarrow>
     lint_inv node_deps n (b\<lparr>files_linted := insert i (files_linted b),
       source_lints := source_lints b @ [\<lparr> lint_input = i, lint_done = False, source_task = Some uid \<rparr>]\<rparr>)"
  by (auto simp: lint_inv_def) (simp add: covered_def)

lemma lint_inv_files:
  assumes "lint_inv node_deps n b" and "add_files_to_lint target cs b = Inr b'"
  shows "lint_inv node_deps n b'"
proof (cases "target = ''testprog''")
  case True
  then show ?thesis using assms by (simp add: add_files_to_lint_def)
next
  case False
  show ?thesis
  proof (rule forE_invariant [where P = "lint_inv node_deps n"])
    show "forE cs (\<lambda>(uid, inputs) b. bindE (py_index inputs 0) (\<lambda>i. Inr
          (if i \<in> files_linted b then b
           else b\<lparr>files_linted := insert i (files_linted b),
                  source_lints := source_lints b @ [\<lparr> lint_input = i, lint_done = False, source_task = Some uid \<rparr>]\<rparr>))) b = Inr b'"
      using assms(2) False by (simp add: add_files_to_lint_def)
  qed (use assms(1) lint_inv_source in \<open>auto simp: bindE_eq_Inr\<close>)
qed

lemma lint_inv_status:
  assumes inv: "lint_inv node_deps n b" and "lint_status node_deps hasrun stat k b = Inr (st, b')"
  shows "lint_inv node_deps n b'"
proof (cases "b' = b")
  case False
  from assms(2) obtain t where t: "py_index (source_lints b) (int k) = Inr t"
    and add: "add_lint_tasks node_deps k b = Inr b'"
    using False by (auto simp: lint_status_def bindE_eq_Inr split: if_splits)
  have k: "k < length (source_lints b)" "t = source_lints b ! k"
    using t by (cases "k < length (source_lints b)"; simp)+
  from add t obtain uid deps where ud: "source_task t = Some uid" "node_deps uid = Some deps"
    and b': "b' = (fold queue_lint deps b)\<lparr>source_lints := (source_lints b)[k := t\<lparr>lint_done := True\<rparr>]\<rparr>"
    by (auto simp: add_lint_tasks_def bindE_eq_Inr queue_lints(2) Let_def split: option.splits)
  let ?c = "fold queue_lint deps b"
  have c: "lint_inv node_deps n ?c" by (rule queue_lints(1) [OF inv])
  have inputs: "map lint_input (source_lints b') = map lint_input (source_lints b)"
    using k by (simp add: b' map_update) (metis list_update_id map_update)
  have files: "files_linted ?c = files_linted b"
    by (induction deps arbitrary: b) (simp_all add: queue_lint_def)
  have cov: "covered node_deps b' u = covered node_deps ?c u" for u
    by (simp add: b')
  have "covered node_deps b' (t\<lparr>lint_done := True\<rparr>)"
    using ud queue_lints(5) [of deps b] by (simp add: cov) (simp add: covered_def lint_should_ignore_def queue_lints(3))
  moreover have "covered node_deps b' u" if "u \<in> set (source_lints b)" for u
    using that c unfolding cov by (simp add: lint_inv_def queue_lints(2))
  ultimately have "\<forall>u\<in>set (source_lints b'). covered node_deps b' u"
    by (auto simp: b' dest!: set_update_subset_insert [THEN subsetD])
  then show ?thesis
    using c inputs unfolding lint_inv_def by (simp add: queue_lints(2)) (simp add: b')
qed (use inv in simp)

lemma lint_step_inv: "lint_step node_deps b b' \<Longrightarrow> lint_inv node_deps n b \<Longrightarrow> lint_inv node_deps n b'"
proof (induction rule: lint_step.induct)
  case (taken b t ts)
  then show ?case by (auto simp: lint_inv_def)
qed (blast intro: lint_inv_ignore lint_inv_files lint_inv_status)+

text \<open>
  C28: whatever the order in which programs are declared, patterns are ignored, tasks are polled and
  tasks are taken by the scheduler: no source and no dependency is given a second lint task, the number
  of tasks the scheduler expects grows by exactly the tasks that were made, and once a source's task has
  been let through, every file it depends on is linted or ignored.
\<close>

theorem lint_once:
  assumes "(lint_step node_deps)\<^sup>*\<^sup>* (fresh_lint n) b"
  shows "distinct (map lint_input (source_lints b)) \<and> set (map lint_input (source_lints b)) = files_linted b \<and>
    distinct (map lint_input (outstanding b)) \<and> set (map lint_input (outstanding b)) \<subseteq> to_lint b \<and>
    total b = n + card (to_lint b) \<and>
    list_all (\<lambda>t. lint_done t \<longrightarrow> (\<exists>uid deps. source_task t = Some uid \<and> node_deps uid = Some deps \<and>
      list_all (\<lambda>d. d \<in> to_lint b \<or> lint_should_ignore b d) deps)) (source_lints b)"
proof -
  from assms have "lint_inv node_deps n b"
  proof (induction rule: rtranclp_induct)
    case base
    show ?case by (simp add: lint_inv_def fresh_lint_def)
  next
    case (step b b')
    then show ?case by (blast intro: lint_step_inv)
  qed
  then show ?thesis
    using covered_done [of node_deps b] by (simp add: lint_inv_def list_all_iff)
qed

definition sample_deps :: "nat \<Rightarrow> string list option" where
  "sample_deps = [1 \<mapsto> [''/p/a.h'', ''/p/external/z.h'']]"

definition sample_lint :: lint_build where
  "sample_lint = \<lparr> lint_ignore_patterns = {''external'', ''unittest-gtest''}, files_linted = {''/p/a.cpp''}, to_lint = {''/p/a.h''},
     source_lints = [\<lparr> lint_input = ''/p/a.cpp'', lint_done = True, source_task = Some 1 \<rparr>],
     outstanding = [\<lparr> lint_input = ''/p/a.h'', lint_done = True, source_task = None \<rparr>], total = 1 \<rparr>"

lemma sample_lint_reached: "(lint_step sample_deps)\<^sup>*\<^sup>* (fresh_lint 0) sample_lint"
proof -
  let ?b1 = "add_lint_ignore ''external'' (fresh_lint 0)"
  let ?b2 = "?b1\<lparr>files_linted := {''/p/a.cpp''},
      source_lints := [\<lparr> lint_input = ''/p/a.cpp'', lint_done = False, source_task = Some 1 \<rparr>]\<rparr>"
  have "lint_step sample_deps (fresh_lint 0) ?b1" by (rule lint_step.ignored)
  moreover have "add_files_to_lint ''prog'' [(1, [''/p/a.cpp''])] ?b1 = Inr ?b2"
    using py_index_nat [of 0 "[''/p/a.cpp'']"] by (simp add: add_files_to_lint_def add_lint_ignore_def fresh_lint_def)
  then have "lint_step sample_deps ?b1 ?b2" by (rule lint_step.compiled)
  moreover have "lint_status sample_deps [True] RUN_ME 0 ?b2 = Inr (RUN_ME, sample_lint)"
    using py_index_nat [of 0 "source_lints ?b2"]
    by (simp add: lint_status_def add_lint_tasks_def sample_deps_def sample_lint_def add_lint_ignore_def fresh_lint_def
        queue_lint_def lint_should_ignore_def str_in_def str_find_def startswith_def Let_def)
  then have "lint_step sample_deps ?b2 sample_lint" by (rule lint_step.polled)
  ultimately show ?thesis by (meson converse_rtranclp_into_rtranclp rtranclp.rtrancl_refl)
qed

theorem lint_once_witness:
  "total sample_lint = 0 + card (to_lint sample_lint) \<and> distinct (map lint_input (outstanding sample_lint))"
  using lint_once [OF sample_lint_reached] by blast

end
