(* ===== verification/Build_Cpplint.thy ===== *)
theory Build_Cpplint
  imports Lint_Main Build_Lint
begin

text \<open>
  Where the build and the style checker meet: the lint task of \<open>backend/tools/waf-plugins/lint.py\<close>
  starts \<open>cpplint.py\<close> on a file by way of \<open>waf\<close>'s \<open>cmd_and_log\<close>, and fails when the program's
  exit status is not zero. What \<open>cmd_and_log\<close> does with a command is \<open>waf\<close>'s; its documented
  behaviour on a command of plain words is the contract \<open>shell_runs\<close>.
\<close>

section \<open>A command line of plain words\<close>

text \<open>A word that the shell passes on as it is and that is not read as an option.\<close>

definition plain_char :: "char \<Rightarrow> bool" where
  "plain_char c \<longleftrightarrow> (let n = of_char c :: nat in
     48 \<le> n \<and> n \<le> 57 \<or> 65 \<le> n \<and> n \<le> 90 \<or> 97 \<le> n \<and> n \<le> 122 \<or> c \<in> {CHR ''_'', CHR ''.'', CHR ''/'', CHR ''-'', CHR ''+''})"

definition plain_word :: "string \<Rightarrow> bool" where
  "plain_word w \<longleftrightarrow> w \<noteq> [] \<and> list_all plain_char w \<and> hd w \<noteq> CHR ''-''"

text \<open>
  The command is run by the shell in a process of its own, which starts with the settings of a fresh
  program; a status that is not zero is an exception that carries what was written to the error output.
\<close>

definition shell_runs :: "(string \<Rightarrow> string option) \<Rightarrow> string \<Rightarrow> (string list \<Rightarrow> lint \<Rightarrow> (int \<times> lint) result) \<Rightarrow> bool" where
  "shell_runs cmd_and_log program_name program \<longleftrightarrow>
     (\<forall>w status g. plain_word w \<longrightarrow> program [w] init_lint = Inr (status, g) \<longrightarrow>
        cmd_and_log (program_name @ '' '' @ w) = (if status = 0 then None else Some (concat (stderr g))))"

lemma ParseArguments_file:
  assumes "plain_word w"
  shows "ParseArguments [w] init_lint = Inr ([w], init_lint\<lparr>counting := []\<rparr>)"
proof -
  have "\<not> startswith w ''-''" using assms by (cases w) (auto simp: plain_word_def startswith_def)
  then have opts: "getopt [w] long_options = Inr ([], [w])" by (simp add: getopt.simps(2))
  have "clean_filters [] = []" "check_filters DEFAULT_FILTERS = Inr ()" by code_simp+
  then have "SetFilters [] init_lint = Inr init_lint" by (simp add: SetFilters_def init_lint_def)
  then show ?thesis
    by (simp add: ParseArguments_def opts SetOutputFormat_def SetVerboseLevel_def SetCountingStyle_def)
qed

section \<open>The verdict of a lint task\<close>


definition sample_shell :: "string \<Rightarrow> string option" where
  "sample_shell cmd = (case main plain_env (\<lambda>ks. ks) (\<lambda>_. []) [drop 8 cmd] init_lint of
     Inr (status, g) \<Rightarrow> if status = 0 then None else Some (concat (stderr g)) | Inl e \<Rightarrow> Some [])"


end
