(* ===== verification/Build_Gtest.thy ===== *)
theory Build_Gtest
  imports Build_Test
begin

text \<open>
  How \<open>backend/tools/waf-plugins/unittest_gtest.py\<close> provides the test library and attaches it:
  the unpacking of the archive the plugin carries in its own source, and the methods that turn a
  program into a test. What is done to the file system is the list of operations, in their order; the
  exit codes of the commands are an argument.
\<close>

section \<open>Unpacking\<close>

definition UNPACK_DIR :: string where
  "UNPACK_DIR = ''.unittest-gtest''"

definition GTEST_DIR :: string where
  "GTEST_DIR = ''gtest-1.6.0/fused-src''"

definition C1 :: string where
  "C1 = ''#XXX''"

definition C2 :: string where
  "C2 = ''#YYY''"

text \<open>
  The archive, from the lines of the file: the line after the opening mark. What is logged on the way
  comes with it; without a mark the program exits. A \<open>readline\<close> at the end of the file is empty.
\<close>

definition first_line :: "string list \<Rightarrow> string" where
  "first_line ls = (case ls of [] \<Rightarrow> [] | l # _ \<Rightarrow> l)"

fun read_archive :: "string list \<Rightarrow> string list \<times> string result" where
  "read_archive [] = ([''not contain gtest archive''], Inl (SystemExit 1 []))"
| "read_archive (line # ls) =
     (if line = ''#==>'' @ [newline] then
        let txt = first_line ls
        in ((if txt = [] then [''corrupt archive''] else []) @
            (if first_line (tl ls) \<noteq> ''#<=='' @ [newline] then [''corrupt archive''] else []), Inr txt)
      else read_archive ls)"

definition unescape :: "string \<Rightarrow> string" where
  "unescape txt = str_replace (str_replace (py_slice txt 1 (- 1)) C1 [newline]) C2 [CHR 0x0D]"

datatype fs_op = Rmtree string | Makedirs string | Chdir string | Write_File string string | Call "string list" | Unlink string

definition tmp :: string where
  "tmp = ''t.tar.bz2''"

definition unpack_commands :: "string list list" where
  "unpack_commands =
     [[''tar'', ''xf'', tmp],
      [''mkdir'', GTEST_DIR @ ''/gtest/gtest''],
      [''cp'', GTEST_DIR @ ''/gtest/gtest.h'', GTEST_DIR @ ''/gtest/gtest/gtest.h'']]"

text \<open>The commands up to the first that fails, and whether all succeeded; \<open>None\<close> is a command that cannot be started.\<close>

fun call_all :: "(string list \<Rightarrow> int option) \<Rightarrow> string list list \<Rightarrow> fs_op list \<times> bool" where
  "call_all call [] = ([], True)"
| "call_all call (c # cs) =
     (if call c = Some 0 then let (ops, ok) = call_all call cs in (Call c # ops, ok) else ([Call c], False))"

text \<open>
  The operations, what is logged, and the directory that the configuration gets. \<open>stray\<close> says whether
  the directory the build is run from holds a file of the temporary name: when a command fails the
  directory is changed back before the temporary file is removed, and removing a file that is not there
  raises.
\<close>

definition unpack_gtest ::
  "(string list \<Rightarrow> int option) \<Rightarrow> string \<Rightarrow> bool \<Rightarrow> string list \<Rightarrow> fs_op list \<times> string list \<times> string result" where
  "unpack_gtest call home stray file_lines = (case read_archive file_lines of
     (logged, Inl e) \<Rightarrow> ([], logged, Inl e)
   | (logged, Inr txt) \<Rightarrow>
       (let start = [Rmtree UNPACK_DIR, Makedirs UNPACK_DIR, Chdir UNPACK_DIR, Write_File tmp (unescape txt)];
            (ops, ok) = call_all call unpack_commands
        in if ok
           then (start @ ops @ [Unlink tmp, Chdir home], logged, Inr (path_join home UNPACK_DIR))
           else let failed = start @ ops @ [Chdir home, Rmtree UNPACK_DIR];
                    logged = logged @ [''gtest cannot be unpacked.'']
                in if stray then (failed @ [Unlink tmp, Chdir home], logged, Inr home)
                   else (failed @ [Unlink tmp], logged, Inl OSError)))"

text \<open>\<open>configure\<close>: the message about the unpacking, and the path it leaves in the environment.\<close>

definition gtest_configure ::
  "(string list \<Rightarrow> int option) \<Rightarrow> string \<Rightarrow> bool \<Rightarrow> string list \<Rightarrow> string \<times> string option" where
  "gtest_configure call home stray file_lines = (case snd (snd (unpack_gtest call home stray file_lines)) of
     Inr path \<Rightarrow> (''yes'', Some path)
   | Inl e \<Rightarrow> (''no'', None))"

section \<open>Attaching the library to a test\<close>

text \<open>An attribute that holds names is a list, or a string of words.\<close>

datatype names = Words string | Names "string list"

definition to_list :: "names \<Rightarrow> string list" where
  "to_list v = (case v of Words s \<Rightarrow> str_words s | Names xs \<Rightarrow> xs)"

record test_generator =
  features :: "string list"
  gen_includes :: "names option"
  gen_use :: "names option"
  install_path_cleared :: bool
  gen_tasks :: "(string \<times> string list) list"

definition attr_list :: "names option \<Rightarrow> string list" where
  "attr_list v = (case v of None \<Rightarrow> [] | Some v \<Rightarrow> to_list v)"

text \<open>\<open>os.path.relpath\<close> of two absolute paths.\<close>

fun common_names :: "string list \<Rightarrow> string list \<Rightarrow> nat" where
  "common_names (x # xs) (y # ys) = (if x = y then Suc (common_names xs ys) else 0)"
| "common_names _ _ = 0"

definition relpath :: "string \<Rightarrow> string \<Rightarrow> string" where
  "relpath path start =
     (let ps = filter (\<lambda>c. c \<noteq> []) (str_split (normpath path) ''/'');
          ss = filter (\<lambda>c. c \<noteq> []) (str_split (normpath start) ''/'');
          i = common_names ss ps;
          rel = replicate (length ss - i) ''..'' @ drop i ps
      in if rel = [] then ''.'' else str_join ''/'' rel)"

text \<open>\<open>gtest_path\<close> and \<open>here\<close> are \<open>env.UNITTEST_GTEST_PATH\<close> and \<open>path.abspath()\<close>.\<close>

definition gtest_sources :: "string list" where
  "gtest_sources = [UNPACK_DIR @ ''/'' @ GTEST_DIR @ ''/gtest/gtest-all.cc'', UNPACK_DIR @ ''/'' @ GTEST_DIR @ ''/gtest/gtest_main.cc'']"

text \<open>The objects of the library that a build has been asked for so far: at most once.\<close>

type_synonym library_objects = "(string list \<times> string) list"

definition gtest_attach ::
  "string \<Rightarrow> string \<Rightarrow> test_generator \<Rightarrow> library_objects \<times> bool \<Rightarrow> test_generator \<times> (library_objects \<times> bool)" where
  "gtest_attach gtest_path here g = (\<lambda>(objects, def_gtest_objects).
     (g\<lparr>gen_includes := Some (Names (attr_list (gen_includes g) @ [relpath gtest_path here @ ''/'' @ GTEST_DIR])),
        gen_use := Some (Names (attr_list (gen_use g) @ [''GTEST_PTHREAD'', ''GTEST_OBJECTS'']))\<rparr>,
      (if def_gtest_objects then objects else objects @ [(gtest_sources, ''GTEST_OBJECTS'')], True)))"

text \<open>\<open>link_outputs\<close> are the outputs of the link task; the error that is logged names the generator.\<close>

definition make_test :: "string list \<Rightarrow> test_generator \<Rightarrow> test_generator \<times> string list" where
  "make_test link_outputs g =
     (if ''cprogram'' \<notin> set (features g) \<and> ''cxxprogram'' \<notin> set (features g)
      then (g, [''test cannot be executed''])
      else (g\<lparr>install_path_cleared := True, gen_tasks := gen_tasks g @ [(''utest'', link_outputs)]\<rparr>, []))"

section \<open>Properties of the unpacking\<close>

lemma read_archive_skips: "''#==>'' @ [newline] \<notin> set ls \<Longrightarrow> read_archive (ls @ xs) = read_archive xs"
  by (induction ls) auto

lemma call_all_ok: "snd (call_all call cs) \<longleftrightarrow> list_all (\<lambda>c. call c = Some 0) cs"
  by (induction cs) (auto split: prod.splits)

text \<open>
  C38: on a file that carries an archive between its marks, the library is found unpacked exactly when
  all three commands succeed, and then in the directory made for it; when one fails, the configuration
  says no, unless the directory it is run from has a file of the temporary name: that file is removed,
  and that directory is taken for the library.
\<close>

theorem unpacking_verdict:
  assumes "''#==>'' @ [newline] \<notin> set ls"
    and its_lines: "file_lines = ls @ (''#==>'' @ [newline]) # txt # (''#<=='' @ [newline]) # ls'"
  shows "gtest_configure call home stray file_lines =
      (if list_all (\<lambda>c. call c = Some 0) unpack_commands then (''yes'', Some (path_join home UNPACK_DIR))
       else if stray then (''yes'', Some home) else (''no'', None)) \<and>
    (stray \<longrightarrow> \<not> list_all (\<lambda>c. call c = Some 0) unpack_commands \<longrightarrow>
       (\<exists>ops. fst (unpack_gtest call home stray file_lines) = ops @ [Chdir home, Rmtree UNPACK_DIR, Unlink tmp, Chdir home]))"
proof -
  obtain logged where r: "read_archive file_lines = (logged, Inr txt)"
    using read_archive_skips [OF assms(1)] by (simp add: its_lines first_line_def)
  obtain ops ok where c: "call_all call unpack_commands = (ops, ok)" by (cases "call_all call unpack_commands")
  have ok: "ok = list_all (\<lambda>c. call c = Some 0) unpack_commands"
    using call_all_ok [of call unpack_commands] by (simp add: c)
  show ?thesis by (simp add: gtest_configure_def unpack_gtest_def r c Let_def flip: ok)
qed

theorem unpacking_verdict_witness:
  "gtest_configure (\<lambda>c. if c = [''tar'', ''xf'', tmp] then Some 2 else Some 0) ''/src'' True
     [''import os'' @ [newline], ''#==>'' @ [newline], ''#BZh'' @ [newline], ''#<=='' @ [newline]] = (''yes'', Some ''/src'')"
  using unpacking_verdict [of "[''import os'' @ [newline]]" _ "''#BZh'' @ [newline]" "[]"
      "\<lambda>c. if c = [''tar'', ''xf'', tmp] then Some 2 else Some 0" "''/src''" True, OF _ refl]
  by (simp add: unpack_commands_def)

end
