(* ===== verification/Build_Link.thy ===== *)
theory Build_Link
  imports Build_Gtest
begin

text \<open>
  The run-time search path of a program, from \<open>backend/tools/waf-plugins/local_rpath.py\<close>: starting
  from the libraries a program uses, the directory of every library that is built here, and of every
  library these use in turn. The search keeps no record of what it has seen, so it is a function that
  may not return, \<open>None\<close>.
\<close>

text \<open>A task generator: the directories of the outputs of its link task, if it has one, and what it uses.\<close>

record linked =
  link_task :: "string list option"
  its_use :: "names option"

partial_function (option) add_rpath_stuff ::
  "(string \<Rightarrow> linked option) \<Rightarrow> string list \<Rightarrow> string list \<Rightarrow> string list result option" where
  "add_rpath_stuff bld all rpath =
     (if all = [] then Some (Inr rpath)
      else case bld (last all) of
             None \<Rightarrow> add_rpath_stuff bld (butlast all) rpath
           | Some tg \<Rightarrow>
               (case link_task tg of
                  None \<Rightarrow> add_rpath_stuff bld (butlast all) rpath
                | Some outs \<Rightarrow>
                    (case py_index outs 0 of
                       Inl e \<Rightarrow> Some (Inl e)
                     | Inr dir \<Rightarrow> add_rpath_stuff bld (butlast all @ attr_list (its_use tg)) (rpath @ [dir]))))"

definition add_rpath :: "(string \<Rightarrow> linked option) \<Rightarrow> linked \<Rightarrow> string list \<Rightarrow> string list result option" where
  "add_rpath bld self rpath = add_rpath_stuff bld (attr_list (its_use self)) rpath"

section \<open>What the search should find\<close>

text \<open>A generator that links here and uses the other, and the directory of a generator.\<close>

definition uses :: "(string \<Rightarrow> linked option) \<Rightarrow> string \<Rightarrow> string \<Rightarrow> bool" where
  "uses bld n m \<longleftrightarrow> (case bld n of
     None \<Rightarrow> False
   | Some tg \<Rightarrow> link_task tg \<noteq> None \<and> m \<in> set (attr_list (its_use tg)))"

definition has_dir :: "(string \<Rightarrow> linked option) \<Rightarrow> string \<Rightarrow> string \<Rightarrow> bool" where
  "has_dir bld n d \<longleftrightarrow> (case bld n of
     None \<Rightarrow> False
   | Some tg \<Rightarrow> (case link_task tg of Some (d' # _) \<Rightarrow> d = d' | _ \<Rightarrow> False))"

text \<open>The directories of a generator and of all it leads to.\<close>

definition needed :: "(string \<Rightarrow> linked option) \<Rightarrow> string \<Rightarrow> string set" where
  "needed bld n = {d. \<exists>m. (uses bld)\<^sup>*\<^sup>* n m \<and> has_dir bld m d}"

lemma needed_step: "needed bld n = {d. has_dir bld n d} \<union> (\<Union>m\<in>{m. uses bld n m}. needed bld m)"
  unfolding needed_def
  by (auto elim: converse_rtranclpE intro: converse_rtranclp_into_rtranclp)

lemma add_rpath_nil [simp]: "add_rpath_stuff bld [] rpath = Some (Inr rpath)"
  by (simp add: add_rpath_stuff.simps)

text \<open>Link tasks have outputs, and what a generator uses comes earlier in some ranking.\<close>

definition ranked :: "(string \<Rightarrow> linked option) \<Rightarrow> (string \<Rightarrow> nat) \<Rightarrow> bool" where
  "ranked bld rank \<longleftrightarrow>
     (\<forall>n tg. bld n = Some tg \<longrightarrow> link_task tg \<noteq> Some [] \<and> (\<forall>m. uses bld n m \<longrightarrow> rank m < rank n))"

lemma add_rpath_list:
  assumes "\<And>m. m \<in> set ms \<Longrightarrow>
      \<exists>ds. set ds = needed bld m \<and> (\<forall>all rpath. add_rpath_stuff bld (all @ [m]) rpath = add_rpath_stuff bld all (rpath @ ds))"
  shows "\<exists>ds. set ds = (\<Union>m\<in>set ms. needed bld m) \<and>
    (\<forall>all rpath. add_rpath_stuff bld (all @ ms) rpath = add_rpath_stuff bld all (rpath @ ds))"
  using assms
proof (induction ms rule: rev_induct)
  case Nil
  then show ?case by (intro exI [of _ "[]"]) simp
next
  case (snoc m ms)
  from snoc.prems [of m] obtain ds where ds: "set ds = needed bld m"
    "\<And>all rpath. add_rpath_stuff bld (all @ [m]) rpath = add_rpath_stuff bld all (rpath @ ds)" by auto
  from snoc.IH snoc.prems obtain ds' where ds': "set ds' = (\<Union>m\<in>set ms. needed bld m)"
    "\<And>all rpath. add_rpath_stuff bld (all @ ms) rpath = add_rpath_stuff bld all (rpath @ ds')" by auto
  have "add_rpath_stuff bld (all @ ms @ [m]) rpath = add_rpath_stuff bld all (rpath @ ds @ ds')" for all rpath
    using ds(2) [of "all @ ms" rpath] ds'(2) [of all "rpath @ ds"] by simp
  then show ?case using ds(1) ds'(1) by (intro exI [of _ "ds @ ds'"]) auto
qed

lemma add_rpath_one:
  assumes "ranked bld rank"
  shows "\<exists>ds. set ds = needed bld n \<and> (\<forall>all rpath. add_rpath_stuff bld (all @ [n]) rpath = add_rpath_stuff bld all (rpath @ ds))"
proof (induction "rank n" arbitrary: n rule: less_induct)
  case less
  show ?case
  proof (cases "\<exists>tg d outs. bld n = Some tg \<and> link_task tg = Some (d # outs)")
    case False
    then have skip: "bld n = None \<or> (\<exists>tg. bld n = Some tg \<and> link_task tg = None)"
      using assms by (auto simp: ranked_def neq_Nil_conv) (metis not_None_eq list.exhaust)
    then have "needed bld n = {}"
      by (subst needed_step) (auto simp: has_dir_def uses_def)
    moreover have "add_rpath_stuff bld (all @ [n]) rpath = add_rpath_stuff bld all rpath" for all rpath
      using skip by (subst add_rpath_stuff.simps) auto
    ultimately show ?thesis by (intro exI [of _ "[]"]) simp
  next
    case True
    then obtain tg d outs where tg: "bld n = Some tg" "link_task tg = Some (d # outs)" by blast
    let ?ms = "attr_list (its_use tg)"
    have uses: "uses bld n m \<longleftrightarrow> m \<in> set ?ms" for m using tg by (simp add: uses_def)
    then have "rank m < rank n" if "m \<in> set ?ms" for m using assms tg(1) that by (simp add: ranked_def)
    with less have "\<exists>ds. set ds = (\<Union>m\<in>set ?ms. needed bld m) \<and>
        (\<forall>all rpath. add_rpath_stuff bld (all @ ?ms) rpath = add_rpath_stuff bld all (rpath @ ds))"
      by (intro add_rpath_list) blast
    then obtain ds where ds: "set ds = (\<Union>m\<in>set ?ms. needed bld m)"
      "\<And>all rpath. add_rpath_stuff bld (all @ ?ms) rpath = add_rpath_stuff bld all (rpath @ ds)" by blast
    have "py_index (d # outs) 0 = Inr d" using py_index_nat [of 0 "d # outs"] by simp
    then have "add_rpath_stuff bld (all @ [n]) rpath = add_rpath_stuff bld all (rpath @ d # ds)" for all rpath
      using tg ds(2) by (subst add_rpath_stuff.simps) simp
    moreover have "set (d # ds) = needed bld n"
      by (subst needed_step) (use ds(1) tg uses in \<open>auto simp: has_dir_def\<close>)
    ultimately show ?thesis by blast
  qed
qed

text \<open>
  C35: when what is used comes earlier in some ranking of the libraries, so that nothing uses itself
  in a roundabout way, the search ends, and what it adds to the search path is the directory of every
  library that the program leads to, and nothing else.
\<close>

theorem rpath_complete:
  assumes "ranked bld rank"
  shows "\<exists>ds. add_rpath bld self rpath = Some (Inr (rpath @ ds)) \<and>
    set ds = {d. \<exists>n m. n \<in> set (attr_list (its_use self)) \<and> (uses bld)\<^sup>*\<^sup>* n m \<and> has_dir bld m d}"
proof -
  have "\<exists>ds. set ds = (\<Union>m\<in>set (attr_list (its_use self)). needed bld m) \<and>
      (\<forall>all rpath. add_rpath_stuff bld (all @ attr_list (its_use self)) rpath = add_rpath_stuff bld all (rpath @ ds))"
    by (rule add_rpath_list) (rule add_rpath_one [OF assms])
  then obtain ds where
    ds: "set ds = (\<Union>m\<in>set (attr_list (its_use self)). needed bld m)"
    "\<And>all rpath. add_rpath_stuff bld (all @ attr_list (its_use self)) rpath = add_rpath_stuff bld all (rpath @ ds)" by blast
  have "add_rpath bld self rpath = Some (Inr (rpath @ ds))"
    using ds(2) [of "[]"] by (simp add: add_rpath_def)
  moreover have "(\<Union>m\<in>set ns. needed bld m) = {d. \<exists>n m. n \<in> set ns \<and> (uses bld)\<^sup>*\<^sup>* n m \<and> has_dir bld m d}" for ns
    unfolding needed_def by blast
  ultimately show ?thesis using ds(1) by (intro exI [of _ ds]) simp
qed

definition sample_libs :: "string \<Rightarrow> linked option" where
  "sample_libs = [''net'' \<mapsto> \<lparr> link_task = Some [''/out/net''], its_use = Some (Words ''base'') \<rparr>,
                  ''base'' \<mapsto> \<lparr> link_task = Some [''/out/base''], its_use = None \<rparr>]"

theorem rpath_complete_witness:
  "\<exists>ds. add_rpath sample_libs \<lparr> link_task = Some [''/out''], its_use = Some (Words ''net'') \<rparr> [] = Some (Inr ds)"
proof -
  have "ranked sample_libs (\<lambda>n. if n = ''net'' then 1 else 0)"
    by (auto simp: ranked_def sample_libs_def uses_def attr_list_def to_list_def str_words_def is_space_def split: if_splits)
  from rpath_complete [OF this, of "\<lparr> link_task = Some [''/out''], its_use = Some (Words ''net'') \<rparr>" "[]"]
  show ?thesis by (elim exE conjE) (intro exI, simp)
qed

text \<open>A set of libraries each of which uses another of the set: the search goes round in it.\<close>

definition going_round :: "(string \<Rightarrow> linked option) \<Rightarrow> string set \<Rightarrow> bool" where
  "going_round bld S \<longleftrightarrow> (\<forall>n\<in>S. \<exists>m\<in>S. uses bld n m)"

lemma add_rpath_round:
  assumes "add_rpath_stuff bld all rpath = Some r"
  shows "going_round bld S \<longrightarrow> (\<forall>n tg. bld n = Some tg \<longrightarrow> link_task tg \<noteq> Some []) \<longrightarrow> S \<inter> set all = {}"
    (is "?P bld all")
proof (rule add_rpath_stuff.raw_induct [where P = "\<lambda>bld all rpath r. ?P bld all", OF _ assms], intro impI)
  fix f bld all rpath r
  assume 1: "\<And>bld all rpath r. f bld all rpath = Some r \<Longrightarrow> ?P bld all"
    "(if all = [] then Some (Inr rpath)
      else case bld (last all) of
             None \<Rightarrow> f bld (butlast all) rpath
           | Some tg \<Rightarrow>
               (case link_task tg of
                  None \<Rightarrow> f bld (butlast all) rpath
                | Some outs \<Rightarrow>
                    (case py_index outs 0 of
                       Inl e \<Rightarrow> Some (Inl e)
                     | Inr dir \<Rightarrow> f bld (butlast all @ attr_list (its_use tg)) (rpath @ [dir])))) = Some r"
    "going_round bld S" "\<forall>n tg. bld n = Some tg \<longrightarrow> link_task tg \<noteq> Some []"
  let ?rest = "butlast all"
  show "S \<inter> set all = {}"
  proof (cases "all = []")
    case False
    then have set: "set all = insert (last all) (set ?rest)" by (metis append_butlast_last_id list.simps(15) rotate1.simps(2) set_rotate1)
    have rest: "S \<inter> set ?rest = {} \<Longrightarrow> last all \<notin> S \<Longrightarrow> S \<inter> set all = {}" using set by auto
    have going: "last all \<in> S \<Longrightarrow> \<exists>m\<in>S. uses bld (last all) m" using 1(3) unfolding going_round_def by blast
    show ?thesis
    proof (cases "bld (last all)")
      case None
      then have "last all \<notin> S" using going by (auto simp: uses_def)
      then show ?thesis using 1 None False by (intro rest) auto
    next
      case (Some tg)
      show ?thesis
      proof (cases "link_task tg")
        case None
        then have "last all \<notin> S" using going Some by (auto simp: uses_def)
        then show ?thesis using 1 Some None False by (intro rest) auto
      next
        case (Some outs)
        with 1(4) \<open>bld (last all) = Some tg\<close> obtain d ds where outs: "outs = d # ds" by (cases outs) auto
        have "py_index outs 0 = Inr d" using py_index_nat [of 0 outs] outs by simp
        then have "S \<inter> set (?rest @ attr_list (its_use tg)) = {}"
          using 1(1) [of bld "?rest @ attr_list (its_use tg)" "rpath @ [d]" r] 1(2-4) Some \<open>bld (last all) = Some tg\<close> False
          by simp
        then show ?thesis using going Some \<open>bld (last all) = Some tg\<close>
          by (intro rest) (auto simp: uses_def)
      qed
    qed
  qed simp
qed

text \<open>
  C36: the search never ends when the program uses one of a set of libraries each of which uses
  another one of the set: it keeps no record of the libraries it has been to.
\<close>

theorem rpath_endless:
  assumes "going_round bld S" and "\<forall>n tg. bld n = Some tg \<longrightarrow> link_task tg \<noteq> Some []"
    and "n \<in> S" and "n \<in> set (attr_list (its_use self))"
  shows "add_rpath bld self rpath = None"
proof (cases "add_rpath bld self rpath")
  case (Some r)
  then have "S \<inter> set (attr_list (its_use self)) = {}"
    using add_rpath_round [of bld "attr_list (its_use self)" rpath r S] assms(1,2) unfolding add_rpath_def by blast
  then show ?thesis using assms(3,4) by blast
qed

theorem rpath_endless_witness:
  "add_rpath [''a'' \<mapsto> \<lparr> link_task = Some [''/out''], its_use = Some (Names [''b'']) \<rparr>,
              ''b'' \<mapsto> \<lparr> link_task = Some [''/out''], its_use = Some (Names [''a'']) \<rparr>]
     \<lparr> link_task = Some [''/out''], its_use = Some (Names [''a'']) \<rparr> [] = None"
  by (rule rpath_endless [of _ "{''a'', ''b''}" "''a''"]) (auto simp: going_round_def uses_def attr_list_def to_list_def)

end
