(* ===== verification/Build_Plan.thy ===== *)
theory Build_Plan
  imports Build_Lint Build_Gtest
begin

text \<open>
  What the build script declares: \<open>rule.py\<close> with the defaults it loads
  (\<open>backend/tools/waf-plugins/defaults.py\<close>). A build is the list of the calls it makes of the
  build context, in order; the tools of \<open>waf\<close> that a configuration loads are an argument.
\<close>

section \<open>Configuration\<close>

record config =
  INCLUDES :: "string list"
  CXXFLAGS :: "string list"
  DEFINES :: "string list"

definition no_inst :: "string option \<Rightarrow> string option" where
  "no_inst install_path = None"

text \<open>The debugging level is \<open>release\<close> or \<open>debug\<close>, as the option's choices say.\<close>

definition defaults_configure :: "(string \<Rightarrow> config \<Rightarrow> config) \<Rightarrow> string \<Rightarrow> config \<Rightarrow> config" where
  "defaults_configure load debug_level conf =
     (let conf = load ''compiler_cxx local_rpath unittest_gtest lint'' conf;
          conf = conf\<lparr>CXXFLAGS := [''-Werror'', ''-Wall'', ''-Woverloaded-virtual'', ''-Wextra'', ''-Wfloat-equal'',
            ''-Wno-unused-parameter'', ''-Wno-unused-function'']\<rparr>
      in if debug_level = ''release'' then conf\<lparr>CXXFLAGS := CXXFLAGS conf @ [''-O2'']\<rparr>
         else conf\<lparr>CXXFLAGS := CXXFLAGS conf @ [''-g''], DEFINES := DEFINES conf @ [''DEBUG'']\<rparr>)"

definition configure :: "(string \<Rightarrow> config \<Rightarrow> config) \<Rightarrow> string \<Rightarrow> config \<Rightarrow> config" where
  "configure load debug_level conf =
     (let conf = load ''compiler_cxx'' (load ''compiler_c'' (defaults_configure load debug_level conf));
          conf = conf\<lparr>INCLUDES := INCLUDES conf @ [''backend/src'', ''src'']\<rparr>;
          conf = conf\<lparr>INCLUDES := INCLUDES conf @ [''external/common'']\<rparr>;
          conf = conf\<lparr>INCLUDES := INCLUDES conf @ [''external/common/include'', ''include'']\<rparr>
      in conf\<lparr>CXXFLAGS := CXXFLAGS conf @ [''-g'']\<rparr>)"

section \<open>The programs\<close>

record program =
  prog_target :: string
  prog_source :: "string list"
  prog_use :: string
  prog_includes :: "string list"

datatype build_call = Read_shlib string "string list" | Program program

definition run_init_test :: "build_call list" where
  "run_init_test =
     [Read_shlib ''zmq'' [''external/init_test/lib''],
      Program \<lparr> prog_target = ''bin/init_test'', prog_source = [''src/init_test.cpp''], prog_use = ''zmq'',
        prog_includes = [''external/init_test/include''] \<rparr>]"

definition run_tools :: "build_call list" where
  "run_tools =
     [Read_shlib ''md5'' [''external/md5str/lib''],
      Read_shlib ''zbackend'' [''external/common/lib''],
      Program \<lparr> prog_target = ''bin/md5str'', prog_source = [''src/tools/md5str/main.cpp''], prog_use = ''md5'',
        prog_includes = [''external/md5str/include''] \<rparr>]"

definition run_simtrade :: "build_call list" where
  "run_simtrade =
     [Read_shlib ''sodium'' [''external/zeromq/''],
      Read_shlib ''zmq'' [''external/zeromq/''],
      Read_shlib ''thostmduserapi'' [''external/ctp/lib''],
      Read_shlib ''thosttraderapi'' [''external/ctp/lib''],
      Program \<lparr> prog_target = ''bin/strat'',
        prog_source = [''src/simtrade/strat/main.cpp'', ''src/simtrade/strat/strategy.cpp''],
        prog_use = ''zmq'', prog_includes = [] \<rparr>,
      Program \<lparr> prog_target = ''bin/simdata'',
        prog_source = [''src/simtrade/simdata/main.cpp'', ''src/simtrade/simdata/datagener.cpp''],
        prog_use = ''zmq'', prog_includes = [] \<rparr>,
      Program \<lparr> prog_target = ''bin/simorder'',
        prog_source = [''src/simtrade/simorder/main.cpp'', ''src/simtrade/simorder/orderlistener.cpp''],
        prog_use = ''zmq'', prog_includes = [] \<rparr>,
      Program \<lparr> prog_target = ''bin/ctpdata'', prog_source = [''src/simtrade/ctpdata/ctpdata.cpp''],
        prog_use = ''zmq thostmduserapi'', prog_includes = [''external/ctp/include''] \<rparr>,
      Program \<lparr> prog_target = ''bin/ctporder'',
        prog_source = [''src/simtrade/ctporder/main.cpp'', ''src/simtrade/ctporder/listener.cpp'',
          ''src/simtrade/ctporder/message_sender.cpp''],
        prog_use = ''zmq thosttraderapi'', prog_includes = [''external/ctp/include''] \<rparr>]"

text \<open>The calls, what is printed, and the state of the lint tasks, which two patterns are added to.\<close>

definition build :: "string \<Rightarrow> lint_build \<Rightarrow> (build_call list \<times> string list \<times> lint_build) result" where
  "build cmd b =
     (let b = add_lint_ignore ''backend'' (add_lint_ignore ''external'' b);
          start = [Read_shlib ''zbackend'' [''external/common/lib'']]
      in if cmd = ''init_test'' then Inr (start @ run_init_test, [], b)
         else if cmd = ''tools'' then Inr (start @ run_tools, [], b)
         else if cmd = ''simtrade'' then Inr (start @ run_simtrade, [], b)
         else if cmd = ''fake_sim'' then Inl (NameError ''run_fake_sim'')
         else Inr (start, [''error! '' @ cmd], b))"

section \<open>Properties\<close>

text \<open>The calls in order: a program may use what was read before it, and its target is a new one.\<close>

fun well_planned :: "string list \<Rightarrow> string list \<Rightarrow> build_call list \<Rightarrow> bool" where
  "well_planned libs targets [] = True"
| "well_planned libs targets (Read_shlib l ps # cs) = well_planned (l # libs) targets cs"
| "well_planned libs targets (Program p # cs) \<longleftrightarrow>
     set (str_words (prog_use p)) \<subseteq> set libs \<and> prog_target p \<notin> set targets \<and>
     well_planned libs (prog_target p # targets) cs"

definition programs :: "build_call list \<Rightarrow> program list" where
  "programs cs = concat (map (\<lambda>c. case c of Program p \<Rightarrow> [p] | Read_shlib l ps \<Rightarrow> []) cs)"

lemma words_used:
  "str_words ''zmq'' = [''zmq'']" "str_words ''md5'' = [''md5'']"
  "str_words ''zmq thostmduserapi'' = [''zmq'', ''thostmduserapi'']"
  "str_words ''zmq thosttraderapi'' = [''zmq'', ''thosttraderapi'']"
  by (simp_all add: str_words_def is_space_def)

text \<open>
  A build of any command either links programs against libraries it has read before, each program
  with a target of its own, or links nothing and says so; files of \<open>external\<close> and \<open>backend\<close> are not
  linted; and the one command that fails is \<open>fake_sim\<close>, which calls a function that does not exist.
\<close>

theorem build_well_planned:
  "case build cmd b of
     Inl e \<Rightarrow> cmd = ''fake_sim'' \<and> e = NameError ''run_fake_sim''
   | Inr (calls, shown, b') \<Rightarrow> well_planned [] [] calls \<and> (shown = [] \<longleftrightarrow> programs calls \<noteq> []) \<and>
       (cmd \<in> {''init_test'', ''tools'', ''simtrade''} \<longleftrightarrow> programs calls \<noteq> []) \<and>
       lint_should_ignore b' (''/p/external/'' @ f) \<and> lint_should_ignore b' (''/p/backend/'' @ f)"
proof -
  have "str_in (''/p/external/'' @ f) ''external''" "str_in (''/p/backend/'' @ f) ''backend''"
    by (simp_all add: str_in_def str_find_def startswith_def)
  then show ?thesis
    by (simp add: build_def run_init_test_def run_tools_def run_simtrade_def programs_def words_used Let_def
        lint_should_ignore_def add_lint_ignore_def)
qed

end
