(* ===== verification/Data_Index.thy ===== *)
theory Data_Index
  imports Py_String
begin

text \<open>
  The splitting of a file of records into columns, from \<open>python/handle_data/handle_data.py\<close>.
  What the network delivers is an argument.
\<close>

text \<open>What is printed, the file that is written, and its content; \<open>download\<close> is what the address delivers, unpacked.\<close>

definition get_data ::
  "(string \<Rightarrow> string) \<Rightarrow> string \<Rightarrow> string \<Rightarrow> string \<Rightarrow> string \<Rightarrow> string list \<times> string \<times> string" where
  "get_data download contract_name date pre saved_filename =
     (let url = ''https://s3.amazonaws.com/wanlitech-data/polled/1s/'' @ date @ ''/'' @ pre @ ''/'' @ contract_name @ ''.top.gz'';
          zfile_name = (if saved_filename = [] then contract_name @ ''.gz'' else saved_filename @ ''.gz'')
      in ([url, zfile_name], zfile_name, download url))"

text \<open>The complaints: the number of names is wrong, or a line has a wrong size.\<close>

datatype complaint = Bad_Index | Bad_Line nat nat nat

definition fields :: "string \<Rightarrow> string list" where
  "fields line = str_split line '' ''"

definition file_lines :: "string \<Rightarrow> string list" where
  "file_lines content = str_split content [newline]"

type_synonym columns = "string \<rightharpoonup> string list"

definition empty_columns :: "string list \<Rightarrow> columns" where
  "empty_columns index = fold (\<lambda>i d. d(i \<mapsto> [])) index Map.empty"

definition add_line :: "string list \<Rightarrow> string list \<Rightarrow> columns \<Rightarrow> columns result" where
  "add_line index line_content =
     forE [0..<length index] (\<lambda>j d. bindE (py_index index (int j)) (\<lambda>name. bindE (the_key (d name)) (\<lambda>col.
       bindE (py_index line_content (int j)) (\<lambda>v. Inr (d(name \<mapsto> col @ [v]))))))"

text \<open>The last piece of the file, after the last line break, is not looked at.\<close>

definition AddIndex :: "string \<Rightarrow> string list \<Rightarrow> (columns \<times> complaint list) result" where
  "AddIndex content index =
     (let ls = file_lines content; d = empty_columns index in
      bindE (py_index ls 0) (\<lambda>first.
      let content_size = length (fields first) in
      if length index \<noteq> content_size then Inr (d, [Bad_Index])
      else forE [0..<length ls - 1] (\<lambda>i (d, printed). bindE (py_index ls (int i)) (\<lambda>line.
             let line_content = fields line in
             if length line_content \<noteq> content_size
             then Inr (d, printed @ [Bad_Line i (length line_content) content_size])
             else bindE (add_line index line_content d) (\<lambda>d. Inr (d, printed)))) (d, [])))"

section \<open>The columns\<close>

lemma empty_columns_lookup: "empty_columns index k = (if k \<in> set index then Some [] else None)"
proof -
  have "fold (\<lambda>i d. d(i \<mapsto> [])) index d k = (if k \<in> set index then Some [] else d k)" for d :: columns
    by (induction index arbitrary: d) auto
  then show ?thesis unfolding empty_columns_def by simp
qed

text \<open>A line adds its field to the column of each name.\<close>

lemma add_line_columns:
  assumes "distinct index" and "length line_content = length index" and "\<And>j. j < length index \<Longrightarrow> d (index ! j) = Some (cols j)"
  shows "\<exists>d'. add_line index line_content d = Inr d' \<and>
    (\<forall>j<length index. d' (index ! j) = Some (cols j @ [line_content ! j]))"
proof -
  let ?f = "\<lambda>j d. bindE (py_index index (int j)) (\<lambda>name. bindE (the_key (d name)) (\<lambda>col.
       bindE (py_index line_content (int j)) (\<lambda>v. Inr (d(name \<mapsto> col @ [v])))))"
  have "\<exists>d'. forE [0..<n] ?f d = Inr d' \<and>
      (\<forall>j<length index. d' (index ! j) = Some (cols j @ (if j < n then [line_content ! j] else [])))"
    if "n \<le> length index" for n
    using that
  proof (induction n)
    case 0
    then show ?case using assms(3) by simp
  next
    case (Suc n)
    have "n \<le> length index" using Suc.prems by simp
    with Suc.IH obtain d1 where d1: "forE [0..<n] ?f d = Inr d1"
      "\<And>j. j < length index \<Longrightarrow> d1 (index ! j) = Some (cols j @ (if j < n then [line_content ! j] else []))"
      by blast
    have n: "n < length index" using Suc.prems by simp
    have "forE [0..<Suc n] ?f d = Inr (d1(index ! n \<mapsto> cols n @ [line_content ! n]))"
      using d1 n assms(2) by (simp add: forE_append)
    moreover have "(d1(index ! n \<mapsto> cols n @ [line_content ! n])) (index ! j) =
        Some (cols j @ (if j < Suc n then [line_content ! j] else []))" if "j < length index" for j
      using d1(2) [OF that] n that assms(1) by (auto simp: nth_eq_iff_index_eq less_Suc_eq)
    ultimately show ?case by blast
  qed
  from this [of "length index"] show ?thesis by (auto simp: add_line_def)
qed

text \<open>
  C37: for names that are distinct and as many as the fields of the first line, the column of the
  \<open>j\<close>-th name holds the \<open>j\<close>-th field of every line that has as many fields, in the order of the file,
  and every other line is complained about, once; what follows the last line break is not read.
\<close>

theorem AddIndex_columns:
  assumes "distinct index" and "length index = length (fields (hd (file_lines content)))"
  shows "\<exists>d printed. AddIndex content index = Inr (d, printed) \<and>
    list_all (\<lambda>j. d (index ! j) = Some (map (\<lambda>l. fields l ! j)
        (filter (\<lambda>l. length (fields l) = length index) (butlast (file_lines content))))) [0..<length index] \<and>
    length printed = length (filter (\<lambda>l. length (fields l) \<noteq> length index) (butlast (file_lines content)))"
proof -
  let ?ls = "file_lines content" and ?m = "length index"
  have ne: "?ls \<noteq> []" by (simp add: file_lines_def)
  then have first: "py_index ?ls 0 = Inr (hd ?ls)" using py_index_nat [of 0 ?ls] by (simp add: hd_conv_nth)
  let ?body = "\<lambda>i (d, printed). bindE (py_index ?ls (int i)) (\<lambda>line.
             let line_content = fields line in
             if length line_content \<noteq> length (fields (hd ?ls))
             then Inr (d, printed @ [Bad_Line i (length line_content) (length (fields (hd ?ls)))])
             else bindE (add_line index line_content d) (\<lambda>d. Inr (d, printed)))"
  have "\<exists>d printed. forE [0..<n] ?body (empty_columns index, []) = Inr (d, printed) \<and>
    (\<forall>j<?m. d (index ! j) = Some (map (\<lambda>l. fields l ! j) (filter (\<lambda>l. length (fields l) = ?m) (take n ?ls)))) \<and>
    length printed = length (filter (\<lambda>l. length (fields l) \<noteq> ?m) (take n ?ls))" if "n \<le> length ?ls" for n
    using that
  proof (induction n)
    case 0
    then show ?case by (simp add: empty_columns_lookup)
  next
    case (Suc n)
    have n: "n < length ?ls" using Suc.prems by simp
    then obtain d printed where d: "forE [0..<n] ?body (empty_columns index, []) = Inr (d, printed)"
      "\<And>j. j < ?m \<Longrightarrow> d (index ! j) = Some (map (\<lambda>l. fields l ! j) (filter (\<lambda>l. length (fields l) = ?m) (take n ?ls)))"
      "length printed = length (filter (\<lambda>l. length (fields l) \<noteq> ?m) (take n ?ls))" using Suc.IH by force
    have step: "forE [0..<Suc n] ?body (empty_columns index, []) = ?body n (d, printed)"
      unfolding upt_Suc_append [OF le0] forE_append d(1) bindE_simps forE_single by (rule refl)
    have take: "take (Suc n) ?ls = take n ?ls @ [?ls ! n]" using n by (rule take_Suc_conv_app_nth)
    show ?case
    proof (cases "length (fields (?ls ! n)) = ?m")
      case True
      obtain d' where "add_line index (fields (?ls ! n)) d = Inr d'"
        "\<And>j. j < ?m \<Longrightarrow> d' (index ! j) = Some (map (\<lambda>l. fields l ! j) (filter (\<lambda>l. length (fields l) = ?m) (take n ?ls)) @ [fields (?ls ! n) ! j])"
        using add_line_columns [where d = d and cols = "\<lambda>j. map (\<lambda>l. fields l ! j) (filter (\<lambda>l. length (fields l) = ?m) (take n ?ls))",
            OF assms(1) True d(2)] by blast
      then show ?thesis using True n d(3) step assms(2) by (simp add: take)
    next
      case False
      then show ?thesis using n d(2,3) step assms(2) by (simp add: take)
    qed
  qed
  from this [of "length ?ls - 1"] show ?thesis
    using assms(2) ne by (simp add: AddIndex_def first Let_def butlast_conv_take list_all_iff Ball_def)
qed

theorem AddIndex_columns_witness:
  "\<exists>d printed. AddIndex (''1 2'' @ [newline] @ ''3 4'' @ [newline]) [''time'', ''price''] = Inr (d, printed) \<and>
     d ''price'' = Some [''2'', ''4'']"
  using AddIndex_columns [of "[''time'', ''price'']" "''1 2'' @ [newline] @ ''3 4'' @ [newline]"]
  by (auto simp: fields_def file_lines_def str_split_def startswith_def)

end
