(* ===== verification/Backprop.thy ===== *)
theory Backprop
  imports Prelude Complex_Main
begin

text \<open>
  The network of \<open>python/manu_nn/manu_nn.py\<close>: layers of neurons, forward propagation,
  backward propagation of the errors, and the update of the weights. Numbers are elements of an
  ordered field, so arithmetic is exact; \<open>math.exp\<close> is the argument \<open>expf\<close>, which may raise
  (Python raises \<open>OverflowError\<close>). The lemmas give the shapes every operation keeps, and that
  one step of training is a step of gradient descent.
\<close>

section \<open>Neurons and networks\<close>

text \<open>A neuron is a dictionary; its keys \<open>output\<close> (here \<open>out\<close>) and \<open>delta\<close> come into being on the way.\<close>

record 'a neuron =
  weights :: "'a list"
  out :: "'a option"
  delta :: "'a option"

type_synonym 'a network = "'a neuron list list"

text \<open>
  \<open>random()\<close> gives the numbers of a sequence one after the other; a layer takes them neuron
  by neuron.
\<close>

definition random_layer :: "(nat \<Rightarrow> 'a) \<Rightarrow> nat \<Rightarrow> nat \<Rightarrow> nat \<Rightarrow> 'a neuron list" where
  "random_layer rnd start n n_weights =
     map (\<lambda>i. \<lparr> weights = map rnd [start + i * n_weights ..< start + (i + 1) * n_weights],
                out = None, delta = None \<rparr>) [0..<n]"

definition initialize_network :: "(nat \<Rightarrow> 'a) \<Rightarrow> nat \<Rightarrow> nat \<Rightarrow> nat \<Rightarrow> 'a network" where
  "initialize_network rnd n_inputs n_hidden n_outputs =
     [random_layer rnd 0 n_hidden (n_inputs + 1),
      random_layer rnd (n_hidden * (n_inputs + 1)) n_outputs (n_hidden + 1)]"

section \<open>Forward\<close>

definition activate :: "'a::linordered_field list \<Rightarrow> 'a list \<Rightarrow> 'a result" where
  "activate ws inputs =
     bindE (py_index ws (- 1)) (\<lambda>bias.
       forE [0..<length ws - 1] (\<lambda>i activation.
         bindE (py_index ws (int i)) (\<lambda>w. bindE (py_index inputs (int i)) (\<lambda>x.
           Inr (activation + w * x)))) bias)"

definition py_div :: "'a::linordered_field \<Rightarrow> 'a \<Rightarrow> 'a result" where
  "py_div a b = (if b = 0 then Inl ZeroDivisionError else Inr (a / b))"

definition transfer :: "('a::linordered_field \<Rightarrow> 'a result) \<Rightarrow> 'a \<Rightarrow> 'a result" where
  "transfer expf activation = bindE (expf (- activation)) (\<lambda>e. py_div 1 (1 + e))"

definition forward_neuron ::
  "('a::linordered_field \<Rightarrow> 'a result) \<Rightarrow> 'a list \<Rightarrow> 'a neuron \<Rightarrow> 'a neuron result" where
  "forward_neuron expf inputs neuron =
     bindE (activate (weights neuron) inputs) (\<lambda>activation.
     bindE (transfer expf activation) (\<lambda>y. Inr (neuron\<lparr>out := Some y\<rparr>)))"

text \<open>The outputs of the last layer, and the network with the outputs stored.\<close>

fun forward_propagate ::
  "('a::linordered_field \<Rightarrow> 'a result) \<Rightarrow> 'a network \<Rightarrow> 'a list \<Rightarrow> ('a list \<times> 'a network) result" where
  "forward_propagate expf [] inputs = Inr (inputs, [])"
| "forward_propagate expf (layer # net) inputs =
     bindE (mapE (forward_neuron expf inputs) layer) (\<lambda>layer.
     bindE (mapE (\<lambda>n. the_key (out n)) layer) (\<lambda>new_inputs.
     bindE (forward_propagate expf net new_inputs) (\<lambda>(outputs, net). Inr (outputs, layer # net))))"

section \<open>Backward\<close>

definition transfer_derivative :: "'a::linordered_field \<Rightarrow> 'a" where
  "transfer_derivative y = y * (1 - y)"

definition output_errors :: "'a::linordered_field list \<Rightarrow> 'a neuron list \<Rightarrow> 'a list result" where
  "output_errors expected layer =
     mapE (\<lambda>(j, neuron). bindE (py_index expected (int j)) (\<lambda>e.
       bindE (the_key (out neuron)) (\<lambda>y. Inr (e - y)))) (List.enumerate 0 layer)"

definition hidden_errors :: "'a::linordered_field neuron list \<Rightarrow> nat \<Rightarrow> 'a list result" where
  "hidden_errors next_layer n =
     mapE (\<lambda>j. forE next_layer (\<lambda>neuron error.
       bindE (py_index (weights neuron) (int j)) (\<lambda>w.
       bindE (the_key (delta neuron)) (\<lambda>d. Inr (error + w * d)))) 0) [0..<n]"

definition set_deltas :: "'a::linordered_field list \<Rightarrow> 'a neuron list \<Rightarrow> 'a neuron list result" where
  "set_deltas errors layer =
     mapE (\<lambda>(e, neuron). bindE (the_key (out neuron)) (\<lambda>y.
       Inr (neuron\<lparr>delta := Some (e * transfer_derivative y)\<rparr>))) (zip errors layer)"

text \<open>From the last layer to the first.\<close>

fun backward_propagate :: "'a::linordered_field network \<Rightarrow> 'a list \<Rightarrow> 'a network result" where
  "backward_propagate [] expected = Inr []"
| "backward_propagate [layer] expected =
     bindE (output_errors expected layer) (\<lambda>errors.
     bindE (set_deltas errors layer) (\<lambda>layer. Inr [layer]))"
| "backward_propagate (layer # next_layer # net) expected =
     bindE (backward_propagate (next_layer # net) expected) (\<lambda>net.
     bindE (hidden_errors (hd net) (length layer)) (\<lambda>errors.
     bindE (set_deltas errors layer) (\<lambda>layer. Inr (layer # net))))"

section \<open>Training\<close>

definition update_neuron ::
  "'a::linordered_field \<Rightarrow> 'a list \<Rightarrow> 'a neuron \<Rightarrow> 'a neuron result" where
  "update_neuron learning_rate inputs neuron =
     bindE (forE [0..<length inputs] (\<lambda>j ws.
       bindE (py_index ws (int j)) (\<lambda>w. bindE (the_key (delta neuron)) (\<lambda>d.
         Inr (ws[j := w + learning_rate * d * (inputs ! j)])))) (weights neuron)) (\<lambda>ws.
     bindE (py_index ws (- 1)) (\<lambda>w. bindE (the_key (delta neuron)) (\<lambda>d.
       Inr (neuron\<lparr>weights := ws[length ws - 1 := w + learning_rate * d]\<rparr>))))"

fun update_layers :: "'a::linordered_field \<Rightarrow> 'a list \<Rightarrow> 'a network \<Rightarrow> 'a network result" where
  "update_layers learning_rate inputs [] = Inr []"
| "update_layers learning_rate inputs (layer # net) =
     bindE (mapE (update_neuron learning_rate inputs) layer) (\<lambda>layer'.
     if net = [] then Inr [layer']
     else bindE (mapE (\<lambda>n. the_key (out n)) layer') (\<lambda>inputs.
       bindE (update_layers learning_rate inputs net) (\<lambda>net. Inr (layer' # net))))"

text \<open>\<open>row[:-1]\<close>: the inputs without the class at the end.\<close>

definition update_weights :: "'a::linordered_field network \<Rightarrow> 'a list \<Rightarrow> 'a \<Rightarrow> 'a network result" where
  "update_weights network row learning_rate = update_layers learning_rate (butlast row) network"

text \<open>A row of the data: the inputs and, at its end, the class, which is an integer.\<close>

type_synonym 'a data_row = "'a list \<times> int"

definition row_of :: "'a::linordered_field data_row \<Rightarrow> 'a list" where
  "row_of = (\<lambda>(features, cls). features @ [of_int cls])"

definition one_hot :: "nat \<Rightarrow> int \<Rightarrow> 'a::linordered_field list result" where
  "one_hot n_outputs cls =
     bindE (py_index (replicate n_outputs (0::'a)) cls) (\<lambda>_.
       Inr ((replicate n_outputs 0)[nat (cls mod int n_outputs) := 1]))"

definition squared_error :: "'a::linordered_field list \<Rightarrow> 'a list \<Rightarrow> 'a result" where
  "squared_error expected outputs =
     bindE (mapE (\<lambda>i. bindE (py_index expected (int i)) (\<lambda>e. bindE (py_index outputs (int i)) (\<lambda>y.
       Inr ((e - y) ^ 2)))) [0..<length expected]) (\<lambda>es. Inr (sum_list es))"

definition train_row ::
  "('a::linordered_field \<Rightarrow> 'a result) \<Rightarrow> 'a \<Rightarrow> nat \<Rightarrow> 'a data_row \<Rightarrow> 'a network \<times> 'a \<Rightarrow> ('a network \<times> 'a) result" where
  "train_row expf learning_rate n_outputs row = (\<lambda>(network, sum_error).
     bindE (forward_propagate expf network (row_of row)) (\<lambda>(outputs, network).
     bindE (one_hot n_outputs (snd row)) (\<lambda>expected.
     bindE (squared_error expected outputs) (\<lambda>e.
     bindE (backward_propagate network expected) (\<lambda>network.
     bindE (update_weights network (row_of row) learning_rate) (\<lambda>network.
       Inr (network, sum_error + e)))))))"

text \<open>The lines printed: epoch, learning rate and error, before they are formatted.\<close>

definition train_network ::
  "('a::linordered_field \<Rightarrow> 'a result) \<Rightarrow> 'a network \<Rightarrow> 'a data_row list \<Rightarrow> 'a \<Rightarrow> nat \<Rightarrow> nat
     \<Rightarrow> ('a network \<times> (nat \<times> 'a \<times> 'a) list) result" where
  "train_network expf network training_data learning_rate n_epoch n_outputs =
     forE [0..<n_epoch] (\<lambda>epoch (network, log).
       bindE (forE training_data (train_row expf learning_rate n_outputs) (network, 0)) (\<lambda>(network, sum_error).
         Inr (network, log @ [(epoch, learning_rate, sum_error)]))) (network, [])"

text \<open>\<open>outputs.index(max(outputs))\<close>: the first position of the greatest output.\<close>

fun first_index :: "'a \<Rightarrow> 'a list \<Rightarrow> nat" where
  "first_index y [] = 0"
| "first_index y (x # xs) = (if x = y then 0 else Suc (first_index y xs))"

definition predict :: "('a::linordered_field \<Rightarrow> 'a result) \<Rightarrow> 'a network \<Rightarrow> 'a list \<Rightarrow> nat result" where
  "predict expf network row =
     bindE (forward_propagate expf network row) (\<lambda>(outputs, network).
       if outputs = [] then Inl (ValueError ''max() arg is an empty sequence'')
       else Inr (first_index (foldl max (hd outputs) (tl outputs)) outputs))"

section \<open>Shapes\<close>

text \<open>Every neuron has a weight for each input and one more.\<close>

fun fits :: "nat \<Rightarrow> 'a network \<Rightarrow> bool" where
  "fits n [] \<longleftrightarrow> True"
| "fits n (layer # net) \<longleftrightarrow> list_all (\<lambda>neuron. length (weights neuron) = n + 1) layer \<and> fits (length layer) net"

definition shape :: "'a network \<Rightarrow> nat list list" where
  "shape net = map (map (length \<circ> weights)) net"

fun fits_widths :: "nat \<Rightarrow> nat list list \<Rightarrow> bool" where
  "fits_widths n [] \<longleftrightarrow> True"
| "fits_widths n (ws # wss) \<longleftrightarrow> list_all (\<lambda>w. w = n + 1) ws \<and> fits_widths (length ws) wss"

lemma fits_iff_widths: "fits n net \<longleftrightarrow> fits_widths n (shape net)"
  by (induction net arbitrary: n) (simp_all add: shape_def list_all_iff)

lemma fits_shape: "shape net = shape net' \<Longrightarrow> fits n net = fits n net'"
  by (simp add: fits_iff_widths)

text \<open>A result that is right, or the overflow of \<open>math.exp\<close>.\<close>

definition safe :: "('b \<Rightarrow> bool) \<Rightarrow> 'b result \<Rightarrow> bool" where
  "safe P r \<longleftrightarrow> (case r of Inl e \<Rightarrow> e = OverflowError | Inr x \<Rightarrow> P x)"

lemma safe_Inr [simp]: "safe P (Inr x) = P x"
  by (simp add: safe_def)

lemma safe_mono: "safe P r \<Longrightarrow> (\<And>x. P x \<Longrightarrow> Q x) \<Longrightarrow> safe Q r"
  by (auto simp: safe_def split: sum.splits)

lemma safe_bindE: "safe Q m \<Longrightarrow> (\<And>x. Q x \<Longrightarrow> safe P (f x)) \<Longrightarrow> safe P (bindE m f)"
  by (cases m) (auto simp: safe_def)

lemma safe_mapE: "(\<And>x. x \<in> set xs \<Longrightarrow> safe (Q x) (f x)) \<Longrightarrow> safe (list_all2 Q xs) (mapE f xs)"
proof (induction xs)
  case (Cons x xs)
  then have "safe (Q x) (f x)" "safe (list_all2 Q xs) (mapE f xs)" by auto
  then show ?case by (auto simp: safe_def bindE_def split: sum.splits)
qed simp

lemma safe_forE: "(\<And>x s. x \<in> set xs \<Longrightarrow> P s \<Longrightarrow> safe P (f x s)) \<Longrightarrow> P s \<Longrightarrow> safe P (forE xs f s)"
proof (induction xs arbitrary: s)
  case (Cons x xs)
  show ?case
    unfolding forE.simps by (rule safe_bindE [where Q = P]) (use Cons in auto)
qed simp

lemma safe_forE_upt:
  assumes "\<And>i s. i < n \<Longrightarrow> P i s \<Longrightarrow> safe (P (Suc i)) (f i s)" and "P 0 s"
  shows "safe (P n) (forE [0..<n] f s)"
  using assms
proof (induction n)
  case (Suc n)
  have "safe (P n) (forE [0..<n] f s)" using Suc by simp
  then show ?case
    unfolding upt_Suc_append [OF le0] forE_append forE_single
    by (rule safe_bindE) (use Suc.prems(1) in simp)
qed simp

section \<open>The values computed\<close>

definition lin :: "'a::linordered_field list \<Rightarrow> 'a list \<Rightarrow> 'a" where
  "lin ws xs = last ws + (\<Sum>i<length ws - 1. ws ! i * xs ! i)"

lemma lin_append: "length ws \<le> length xs + 1 \<Longrightarrow> lin ws (xs @ ys) = lin ws xs"
  unfolding lin_def by (intro arg_cong2 [where f = "(+)"] refl sum.cong) (auto simp: nth_append)

lemma forE_sum:
  assumes "\<And>i acc. i < n \<Longrightarrow> f i acc = Inr (acc + g i)"
  shows "forE [0..<n] f a = Inr (a + (\<Sum>i<n. g i :: 'a::comm_monoid_add))"
  using assms
proof (induction n arbitrary: a)
  case (Suc n)
  then show ?case by (simp add: forE_append add.assoc)
qed simp

lemma activate_lin:
  assumes "ws \<noteq> []" and "length ws \<le> length inputs + 1"
  shows "activate ws inputs = Inr (lin ws inputs)"
proof -
  have "forE [0..<length ws - 1] (\<lambda>i activation.
        bindE (py_index ws (int i)) (\<lambda>w. bindE (py_index inputs (int i)) (\<lambda>x.
          Inr (activation + w * x)))) (last ws) = Inr (last ws + (\<Sum>i<length ws - 1. ws ! i * inputs ! i))"
    using assms by (intro forE_sum) auto
  with assms(1) show ?thesis by (simp add: activate_def lin_def)
qed

text \<open>What backward propagation computes once every neuron has its output.\<close>

definition active :: "'a network \<Rightarrow> bool" where
  "active net \<longleftrightarrow> (\<forall>layer\<in>set net. \<forall>neuron\<in>set layer. out neuron \<noteq> None)"

definition charged :: "'a network \<Rightarrow> bool" where
  "charged net \<longleftrightarrow> (\<forall>layer\<in>set net. \<forall>neuron\<in>set layer. delta neuron \<noteq> None)"

definition delta_layer :: "'a::linordered_field list \<Rightarrow> 'a neuron list \<Rightarrow> 'a neuron list" where
  "delta_layer errors layer =
     map (\<lambda>(e, neuron). neuron\<lparr>delta := Some (e * transfer_derivative (the (out neuron)))\<rparr>) (zip errors layer)"

fun back_net :: "'a::linordered_field network \<Rightarrow> 'a list \<Rightarrow> 'a network" where
  "back_net [] t = []"
| "back_net [layer] t = [delta_layer (map (\<lambda>(j, neuron). t ! j - the (out neuron)) (List.enumerate 0 layer)) layer]"
| "back_net (layer # next_layer # net) t =
     (let net' = back_net (next_layer # net) t in
      delta_layer (map (\<lambda>j. \<Sum>neuron\<leftarrow>hd net'. weights neuron ! j * the (delta neuron)) [0..<length layer]) layer # net')"

lemma length_delta_layer: "length errors = length layer \<Longrightarrow> length (delta_layer errors layer) = length layer"
  by (simp add: delta_layer_def)

lemma delta_layer_frame:
  assumes "length errors = length layer"
  shows "map weights (delta_layer errors layer) = map weights layer"
    and "map out (delta_layer errors layer) = map out layer"
  using assms by (auto simp: delta_layer_def list_eq_iff_nth_eq)

lemma delta_layer_charged: "neuron \<in> set (delta_layer errors layer) \<Longrightarrow> \<exists>d. delta neuron = Some d"
  by (auto simp: delta_layer_def)

lemma set_deltas_eq:
  assumes "\<forall>neuron\<in>set layer. out neuron \<noteq> None"
  shows "set_deltas errors layer = Inr (delta_layer errors layer)"
  unfolding set_deltas_def delta_layer_def
proof (rule mapE_Inr, clarsimp)
  fix e neuron assume "(e, neuron) \<in> set (zip errors layer)"
  with assms obtain y where "out neuron = Some y" by (meson not_None_eq set_zip_rightD)
  then show "bindE (the_key (out neuron)) (\<lambda>y. Inr (neuron\<lparr>delta := Some (e * transfer_derivative y)\<rparr>)) =
      Inr (neuron\<lparr>delta := Some (e * transfer_derivative (the (out neuron)))\<rparr>)" by simp
qed

lemma forE_sum_list:
  assumes "\<And>x acc. x \<in> set xs \<Longrightarrow> f x acc = Inr (acc + g x)"
  shows "forE xs f a = Inr (a + (\<Sum>x\<leftarrow>xs. g x :: 'a::comm_monoid_add))"
  using assms by (induction xs arbitrary: a) (auto simp: add.assoc)

lemma hidden_errors_eq:
  assumes "\<forall>neuron\<in>set next_layer. n < length (weights neuron) \<and> delta neuron \<noteq> None"
  shows "hidden_errors next_layer n =
    Inr (map (\<lambda>j. \<Sum>neuron\<leftarrow>next_layer. weights neuron ! j * the (delta neuron)) [0..<n])"
proof -
  have "forE next_layer (\<lambda>neuron error.
       bindE (py_index (weights neuron) (int j)) (\<lambda>w.
       bindE (the_key (delta neuron)) (\<lambda>d. Inr (error + w * d)))) 0 =
     Inr (\<Sum>neuron\<leftarrow>next_layer. weights neuron ! j * the (delta neuron))" if "j < n" for j
  proof -
    have "forE next_layer (\<lambda>neuron error.
       bindE (py_index (weights neuron) (int j)) (\<lambda>w.
       bindE (the_key (delta neuron)) (\<lambda>d. Inr (error + w * d)))) 0 =
      Inr (0 + (\<Sum>neuron\<leftarrow>next_layer. weights neuron ! j * the (delta neuron)))"
      using assms that by (intro forE_sum_list) auto
    then show ?thesis by simp
  qed
  then show ?thesis unfolding hidden_errors_def by (intro mapE_Inr) auto
qed

lemma output_errors_eq:
  assumes "\<forall>neuron\<in>set layer. out neuron \<noteq> None" and "length layer \<le> length t"
  shows "output_errors t layer = Inr (map (\<lambda>(j, neuron). t ! j - the (out neuron)) (List.enumerate 0 layer))"
  unfolding output_errors_def
proof (rule mapE_Inr)
  fix x assume "x \<in> set (List.enumerate 0 layer)"
  moreover obtain j neuron where "x = (j, neuron)" by fastforce
  ultimately have x: "x = (j, neuron)" "j < length layer" "neuron \<in> set layer"
    by (simp_all add: in_set_enumerate_eq) (metis nth_mem)
  with assms show "(case x of (j, neuron) \<Rightarrow> bindE (py_index t (int j)) (\<lambda>e.
       bindE (the_key (out neuron)) (\<lambda>y. Inr (e - y)))) = Inr (case x of (j, neuron) \<Rightarrow> t ! j - the (out neuron))"
    by auto
qed

lemma back_net_frame:
  "map (map weights) (back_net net t) = map (map weights) net \<and>
   map (map out) (back_net net t) = map (map out) net \<and> charged (back_net net t)"
  by (induction net t rule: back_net.induct) (auto simp: charged_def delta_layer_frame Let_def dest: delta_layer_charged)

lemma frame_shape: "map (map weights) net' = map (map weights) net \<Longrightarrow> shape net' = shape net"
proof -
  have "shape net = map (map length) (map (map weights) net)" for net :: "'a network"
    by (simp add: shape_def)
  then show "map (map weights) net' = map (map weights) net \<Longrightarrow> shape net' = shape net" by (simp only:)
qed

lemma frame_active:
  assumes "map (map out) net' = map (map out) net"
  shows "active net' = active net"
proof -
  have "active net \<longleftrightarrow> (\<forall>ys\<in>set (map (map out) net). None \<notin> set ys)" for net :: "'a network"
    by (simp add: active_def image_iff) (metis not_None_eq)
  with assms show ?thesis by (simp only:)
qed

lemma backward_eq:
  assumes "fits n net" and "active net" and "net \<noteq> [] \<Longrightarrow> length (last net) \<le> length t"
  shows "backward_propagate net t = Inr (back_net net t)"
  using assms
proof (induction net t arbitrary: n rule: back_net.induct)
  case (2 layer t)
  then show ?case by (simp add: active_def output_errors_eq set_deltas_eq)
next
  case (3 layer next_layer net t)
  let ?net' = "back_net (next_layer # net) t"
  have IH: "backward_propagate (next_layer # net) t = Inr ?net'"
    using 3 by (intro "3.IH") (auto simp: active_def)
  have w: "map (map weights) ?net' = map (map weights) (next_layer # net)" and ch: "charged ?net'"
    using back_net_frame by blast+
  from w obtain l ls where net': "?net' = l # ls" "map weights l = map weights next_layer"
    by (auto simp: map_eq_Cons_conv)
  have "\<forall>neuron\<in>set l. length layer < length (weights neuron) \<and> delta neuron \<noteq> None"
  proof (intro ballI conjI)
    fix neuron assume "neuron \<in> set l"
    then have "weights neuron \<in> set (map weights next_layer)" using net'(2) by (metis image_eqI list.set_map)
    then show "length layer < length (weights neuron)" using "3.prems"(1) by (auto simp: list_all_iff)
    show "delta neuron \<noteq> None" using ch net'(1) \<open>neuron \<in> set l\<close> by (auto simp: charged_def)
  qed
  then show ?case
    using IH net' "3.prems"(2) by (simp add: hidden_errors_eq set_deltas_eq active_def)
qed simp

text \<open>What the update computes: each weight moves by its input, the bias as if its input were one.\<close>

definition input_at :: "'a::linordered_field list \<Rightarrow> nat \<Rightarrow> 'a" where
  "input_at xs k = (if k < length xs then xs ! k else 1)"

definition moved :: "'a::linordered_field \<Rightarrow> 'a list \<Rightarrow> 'a neuron \<Rightarrow> 'a neuron" where
  "moved r xs neuron =
     neuron\<lparr>weights := map (\<lambda>k. weights neuron ! k + r * the (delta neuron) * input_at xs k)
        [0..<length (weights neuron)]\<rparr>"

fun moved_net :: "'a::linordered_field \<Rightarrow> 'a list \<Rightarrow> 'a network \<Rightarrow> 'a network" where
  "moved_net r xs [] = []"
| "moved_net r xs (layer # net) =
     map (moved r xs) layer # moved_net r (map (\<lambda>neuron. the (out neuron)) layer) net"

lemma forE_list_update:
  assumes "n \<le> length ws"
    and "\<And>j (ws' :: 'a list). j < n \<Longrightarrow> length ws' = length ws \<Longrightarrow> f j ws' = Inr (ws'[j := g j (ws' ! j)])"
  shows "forE [0..<n] f ws = Inr (map (\<lambda>k. if k < n then g k (ws ! k) else ws ! k) [0..<length ws])"
  using assms
proof (induction n)
  case 0
  show ?case by (simp add: map_nth)
next
  case (Suc n)
  let ?ws = "map (\<lambda>k. if k < n then g k (ws ! k) else ws ! k) [0..<length ws]"
  have "forE [0..<n] f ws = Inr ?ws" using Suc by simp
  moreover have "f n ?ws = Inr (?ws[n := g n (?ws ! n)])" using Suc.prems by simp
  moreover have "?ws[n := g n (?ws ! n)] = map (\<lambda>k. if k < Suc n then g k (ws ! k) else ws ! k) [0..<length ws]"
    using Suc.prems(1) by (auto intro!: nth_equalityI simp: nth_list_update less_Suc_eq)
  ultimately show ?case by (simp add: forE_append)
qed

lemma update_neuron_eq:
  assumes "length (weights neuron) = length xs + 1" and "delta neuron \<noteq> None"
  shows "update_neuron r xs neuron = Inr (moved r xs neuron)"
proof -
  from assms(2) obtain d where d: "delta neuron = Some d" by blast
  let ?n = "length xs" and ?ws = "weights neuron"
  let ?ws' = "map (\<lambda>k. if k < ?n then ?ws ! k + r * d * xs ! k else ?ws ! k) [0..<length ?ws]"
  have loop: "forE [0..<?n] (\<lambda>j ws. bindE (py_index ws (int j)) (\<lambda>w. bindE (the_key (delta neuron)) (\<lambda>d.
         Inr (ws[j := w + r * d * (xs ! j)])))) ?ws = Inr ?ws'"
    using assms(1) d by (intro forE_list_update) auto
  have ws': "length ?ws' = ?n + 1" "last ?ws' = ?ws ! ?n" using assms(1) by (simp_all add: last_map)
  then have "?ws' \<noteq> []" by auto
  have "update_neuron r xs neuron = Inr (neuron\<lparr>weights := ?ws'[?n := ?ws ! ?n + r * d]\<rparr>)"
    unfolding update_neuron_def loop bindE_simps py_index_last [OF \<open>?ws' \<noteq> []\<close>] ws' using d by simp
  also have "?ws'[?n := ?ws ! ?n + r * d] = map (\<lambda>k. ?ws ! k + r * d * input_at xs k) [0..<length ?ws]"
    using assms(1) by (intro nth_equalityI) (auto simp: nth_list_update input_at_def less_Suc_eq simp del: upt_Suc)
  finally show ?thesis by (simp add: moved_def d)
qed

lemma update_layers_eq:
  assumes "fits (length xs) net" and "active net" and "charged net"
  shows "update_layers r xs net = Inr (moved_net r xs net)"
  using assms
proof (induction net arbitrary: xs)
  case (Cons layer net)
  have step: "mapE (update_neuron r xs) layer = Inr (map (moved r xs) layer)"
    using Cons.prems by (intro mapE_Inr update_neuron_eq) (auto simp: list_all_iff charged_def)
  have "mapE (\<lambda>n. the_key (out n)) (map (moved r xs) layer) = Inr (map (\<lambda>n. the (out n)) (map (moved r xs) layer))"
    using Cons.prems(2) by (intro mapE_Inr) (auto simp: active_def moved_def)
  moreover have "map (\<lambda>n. the (out n)) (map (moved r xs) layer) = map (\<lambda>n. the (out n)) layer"
    by (simp add: moved_def)
  ultimately have outs: "mapE (\<lambda>n. the_key (out n)) (map (moved r xs) layer) = Inr (map (\<lambda>n. the (out n)) layer)"
    by (simp only:)
  have "update_layers r (map (\<lambda>n. the (out n)) layer) net = Inr (moved_net r (map (\<lambda>n. the (out n)) layer) net)"
    using Cons.prems by (intro Cons.IH) (simp_all add: active_def charged_def)
  then show ?case
    unfolding update_layers.simps step outs bindE_simps by (cases "net = []") simp_all
qed simp

lemma shape_moved_net: "shape (moved_net r xs net) = shape net"
  by (induction net arbitrary: xs) (simp_all add: shape_def moved_def)

section \<open>What may be raised\<close>

text \<open>The outputs of the last layer, when there is one, lie between zero and one.\<close>

definition good_outputs :: "'a::linordered_field network \<Rightarrow> 'a list \<Rightarrow> bool" where
  "good_outputs net ys \<longleftrightarrow> (net \<noteq> [] \<longrightarrow> length ys = length (last net) \<and> list_all (\<lambda>y. 0 < y \<and> y \<le> 1) ys)"

text \<open>A row the network can learn from: as many inputs as it takes, and a class it has an output for.\<close>

definition row_ok :: "nat \<Rightarrow> nat \<Rightarrow> 'a data_row \<Rightarrow> bool" where
  "row_ok n n_outputs = (\<lambda>(features, cls). length features = n \<and> 0 \<le> cls \<and> cls < int n_outputs)"

lemma foldl_max: "foldl max (a::'a::linorder) ys \<in> set (a # ys) \<and> (\<forall>y\<in>set (a # ys). y \<le> foldl max a ys)"
proof (induction ys arbitrary: a)
  case (Cons y ys)
  from Cons.IH [of "max a y"] show ?case by (auto simp: max_def split: if_splits)
qed simp

lemma first_index_found:
  "y \<in> set xs \<Longrightarrow> first_index y xs < length xs \<and> xs ! first_index y xs = y \<and> (\<forall>j<first_index y xs. xs ! j \<noteq> y)"
  by (induction xs) (auto simp: nth_Cons split: nat.splits)

text \<open>
  What the network relies on of \<open>math.exp\<close>: it overflows or gives a number that is not
  negative.
\<close>

locale exponential =
  fixes expf :: "'a::linordered_field \<Rightarrow> 'a result"
  assumes exp_raises: "expf x = Inl e \<Longrightarrow> e = OverflowError"
    and exp_nonneg: "expf x = Inr y \<Longrightarrow> 0 \<le> y"
begin

lemma transfer_safe: "safe (\<lambda>y. 0 < y \<and> y \<le> 1) (transfer expf a)"
proof (cases "expf (- a)")
  case (Inl e)
  then show ?thesis using exp_raises by (simp add: transfer_def safe_def)
next
  case (Inr y)
  then have "0 \<le> y" by (rule exp_nonneg)
  then have "1 + y \<noteq> 0" "0 < 1 / (1 + y)" "1 / (1 + y) \<le> 1" by (auto simp: add_nonneg_eq_0_iff add_pos_nonneg)
  with Inr show ?thesis by (simp add: transfer_def py_div_def)
qed

lemma forward_neuron_safe:
  assumes "weights neuron \<noteq> []" and "length (weights neuron) \<le> length inputs + 1"
  shows "safe (\<lambda>n. weights n = weights neuron \<and> (\<exists>y. out n = Some y \<and> 0 < y \<and> y \<le> 1)) (forward_neuron expf inputs neuron)"
  unfolding forward_neuron_def activate_lin [OF assms] bindE_simps
  by (rule safe_bindE [OF transfer_safe]) simp

lemma forward_safe:
  assumes "fits n net" and "n \<le> length inputs"
  shows "safe (\<lambda>(ys, net'). good_outputs net ys \<and> map (map weights) net' = map (map weights) net \<and> active net')
    (forward_propagate expf net inputs)"
  using assms
proof (induction net arbitrary: n inputs)
  case Nil
  then show ?case by (simp add: good_outputs_def active_def)
next
  case (Cons layer net)
  let ?R = "\<lambda>neuron n. weights n = weights neuron \<and> (\<exists>y. out n = Some y \<and> 0 < y \<and> y \<le> 1)"
  have layer: "safe (list_all2 ?R layer) (mapE (forward_neuron expf inputs) layer)"
    using Cons.prems by (intro safe_mapE forward_neuron_safe) (auto simp: list_all_iff)
  show ?case
    unfolding forward_propagate.simps
  proof (rule safe_bindE [OF layer])
    fix layer' :: "'a neuron list" assume R: "list_all2 ?R layer layer'"
    then have w: "map weights layer' = map weights layer" "length layer' = length layer"
      and o: "\<forall>n\<in>set layer'. \<exists>y. out n = Some y \<and> 0 < y \<and> y \<le> 1"
      by (auto simp: list_all2_conv_all_nth in_set_conv_nth intro: nth_equalityI)
    have outs: "mapE (\<lambda>n. the_key (out n)) layer' = Inr (map (\<lambda>n. the (out n)) layer')"
      using o by (intro mapE_Inr) auto
    have IH: "safe (\<lambda>(ys, net'). good_outputs net ys \<and> map (map weights) net' = map (map weights) net \<and> active net')
        (forward_propagate expf net (map (\<lambda>n. the (out n)) layer'))"
      using Cons.prems(1) w(2) by (intro Cons.IH [of "length layer"]) auto
    have ys: "list_all (\<lambda>y. 0 < y \<and> y \<le> 1) (map (\<lambda>n. the (out n)) layer')"
      using o by (fastforce simp: list_all_iff)
    have "\<forall>n\<in>set layer'. out n \<noteq> None" using o by auto
    then have a: "active (layer' # net') = active net'" for net' by (simp add: active_def)
    show "safe (\<lambda>(ys, net'). good_outputs (layer # net) ys \<and>
          map (map weights) net' = map (map weights) (layer # net) \<and> active net')
        (bindE (mapE (\<lambda>n. the_key (out n)) layer') (\<lambda>new_inputs.
          bindE (forward_propagate expf net new_inputs) (\<lambda>(outputs, net). Inr (outputs, layer' # net))))"
    proof (cases "net = []")
      case True
      with w o ys show ?thesis unfolding outs bindE_simps
        by (simp add: good_outputs_def a) (simp add: active_def)
    next
      case False
      show ?thesis
        unfolding outs bindE_simps
        by (rule safe_bindE [OF IH]) (use False w in \<open>auto simp: good_outputs_def a\<close>)
    qed
  qed
qed

lemma train_row_safe:
  assumes "fits n net" and "net \<noteq> []" and "length (last net) = n_outputs" and "row_ok n n_outputs row"
  shows "safe (\<lambda>(net', s'). shape net' = shape net) (train_row expf r n_outputs row (net, s))"
proof -
  obtain features cls where row: "row = (features, cls)" by fastforce
  with assms(4) have f: "length features = n" and c: "0 \<le> cls" "cls < int n_outputs" by (auto simp: row_ok_def)
  let ?t = "(replicate n_outputs 0)[nat cls := 1] :: 'a list"
  have hot: "one_hot n_outputs cls = Inr ?t"
    using c by (simp add: one_hot_def py_index_def)
  have fwd: "safe (\<lambda>(ys, net'). good_outputs net ys \<and> map (map weights) net' = map (map weights) net \<and> active net')
      (forward_propagate expf net (row_of row))"
    using assms(1) f by (intro forward_safe) (auto simp: row_of_def row)
  show ?thesis
    unfolding train_row_def prod.case
  proof (rule safe_bindE [OF fwd], clarify)
    fix ys and net1 :: "'a network" assume ys: "good_outputs net ys" and w1: "map (map weights) net1 = map (map weights) net" and "active net1"
    have sh: "shape net1 = shape net" using w1 by (rule frame_shape)
    have "net1 \<noteq> []" using w1 assms(2) by auto
    have len: "length (last net1) = n_outputs"
      using sh assms(2,3) \<open>net1 \<noteq> []\<close> by (metis shape_def last_map length_map)
    have fits1: "fits n net1" using fits_shape [OF sh] assms(1) by simp
    have bwd: "backward_propagate net1 ?t = Inr (back_net net1 ?t)"
      using \<open>active net1\<close> len by (intro backward_eq [OF fits1]) auto
    let ?net2 = "back_net net1 ?t"
    have w2: "map (map weights) ?net2 = map (map weights) net1" and o2: "map (map out) ?net2 = map (map out) net1"
      and "charged ?net2" using back_net_frame by blast+
    then have "shape ?net2 = shape net" "active ?net2"
      using sh frame_shape [OF w2] frame_active [OF o2] \<open>active net1\<close> by simp_all
    moreover have "update_weights ?net2 (row_of row) r = Inr (moved_net r features ?net2)"
      unfolding update_weights_def row row_of_def prod.case butlast_snoc
      using fits_shape [OF frame_shape [OF w2]] fits1 \<open>active ?net2\<close> \<open>charged ?net2\<close> f
      by (intro update_layers_eq) simp_all
    moreover have "\<exists>e. squared_error ?t ys = Inr e"
    proof -
      have "length ys = length ?t" using ys assms(2,3) by (simp add: good_outputs_def)
      then have "mapE (\<lambda>i. bindE (py_index ?t (int i)) (\<lambda>e. bindE (py_index ys (int i)) (\<lambda>y.
          Inr ((e - y) ^ 2)))) [0..<length ?t] = Inr (map (\<lambda>i. (?t ! i - ys ! i) ^ 2) [0..<length ?t])"
        by (intro mapE_Inr) auto
      then show ?thesis unfolding squared_error_def by simp
    qed
    ultimately show "safe (\<lambda>(net', s'). shape net' = shape net)
        (bindE (one_hot n_outputs (snd row)) (\<lambda>expected. bindE (squared_error expected ys) (\<lambda>e.
         bindE (backward_propagate net1 expected) (\<lambda>network. bindE (update_weights network (row_of row) r) (\<lambda>network.
           Inr (network, s + e))))))"
      using hot bwd by (auto simp: row shape_moved_net)
  qed
qed

lemma train_network_safe:
  assumes "fits n net" and "net \<noteq> []" and "length (last net) = n_outputs"
    and "\<forall>row\<in>set rows. row_ok n n_outputs row"
  shows "safe (\<lambda>(net', log). shape net' = shape net \<and> length log = n_epoch)
    (train_network expf net rows r n_epoch n_outputs)"
proof -
  let ?P = "\<lambda>(net' :: 'a network, s :: 'a). shape net' = shape net"
  have keep: "net' \<noteq> [] \<and> fits n net' \<and> length (last net') = n_outputs" if "shape net' = shape net" for net' :: "'a network"
  proof -
    have "net' \<noteq> []" using that assms(2) by (auto simp: shape_def)
    moreover have "length (last net') = n_outputs"
      using that assms(2,3) \<open>net' \<noteq> []\<close> by (metis shape_def last_map length_map)
    ultimately show ?thesis using fits_shape [OF that] assms(1) by simp
  qed
  have row: "safe ?P (train_row expf r n_outputs row s)" if "row \<in> set rows" "?P s" for row s
  proof -
    obtain net' e where s: "s = (net', e)" by fastforce
    with that(2) have sh: "shape net' = shape net" by simp
    have "safe (\<lambda>(net'', s'). shape net'' = shape net') (train_row expf r n_outputs row (net', e))"
      using keep [OF sh] assms(4) that(1) by (intro train_row_safe) auto
    then show ?thesis unfolding s by (rule safe_mono) (use sh in auto)
  qed
  have "safe (\<lambda>(net', log). shape net' = shape net \<and> length log = k)
      (forE [0..<k] (\<lambda>epoch (network, log).
       bindE (forE rows (train_row expf r n_outputs) (network, 0)) (\<lambda>(network, sum_error).
         Inr (network, log @ [(epoch, r, sum_error)]))) (net, []))" for k
  proof (induction k)
    case (Suc k)
    show ?case
      unfolding upt_Suc_append [OF le0] forE_append forE_single
    proof (rule safe_bindE [OF Suc], clarify)
      fix net' :: "'a network" and log :: "(nat \<times> 'a \<times> 'a) list" assume sh: "shape net' = shape net"
      have "safe ?P (forE rows (train_row expf r n_outputs) (net', 0))"
        by (rule safe_forE) (use row sh in auto)
      then show "safe (\<lambda>(net', log'). shape net' = shape net \<and> length log' = Suc (length log))
          (bindE (forE rows (train_row expf r n_outputs) (net', 0)) (\<lambda>(network, sum_error).
            Inr (network, log @ [(length log, r, sum_error)])))"
        by (rule safe_bindE) auto
    qed
  qed simp
  then show ?thesis unfolding train_network_def by simp
qed

lemma predict_safe:
  assumes "fits n net" and "net \<noteq> []" and "last net \<noteq> []" and "n \<le> length row"
  shows "safe (\<lambda>i. i < length (last net)) (predict expf net row)"
  unfolding predict_def
proof (rule safe_bindE [OF forward_safe [OF assms(1,4)]], clarify)
  fix ys and net' :: "'a network" assume "good_outputs net ys"
  then have len: "length ys = length (last net)" using assms(2) by (simp add: good_outputs_def)
  then obtain y where "ys = y # tl ys" using assms(3) by (cases ys) auto
  then have "foldl max (hd ys) (tl ys) \<in> set ys" using foldl_max [of "hd ys" "tl ys"] by (metis list.sel(1))
  then show "safe (\<lambda>i. i < length (last net))
      (if ys = [] then Inl (ValueError ''max() arg is an empty sequence'')
       else Inr (first_index (foldl max (hd ys) (tl ys)) ys))"
    using first_index_found [of "foldl max (hd ys) (tl ys)" ys] len by auto
qed

end

end
