(* ===== verification/Backprop_Gradient.thy ===== *)
theory Backprop_Gradient
  imports Backprop
begin

text \<open>
  The network of \<open>manu_nn.py\<close> over the reals: the contract of \<open>math.exp\<close>, the
  function a network computes and its loss, and the proof that the deltas of backward propagation
  are the derivatives of the loss, so that the update of the weights is a step of gradient descent.
\<close>

section \<open>The exponential function\<close>

text \<open>
  \<open>math.exp\<close> raises \<open>OverflowError\<close> when the result rounds to a number above the
  greatest one of double precision.
\<close>

definition math_exp :: "real \<Rightarrow> real result" where
  "math_exp x = (if exp x \<ge> 2 ^ 1024 - 2 ^ 970 then Inl OverflowError else Inr (exp x))"

interpretation py_exp: exponential math_exp
  by unfold_locales (auto simp: math_exp_def split: if_splits)

definition sigmoid :: "real \<Rightarrow> real" where
  "sigmoid x = 1 / (1 + exp (- x))"

lemma transfer_sigmoid: "transfer math_exp a = Inr y \<Longrightarrow> y = sigmoid a"
  by (auto simp: transfer_def math_exp_def py_div_def sigmoid_def bindE_eq_Inr split: if_splits)

lemma sigmoid_derivative: "(sigmoid has_real_derivative sigmoid x * (1 - sigmoid x)) (at x)"
proof -
  have pos: "1 + exp (- x) \<noteq> 0" using exp_gt_zero [of "- x"] by linarith
  have "((\<lambda>x. 1 / (1 + exp (- x))) has_real_derivative exp (- x) / (1 + exp (- x)) ^ 2) (at x)"
    using pos by (auto intro!: derivative_eq_intros simp: power2_eq_square field_simps)
  moreover have "sigmoid x * (1 - sigmoid x) = exp (- x) / (1 + exp (- x)) ^ 2"
    using pos by (simp add: sigmoid_def field_simps power2_eq_square)
  ultimately show ?thesis unfolding sigmoid_def [abs_def] by simp
qed

section \<open>The function of a network and its loss\<close>

type_synonym matrices = "real list list list"

definition layer_out :: "real list list \<Rightarrow> real list \<Rightarrow> real list" where
  "layer_out W xs = map (\<lambda>ws. sigmoid (lin ws xs)) W"

fun net_out :: "matrices \<Rightarrow> real list \<Rightarrow> real list" where
  "net_out [] xs = xs"
| "net_out (W # Ws) xs = net_out Ws (layer_out W xs)"

text \<open>Half the squared distance to the target.\<close>

definition loss :: "matrices \<Rightarrow> real list \<Rightarrow> real list \<Rightarrow> real" where
  "loss Ws xs t = (\<Sum>j<length t. (t ! j - net_out Ws xs ! j) ^ 2) / 2"

lemma loss_Cons: "loss (W # Ws) xs t = loss Ws (layer_out W xs) t"
  by (simp add: loss_def)

text \<open>The errors that arrive at the inputs of a network, and the deltas of its first layer.\<close>

fun arriving :: "matrices \<Rightarrow> real list \<Rightarrow> real list \<Rightarrow> nat \<Rightarrow> real" where
  "arriving [] xs t k = t ! k - xs ! k"
| "arriving (W # Ws) xs t k =
     (let ys = layer_out W xs in
      \<Sum>j<length W. W ! j ! k * (arriving Ws ys t j * (ys ! j * (1 - ys ! j))))"

definition first_delta :: "matrices \<Rightarrow> real list \<Rightarrow> real list \<Rightarrow> nat \<Rightarrow> real" where
  "first_delta Ws xs t j =
     (let ys = layer_out (hd Ws) xs in arriving (tl Ws) ys t j * (ys ! j * (1 - ys ! j)))"

fun matrices_fit :: "nat \<Rightarrow> matrices \<Rightarrow> nat \<Rightarrow> bool" where
  "matrices_fit n [] m \<longleftrightarrow> n = m"
| "matrices_fit n (W # Ws) m \<longleftrightarrow> (\<forall>ws\<in>set W. length ws = n + 1) \<and> matrices_fit (length W) Ws m"

section \<open>The derivative along a curve\<close>

lemma layer_out_nth [simp]: "j < length W \<Longrightarrow> layer_out W xs ! j = sigmoid (lin (W ! j) xs)"
  by (simp add: layer_out_def)

lemma length_layer_out [simp]: "length (layer_out W xs) = length W"
  by (simp add: layer_out_def)

lemma lin_curve:
  assumes "length ws = n + 1" and "\<And>k. k < n \<Longrightarrow> (x k has_real_derivative dx k) (at t0)"
  shows "((\<lambda>t. lin ws (map (\<lambda>k. x k t) [0..<n])) has_real_derivative (\<Sum>k<n. ws ! k * dx k)) (at t0)"
proof -
  have "((\<lambda>t. last ws + (\<Sum>k<n. ws ! k * x k t)) has_real_derivative 0 + (\<Sum>k<n. ws ! k * dx k)) (at t0)"
    using assms(2) by (intro DERIV_add DERIV_const DERIV_sum DERIV_cmult) auto
  moreover have "lin ws (map (\<lambda>k. x k t) [0..<n]) = last ws + (\<Sum>k<n. ws ! k * x k t)" for t
    using assms(1) by (simp add: lin_def)
  ultimately show ?thesis by simp
qed

lemma loss_curve:
  assumes "matrices_fit n Ws (length tg)"
    and "\<And>k. k < n \<Longrightarrow> (x k has_real_derivative dx k) (at t0)"
  shows "((\<lambda>t. loss Ws (map (\<lambda>k. x k t) [0..<n]) tg) has_real_derivative
    - (\<Sum>k<n. arriving Ws (map (\<lambda>k. x k t0) [0..<n]) tg k * dx k)) (at t0)"
  using assms
proof (induction Ws arbitrary: n x dx)
  case Nil
  then have n: "length tg = n" by simp
  have "((\<lambda>t. (\<Sum>j<n. (tg ! j - x j t) ^ 2) / 2) has_real_derivative
      (\<Sum>j<n. - (2 * (tg ! j - x j t0) * dx j)) / 2) (at t0)"
  proof (intro DERIV_cdivide DERIV_sum)
    fix j assume "j \<in> {..<n}"
    then have "(x j has_real_derivative dx j) (at t0)" using Nil(2) by simp
    then show "((\<lambda>t. (tg ! j - x j t) ^ 2) has_real_derivative - (2 * (tg ! j - x j t0) * dx j)) (at t0)"
      by (auto intro!: derivative_eq_intros)
  qed
  moreover have "(\<Sum>j<n. - (2 * (tg ! j - x j t0) * dx j)) / 2 = - (\<Sum>j<n. (tg ! j - x j t0) * dx j)"
    unfolding sum_divide_distrib sum_negf [symmetric] by (intro sum.cong refl) (simp add: field_simps)
  ultimately show ?case by (simp add: loss_def n)
next
  case (Cons W Ws)
  let ?xs = "\<lambda>t. map (\<lambda>k. x k t) [0..<n]"
  define y where "y j t = sigmoid (lin (W ! j) (?xs t))" for j t
  define dy where "dy j = y j t0 * (1 - y j t0) * (\<Sum>k<n. W ! j ! k * dx k)" for j
  have out: "layer_out W (?xs t) = map (\<lambda>j. y j t) [0..<length W]" for t
    by (intro nth_equalityI) (simp_all add: y_def)
  have dy: "(y j has_real_derivative dy j) (at t0)" if "j < length W" for j
  proof -
    have "length (W ! j) = n + 1" using Cons.prems(1) that by simp
    from DERIV_chain2 [OF sigmoid_derivative lin_curve [OF this Cons.prems(2)]]
    show ?thesis by (simp add: y_def [abs_def] dy_def)
  qed
  let ?e = "arriving Ws (map (\<lambda>j. y j t0) [0..<length W]) tg"
  have "((\<lambda>t. loss Ws (map (\<lambda>j. y j t) [0..<length W]) tg) has_real_derivative
      - (\<Sum>j<length W. ?e j * dy j)) (at t0)"
    using Cons.prems(1) dy by (intro Cons.IH) simp_all
  moreover have "(\<Sum>j<length W. ?e j * dy j) = (\<Sum>k<n. arriving (W # Ws) (?xs t0) tg k * dx k)"
  proof -
    have "(\<Sum>j<length W. ?e j * dy j) =
        (\<Sum>j<length W. \<Sum>k<n. W ! j ! k * (?e j * (y j t0 * (1 - y j t0))) * dx k)"
      by (simp add: dy_def sum_distrib_left ac_simps)
    also have "\<dots> = (\<Sum>k<n. \<Sum>j<length W. W ! j ! k * (?e j * (y j t0 * (1 - y j t0))) * dx k)"
      by (rule sum.swap)
    also have "\<dots> = (\<Sum>k<n. arriving (W # Ws) (?xs t0) tg k * dx k)"
      by (simp add: out sum_distrib_right Let_def)
    finally show ?thesis .
  qed
  ultimately show ?case by (simp add: loss_Cons out)
qed

section \<open>The derivative by a weight\<close>

lemma lin_update:
  assumes "length ws = length xs + 1" and "k \<le> length xs"
  shows "lin (ws[k := v]) xs = lin (ws[k := 0]) xs + v * input_at xs k"
proof -
  have ne: "ws \<noteq> []" using assms(1) by auto
  show ?thesis
  proof (cases "k < length xs")
    case True
    have "(\<Sum>i<length xs. ws[k := v] ! i * xs ! i) =
        (\<Sum>i<length xs. ws[k := 0] ! i * xs ! i + (if i = k then v * xs ! k else 0))"
      using assms(1) by (intro sum.cong) (auto simp: nth_list_update)
    moreover have "last (ws[k := v]) = last (ws[k := 0])"
      using assms(1) True ne by (simp add: last_list_update)
    ultimately show ?thesis
      using assms(1) True by (simp add: lin_def input_at_def sum.distrib)
  next
    case False
    then have k: "k = length xs" using assms(2) by simp
    have "(\<Sum>i<length xs. ws[k := v] ! i * xs ! i) = (\<Sum>i<length xs. ws[k := 0] ! i * xs ! i)"
      using k by (intro sum.cong) auto
    moreover have "last (ws[k := u]) = u" for u
      using assms(1) k ne by (simp add: last_list_update)
    ultimately show ?thesis using assms(1) k by (simp add: lin_def input_at_def)
  qed
qed

lemma first_weight_derivative:
  assumes "matrices_fit (length xs) (W # Ws) (length tg)" and "j < length W" and "k \<le> length xs"
  shows "((\<lambda>v. loss (W[j := (W ! j)[k := v]] # Ws) xs tg) has_real_derivative
    - (first_delta (W # Ws) xs tg j * input_at xs k)) (at (W ! j ! k))"
proof -
  let ?v0 = "W ! j ! k" and ?n = "length W"
  define y where "y i v = sigmoid (lin (W[j := (W ! j)[k := v]] ! i) xs)" for i v
  define dy where "dy i = (if i = j then y j ?v0 * (1 - y j ?v0) * input_at xs k else 0)" for i
  have len: "length (W ! j) = length xs + 1" using assms by simp
  have out: "layer_out (W[j := (W ! j)[k := v]]) xs = map (\<lambda>i. y i v) [0..<?n]" for v
    by (intro nth_equalityI) (simp_all add: y_def)
  have out0: "map (\<lambda>i. y i ?v0) [0..<?n] = layer_out W xs"
    using out [of ?v0] by simp
  have dy: "(y i has_real_derivative dy i) (at ?v0)" if "i < ?n" for i
  proof (cases "i = j")
    case True
    have "((\<lambda>v. lin ((W ! j)[k := 0]) xs + v * input_at xs k) has_real_derivative input_at xs k) (at ?v0)"
      by (auto intro!: derivative_eq_intros)
    moreover have "(\<lambda>v. lin ((W ! j)[k := v]) xs) = (\<lambda>v. lin ((W ! j)[k := 0]) xs + v * input_at xs k)"
      by (rule ext) (rule lin_update [OF len assms(3)])
    ultimately have "((\<lambda>v. lin ((W ! j)[k := v]) xs) has_real_derivative input_at xs k) (at ?v0)" by simp
    from DERIV_chain2 [OF sigmoid_derivative this] True that show ?thesis
      by (simp add: y_def [abs_def] dy_def)
  next
    case False
    then show ?thesis using that by (simp add: y_def [abs_def] dy_def)
  qed
  have "((\<lambda>v. loss Ws (map (\<lambda>i. y i v) [0..<?n]) tg) has_real_derivative
      - (\<Sum>i<?n. arriving Ws (map (\<lambda>i. y i ?v0) [0..<?n]) tg i * dy i)) (at ?v0)"
    using assms(1) dy by (intro loss_curve) simp_all
  moreover have "(\<Sum>i<?n. arriving Ws (map (\<lambda>i. y i ?v0) [0..<?n]) tg i * dy i) =
      first_delta (W # Ws) xs tg j * input_at xs k"
  proof -
    have "(\<Sum>i<?n. arriving Ws (layer_out W xs) tg i * dy i) =
        (\<Sum>i<?n. if i = j then arriving Ws (layer_out W xs) tg j * dy j else 0)"
      by (intro sum.cong) (auto simp: dy_def)
    also have "\<dots> = arriving Ws (layer_out W xs) tg j * dy j" using assms(2) by simp
    finally show ?thesis
      using assms(2) unfolding out0 by (simp add: first_delta_def dy_def y_def Let_def)
  qed
  ultimately show ?thesis by (simp add: loss_Cons out)
qed

text \<open>The inputs that reach layer \<open>l\<close>, and a network with one weight replaced.\<close>

fun layer_inputs :: "matrices \<Rightarrow> real list \<Rightarrow> nat \<Rightarrow> real list" where
  "layer_inputs Ws xs 0 = xs"
| "layer_inputs [] xs (Suc l) = xs"
| "layer_inputs (W # Ws) xs (Suc l) = layer_inputs Ws (layer_out W xs) l"

definition set_weight :: "matrices \<Rightarrow> nat \<Rightarrow> nat \<Rightarrow> nat \<Rightarrow> real \<Rightarrow> matrices" where
  "set_weight Ws l j k v = Ws[l := (Ws ! l)[j := (Ws ! l ! j)[k := v]]]"

lemma weight_derivative:
  assumes "matrices_fit (length xs) Ws (length tg)" and "l < length Ws" and "j < length (Ws ! l)"
    and "k < length (Ws ! l ! j)"
  shows "((\<lambda>v. loss (set_weight Ws l j k v) xs tg) has_real_derivative
    - (first_delta (drop l Ws) (layer_inputs Ws xs l) tg j * input_at (layer_inputs Ws xs l) k)) (at (Ws ! l ! j ! k))"
  using assms
proof (induction l arbitrary: Ws xs)
  case 0
  then obtain W Ws' where Ws: "Ws = W # Ws'" by (cases Ws) auto
  with 0 have "k \<le> length xs" by auto
  with 0 Ws first_weight_derivative [of xs W Ws' tg j k] show ?case by (simp add: set_weight_def)
next
  case (Suc l)
  then obtain W Ws' where Ws: "Ws = W # Ws'" by (cases Ws) auto
  have "((\<lambda>v. loss (set_weight Ws' l j k v) (layer_out W xs) tg) has_real_derivative
    - (first_delta (drop l Ws') (layer_inputs Ws' (layer_out W xs) l) tg j *
       input_at (layer_inputs Ws' (layer_out W xs) l) k)) (at (Ws' ! l ! j ! k))"
    using Suc.prems Ws by (intro Suc.IH) simp_all
  then show ?case by (simp add: Ws set_weight_def loss_Cons)
qed

section \<open>The code computes these values\<close>

abbreviation mats :: "real network \<Rightarrow> matrices" where
  "mats net \<equiv> map (map weights) net"

lemma fits_matrices: "fits n net \<Longrightarrow> matrices_fit n (mats net) (if net = [] then n else length (last net))"
proof (induction net arbitrary: n)
  case (Cons layer net)
  then have "matrices_fit (length layer) (mats net) (if net = [] then length layer else length (last net))"
    by simp
  with Cons.prems show ?case by (auto simp: list_all_iff)
qed simp

text \<open>The outputs and the deltas, layer by layer.\<close>

fun stored :: "matrices \<Rightarrow> real list \<Rightarrow> real list list" where
  "stored [] xs = []"
| "stored (W # Ws) xs = layer_out W xs # stored Ws (layer_out W xs)"

fun deltas :: "matrices \<Rightarrow> real list \<Rightarrow> real list \<Rightarrow> real list list" where
  "deltas [] xs t = []"
| "deltas (W # Ws) xs t =
     map (first_delta (W # Ws) xs t) [0..<length W] # deltas Ws (layer_out W xs) t"

lemma forward_neuron_exact:
  assumes "forward_neuron math_exp inputs neuron = Inr neuron'" and "inputs = xs @ zs"
    and "length (weights neuron) = length xs + 1"
  shows "weights neuron' = weights neuron \<and> out neuron' = Some (sigmoid (lin (weights neuron) xs))"
proof -
  have "weights neuron \<noteq> []" "length (weights neuron) \<le> length inputs + 1" using assms(2,3) by auto
  from activate_lin [OF this] assms lin_append [of "weights neuron" xs zs] show ?thesis
    by (auto simp: forward_neuron_def bindE_eq_Inr dest: transfer_sigmoid)
qed

lemma forward_exact:
  assumes "forward_propagate math_exp net inputs = Inr (ys, net')" and "inputs = xs @ zs"
    and "fits (length xs) net" and "net \<noteq> []"
  shows "ys = net_out (mats net) xs \<and> mats net' = mats net \<and> map (map out) net' = map (map Some) (stored (mats net) xs)"
  using assms
proof (induction net arbitrary: inputs xs zs ys net')
  case (Cons layer net)
  let ?W = "map weights layer"
  from Cons.prems(1) obtain layer' o' net1 where
    layer': "mapE (forward_neuron math_exp inputs) layer = Inr layer'"
    and o': "mapE (\<lambda>n. the_key (out n)) layer' = Inr o'"
    and net1: "forward_propagate math_exp net o' = Inr (ys, net1)" "net' = layer' # net1"
    by (auto simp: bindE_eq_Inr)
  have len: "length layer' = length layer" using mapE_length [OF layer'] by simp
  have neuron: "weights (layer' ! i) = ?W ! i \<and> out (layer' ! i) = Some (layer_out ?W xs ! i)" if "i < length layer" for i
    using forward_neuron_exact [OF mapE_nth [OF layer' that] Cons.prems(2)] Cons.prems(3) that
    by (auto simp: list_all_iff)
  have W': "map weights layer' = ?W" "map out layer' = map Some (layer_out ?W xs)"
    using len neuron by (auto intro!: nth_equalityI)
  have "o' = layer_out ?W xs"
  proof (rule nth_equalityI)
    show "length o' = length (layer_out ?W xs)" using mapE_length [OF o'] len by simp
    show "o' ! i = layer_out ?W xs ! i" if "i < length o'" for i
      using mapE_nth [OF o', of i] neuron [of i] mapE_length [OF o'] len that by simp
  qed
  show ?case
  proof (cases "net = []")
    case True
    with net1 W' \<open>o' = _\<close> show ?thesis by simp
  next
    case False
    from Cons.IH [OF net1(1), of o' "[]"] Cons.prems(3) False \<open>o' = _\<close> W' net1(2)
    show ?thesis by simp
  qed
qed simp

lemma delta_layer_nth:
  assumes "length errors = length layer" and "j < length layer"
  shows "delta (delta_layer errors layer ! j) = Some (errors ! j * transfer_derivative (the (out (layer ! j))))"
  using assms by (simp add: delta_layer_def)

lemma sum_list_nth: "(\<Sum>x\<leftarrow>xs. f x) = (\<Sum>i<length xs. f (xs ! i) :: real)"
  using sum_list_sum_nth [of "map f xs"] by (simp add: atLeast0LessThan)

lemma back_net_exact:
  assumes "mats net = Ws" and "map (map out) net = map (map Some) (stored Ws xs)"
    and "matrices_fit (length xs) Ws (length t)"
  shows "map (map delta) (back_net net t) = map (map Some) (deltas Ws xs t)"
  using assms
proof (induction net t arbitrary: Ws xs rule: back_net.induct)
  case (1 t)
  then show ?case by simp
next
  case (2 layer t)
  then obtain W where W: "Ws = [W]" "map weights layer = W" "map out layer = map Some (layer_out W xs)" by auto
  have len: "length W = length layer" using W(2) by auto
  have "delta (delta_layer (map (\<lambda>(j, neuron). t ! j - the (out neuron)) (List.enumerate 0 layer)) layer ! j) =
      Some (first_delta [W] xs t j)" if "j < length layer" for j
  proof -
    have "out (layer ! j) = Some (layer_out W xs ! j)"
      using that len arg_cong [OF W(3), of "\<lambda>l. l ! j"] by simp
    then show ?thesis
      using that len by (simp add: delta_layer_nth nth_enumerate_eq first_delta_def transfer_derivative_def Let_def)
  qed
  then show ?case
    using W len by (auto intro!: nth_equalityI simp: length_delta_layer)
next
  case (3 layer next_layer net t)
  then obtain W W2 Ws' where W: "Ws = W # W2 # Ws'" "map weights layer = W" "map out layer = map Some (layer_out W xs)"
    and rest: "mats (next_layer # net) = W2 # Ws'"
      "map (map out) (next_layer # net) = map (map Some) (stored (W2 # Ws') (layer_out W xs))"
    by auto
  let ?net' = "back_net (next_layer # net) t" and ?ys = "layer_out W xs"
  have len: "length W = length layer" using W(2) by auto
  have IH: "map (map delta) ?net' = map (map Some) (deltas (W2 # Ws') ?ys t)"
    using "3.IH" [OF rest] "3.prems"(3) W(1) by simp
  have w: "mats ?net' = W2 # Ws'" using back_net_frame [of "next_layer # net" t] rest(1) by simp
  obtain l ls where net': "?net' = l # ls" and l: "map weights l = W2"
    "map delta l = map (\<lambda>j. Some (first_delta (W2 # Ws') ?ys t j)) [0..<length W2]"
    using w IH by (cases ?net') auto
  have l_nth: "weights (l ! i) = W2 ! i" "delta (l ! i) = Some (first_delta (W2 # Ws') ?ys t i)" if "i < length W2" for i
    using that arg_cong [OF l(1), of length] arg_cong [OF l(1), of "\<lambda>l. l ! i"] arg_cong [OF l(2), of "\<lambda>l. l ! i"] by simp_all
  have errors: "(\<Sum>neuron\<leftarrow>l. weights neuron ! j * the (delta neuron)) = arriving (W2 # Ws') ?ys t j" for j
  proof -
    have "length l = length W2" using l(1) by auto
    then have "(\<Sum>neuron\<leftarrow>l. weights neuron ! j * the (delta neuron)) =
        (\<Sum>i<length W2. W2 ! i ! j * first_delta (W2 # Ws') ?ys t i)"
      unfolding sum_list_nth by (intro sum.cong) (auto simp: l_nth)
    then show ?thesis by (simp add: first_delta_def Let_def)
  qed
  let ?errors = "map (\<lambda>j. \<Sum>neuron\<leftarrow>l. weights neuron ! j * the (delta neuron)) [0..<length layer]"
  have "delta (delta_layer ?errors layer ! j) = Some (first_delta (W # W2 # Ws') xs t j)" if "j < length layer" for j
  proof -
    have "out (layer ! j) = Some (?ys ! j)"
      using that len arg_cong [OF W(3), of "\<lambda>l. l ! j"] by simp
    then show ?thesis
      using that by (simp add: delta_layer_nth errors first_delta_def transfer_derivative_def Let_def)
  qed
  then have "map delta (delta_layer ?errors layer) = map Some (map (first_delta Ws xs t) [0..<length W])"
    using len W(1) by (auto intro!: nth_equalityI simp: length_delta_layer)
  then show ?case using IH net' W(1) by (simp add: Let_def)
qed

lemma moved_net_exact:
  assumes "mats net = Ws" and "map (map out) net = map (map Some) (stored Ws xs)"
    and "map (map delta) net = map (map Some) (deltas Ws xs t)"
    and "l < length Ws" and "j < length (Ws ! l)" and "k < length (Ws ! l ! j)"
  shows "mats (moved_net r xs net) ! l ! j ! k = Ws ! l ! j ! k +
    r * first_delta (drop l Ws) (layer_inputs Ws xs l) t j * input_at (layer_inputs Ws xs l) k"
  using assms
proof (induction l arbitrary: net Ws xs)
  case 0
  then obtain layer net' where net: "net = layer # net'" by (cases net) auto
  with 0 obtain W Ws' where W: "Ws = W # Ws'" "map weights layer = W"
    "map delta layer = map (\<lambda>j. Some (first_delta Ws xs t j)) [0..<length W]" by auto
  have len: "length layer = length W" using W(2) by auto
  then have j: "j < length layer" using 0(5) W(1) by simp
  then have "weights (layer ! j) = W ! j" "delta (layer ! j) = Some (first_delta Ws xs t j)"
    using len arg_cong [OF W(2), of "\<lambda>l. l ! j"] arg_cong [OF W(3), of "\<lambda>l. l ! j"] by simp_all
  then show ?case using 0(6) W(1) j by (simp add: net moved_def)
next
  case (Suc l)
  then obtain layer net' where net: "net = layer # net'" by (cases net) auto
  with Suc.prems obtain W Ws' where W: "Ws = W # Ws'" "map weights layer = W"
    "map out layer = map Some (layer_out W xs)" by auto
  have "map (\<lambda>neuron. the (out neuron)) layer = map the (map out layer)" by simp
  then have o: "map (\<lambda>neuron. the (out neuron)) layer = layer_out W xs" unfolding W(3) by (simp add: comp_def)
  have "mats (moved_net r (layer_out W xs) net') ! l ! j ! k = Ws' ! l ! j ! k +
      r * first_delta (drop l Ws') (layer_inputs Ws' (layer_out W xs) l) t j *
      input_at (layer_inputs Ws' (layer_out W xs) l) k"
    using Suc.prems W(1) by (intro Suc.IH) (simp_all add: net)
  then show ?case using W(1) o by (simp add: net)
qed

lemma one_hot_eq:
  assumes "0 \<le> cls" and "cls < int n"
  shows "one_hot n cls = Inr ((replicate n 0)[nat cls := 1])"
  using assms by (simp add: one_hot_def py_index_def)

lemma squared_error_eq:
  assumes "length ys = length t"
  shows "squared_error t ys = Inr (\<Sum>j<length t. (t ! j - ys ! j) ^ 2 :: real)"
proof -
  have "mapE (\<lambda>i. bindE (py_index t (int i)) (\<lambda>e. bindE (py_index ys (int i)) (\<lambda>y.
      Inr ((e - y) ^ 2)))) [0..<length t] = Inr (map (\<lambda>i. (t ! i - ys ! i) ^ 2) [0..<length t])"
    using assms by (intro mapE_Inr) auto
  then show ?thesis by (simp add: squared_error_def interv_sum_list_conv_sum_set_nat atLeast0LessThan)
qed

lemma length_net_out: "matrices_fit n Ws m \<Longrightarrow> length xs = n \<Longrightarrow> length (net_out Ws xs) = m"
  by (induction Ws arbitrary: n xs) auto

section \<open>Properties\<close>

text \<open>
  C4: one training step is a step of gradient descent: for a network that fits its inputs and
  classes, when the forward pass does not overflow, every weight (and bias) of every neuron moves
  against the derivative of the loss by that weight, in proportion to the learning rate; and the
  error that is added up is twice the loss before the step.
\<close>

theorem train_row_is_gradient_descent:
  assumes "fits (length features) net" and "net \<noteq> []" and "length (last net) = n_outputs"
    and "0 \<le> cls" and "cls < int n_outputs"
    and "train_row math_exp r n_outputs (features, cls) (net, s) = Inr (net', s')"
    and "l < length net" and "j < length (net ! l)" and "k < length (weights (net ! l ! j))"
  shows "s' = s + 2 * loss (mats net) features ((replicate n_outputs 0)[nat cls := 1]) \<and>
    (\<exists>D. ((\<lambda>v. loss (set_weight (mats net) l j k v) features ((replicate n_outputs 0)[nat cls := 1]))
          has_real_derivative D) (at (weights (net ! l ! j) ! k)) \<and>
       weights (net' ! l ! j) ! k = weights (net ! l ! j) ! k - r * D)"
proof -
  let ?t = "(replicate n_outputs 0)[nat cls := 1] :: real list" and ?Ws = "mats net"
  let ?row = "features @ [of_int cls]"
  have fit: "matrices_fit (length features) ?Ws (length ?t)"
    using fits_matrices [OF assms(1)] assms(2,3) by simp
  from assms(6) one_hot_eq [OF assms(4,5), where 'a = real] obtain ys net1 e net2 where
    fwd: "forward_propagate math_exp net ?row = Inr (ys, net1)"
    and e: "squared_error ?t ys = Inr e" "s' = s + e"
    and bwd: "backward_propagate net1 ?t = Inr net2"
    and upd: "update_weights net2 ?row r = Inr net'"
    by (auto simp: train_row_def row_of_def bindE_eq_Inr)
  have net1: "ys = net_out ?Ws features" "mats net1 = ?Ws" "map (map out) net1 = map (map Some) (stored ?Ws features)"
    using forward_exact [OF fwd refl assms(1,2)] by blast+
  have sh1: "shape net1 = shape net" by (rule frame_shape [OF net1(2)])
  have ne: "net1 \<noteq> []" using net1(2) assms(2) by auto
  have last1: "length (last net1) = n_outputs"
    using sh1 assms(2,3) ne by (metis shape_def last_map length_map)
  have fits1: "fits (length features) net1" using fits_shape [OF sh1] assms(1) by simp
  have active1: "active net1"
  proof -
    have "active net1 \<longleftrightarrow> (\<forall>ys\<in>set (map (map out) net1). None \<notin> set ys)"
      by (simp add: active_def image_iff) (metis not_None_eq)
    then show ?thesis unfolding net1(3) by auto
  qed
  have net2: "net2 = back_net net1 ?t"
    using backward_eq [OF fits1 active1] last1 bwd by simp
  have w2: "mats net2 = ?Ws" and o2: "map (map out) net2 = map (map Some) (stored ?Ws features)" and "charged net2"
    using back_net_frame [of net1 ?t] net1 net2 by auto
  have d2: "map (map delta) net2 = map (map Some) (deltas ?Ws features ?t)"
    unfolding net2 by (rule back_net_exact [OF net1(2,3) fit])
  have "fits (length features) net2" using fits_shape [OF frame_shape [OF w2]] assms(1) by simp
  moreover have "active net2" using frame_active [of net2 net1] o2 net1(3) active1 by simp
  ultimately have net': "net' = moved_net r features net2"
    using upd update_layers_eq [of features net2 r] \<open>charged net2\<close> by (simp add: update_weights_def)
  have l: "l < length ?Ws" "j < length (?Ws ! l)" "k < length (?Ws ! l ! j)" "?Ws ! l ! j ! k = weights (net ! l ! j) ! k"
    using assms(7-9) by simp_all
  let ?g = "first_delta (drop l ?Ws) (layer_inputs ?Ws features l) ?t j * input_at (layer_inputs ?Ws features l) k"
  have "mats net' ! l ! j ! k = ?Ws ! l ! j ! k + r * ?g"
    using moved_net_exact [OF w2 o2 d2 l(1-3), of r] net' by (simp add: mult.assoc)
  moreover have "mats net' ! l ! j ! k = weights (net' ! l ! j) ! k"
  proof -
    have sh: "shape net' = shape net" using shape_moved_net frame_shape [OF w2] net' by metis
    have len: "length net' = length net" using sh unfolding shape_def by (rule map_eq_imp_length_eq)
    have "length (shape net' ! l) = length (shape net ! l)" by (simp only: sh)
    then have "length (net' ! l) = length (net ! l)" using assms(7) len by (simp add: shape_def)
    then show ?thesis using assms(7,8) len by simp
  qed
  ultimately have "weights (net' ! l ! j) ! k = weights (net ! l ! j) ! k - r * (- ?g)" using l(4) by simp
  moreover have "((\<lambda>v. loss (set_weight ?Ws l j k v) features ?t) has_real_derivative - ?g) (at (weights (net ! l ! j) ! k))"
    using weight_derivative [OF fit l(1-3)] l(4) by simp
  moreover have "s' = s + 2 * loss ?Ws features ?t"
  proof -
    have "length ys = length ?t"
      using length_net_out [OF fit refl] net1(1) by simp
    then show ?thesis using e squared_error_eq [of ys ?t] net1(1) by (simp add: loss_def)
  qed
  ultimately show ?thesis by blast
qed

text \<open>A network of one neuron, at rest.\<close>

definition one_neuron :: "real network" where
  "one_neuron = [[\<lparr> weights = [0, 0], out = None, delta = None \<rparr>]]"

lemma math_exp_0: "math_exp 0 = Inr 1"
  by (simp add: math_exp_def)

lemma train_one_neuron:
  "train_row math_exp 1 1 ([1], 0) (one_neuron, 0) =
     Inr ([[\<lparr> weights = [1/8, 1/8], out = Some (1/2), delta = Some (1/8) \<rparr>]], 1/4)"
  by (simp add: train_row_def one_neuron_def row_of_def forward_neuron_def activate_def transfer_def math_exp_0
      py_div_def one_hot_def squared_error_def output_errors_def set_deltas_def transfer_derivative_def
      update_weights_def update_neuron_def py_index_def power2_eq_square)

theorem train_row_is_gradient_descent_witness:
  "\<exists>D. ((\<lambda>v. loss (set_weight [[[0, 0]]] 0 0 0 v) [1] [1]) has_real_derivative D) (at 0) \<and> 1/8 = 0 - 1 * D"
  using train_row_is_gradient_descent [where features = "[1]" and net = one_neuron and n_outputs = 1 and cls = 0
      and r = 1 and s = 0 and l = 0 and j = 0 and k = 0, OF _ _ _ _ _ train_one_neuron]
  by (simp add: one_neuron_def)

lemma shape_initial:
  "shape (initialize_network rnd n_inputs n_hidden n_outputs) =
     [replicate n_hidden (n_inputs + 1), replicate n_outputs (n_hidden + 1)]"
  by (simp add: shape_def initialize_network_def random_layer_def comp_def map_replicate_const)

text \<open>
  Training a fresh network never goes wrong: whatever the random numbers, the number of hidden
  neurons, the learning rate and the number of epochs, on rows of the right length with classes
  that have an output, the only exception is the overflow of \<open>math.exp\<close>; otherwise the network
  has the shape it was made with, and every epoch was logged.
\<close>

theorem training_is_typed:
  assumes "\<forall>row\<in>set rows. row_ok n_inputs n_outputs row"
  shows "case train_network math_exp (initialize_network rnd n_inputs n_hidden n_outputs) rows r n_epoch n_outputs of
      Inl e \<Rightarrow> e = OverflowError
    | Inr (net', printed) \<Rightarrow> shape net' = [replicate n_hidden (n_inputs + 1), replicate n_outputs (n_hidden + 1)] \<and>
        length printed = n_epoch"
proof -
  let ?net = "initialize_network rnd n_inputs n_hidden n_outputs"
  have "fits n_inputs ?net"
    unfolding fits_iff_widths shape_initial by (simp add: list_all_iff)
  moreover have "?net \<noteq> []" "length (last ?net) = n_outputs"
    by (simp_all add: initialize_network_def random_layer_def)
  ultimately show ?thesis
    using py_exp.train_network_safe [where net = ?net and r = r and n_epoch = n_epoch, OF _ _ _ assms] shape_initial
    by (simp add: safe_def split: sum.splits prod.splits)
qed

theorem training_is_typed_witness:
  "case train_network math_exp (initialize_network (\<lambda>i. 1 / of_nat (i + 1)) 2 2 2)
      [([2.78, 2.55], 0), ([7.62, 2.75], 1)] (1/2) 20 2 of
      Inl e \<Rightarrow> e = OverflowError
    | Inr (net', printed) \<Rightarrow> shape net' = [[3, 3], [3, 3]] \<and> length printed = 20"
proof -
  have "\<forall>row\<in>set [([2.78, 2.55], 0), ([7.62, 2.75], 1)]. row_ok 2 2 (row :: real data_row)"
    by (simp add: row_ok_def)
  from training_is_typed [OF this, where rnd = "\<lambda>i. 1 / of_nat (i + 1)" and n_hidden = 2 and r = "1/2" and n_epoch = 20]
  have "case train_network math_exp (initialize_network (\<lambda>i. 1 / of_nat (i + 1)) 2 2 2)
      [([2.78, 2.55], 0), ([7.62, 2.75], 1)] (1/2) 20 2 of
      Inl e \<Rightarrow> e = OverflowError
    | Inr (net', printed) \<Rightarrow> shape net' = [replicate 2 (2 + 1), replicate 2 (2 + 1)] \<and> length printed = 20" .
  moreover have "[replicate 2 (2 + 1), replicate 2 (2 + 1)] = [[3, 3], [3, 3 :: nat]]"
    by (simp add: numeral_2_eq_2)
  ultimately show ?thesis by (simp only:)
qed

text \<open>
  C27: a prediction is the class with the greatest output, the first one of several, and every
  output it compared lies between zero and one; nothing but the overflow of \<open>math.exp\<close> can
  prevent it.
\<close>

theorem predict_first_greatest:
  assumes "fits n net" and "net \<noteq> []" and "last net \<noteq> []" and "n \<le> length row"
  shows "case predict math_exp net row of
      Inl e \<Rightarrow> e = OverflowError
    | Inr i \<Rightarrow> (\<exists>ys net'. forward_propagate math_exp net row = Inr (ys, net') \<and> length ys = length (last net) \<and>
        i < length ys \<and> list_all (\<lambda>y. 0 < y \<and> y \<le> ys ! i \<and> y \<le> 1) ys \<and> list_all (\<lambda>y. y < ys ! i) (take i ys))"
proof (cases "forward_propagate math_exp net row")
  case (Inl e)
  with py_exp.forward_safe [OF assms(1,4)] show ?thesis by (simp add: safe_def predict_def)
next
  case (Inr p)
  then obtain ys net' where fwd: "forward_propagate math_exp net row = Inr (ys, net')" by (cases p) auto
  with py_exp.forward_safe [OF assms(1,4)] have ys: "length ys = length (last net)" "list_all (\<lambda>y. 0 < y \<and> y \<le> 1) ys"
    using assms(2) by (auto simp: good_outputs_def)
  then have "ys \<noteq> []" using assms(3) by auto
  then obtain a as where a: "ys = a # as" by (cases ys) auto
  let ?m = "foldl max a as" and ?i = "first_index (foldl max a as) ys"
  have m: "?m \<in> set ys" "\<forall>y\<in>set ys. y \<le> ?m" using foldl_max [of a as] a by auto
  note i = first_index_found [OF m(1)]
  have "list_all (\<lambda>y. y < ys ! ?i) (take ?i ys)"
    unfolding list_all_length
  proof (intro allI impI)
    fix k assume "k < length (take ?i ys)"
    then have "k < ?i" "k < length ys" by auto
    then have "ys ! k \<noteq> ?m" "ys ! k \<le> ?m" using i m(2) by auto
    then have "ys ! k < ?m" by simp
    then show "take ?i ys ! k < ys ! ?i" using i \<open>k < ?i\<close> by simp
  qed
  moreover have "list_all (\<lambda>y. 0 < y \<and> y \<le> ys ! ?i \<and> y \<le> 1) ys"
    using ys(2) m(2) i by (auto simp: list_all_iff)
  moreover have "predict math_exp net row = Inr ?i" using fwd a by (simp add: predict_def)
  ultimately show ?thesis using fwd ys(1) i by auto
qed

theorem predict_first_greatest_witness:
  "case predict math_exp one_neuron [1] of Inl e \<Rightarrow> e = OverflowError
    | Inr i \<Rightarrow> (\<exists>ys net'. forward_propagate math_exp one_neuron [1] = Inr (ys, net') \<and> length ys = 1 \<and>
        i < length ys \<and> list_all (\<lambda>y. 0 < y \<and> y \<le> ys ! i \<and> y \<le> 1) ys \<and> list_all (\<lambda>y. y < ys ! i) (take i ys))"
proof -
  have "fits 1 one_neuron" "one_neuron \<noteq> []" "last one_neuron \<noteq> []" "1 \<le> length [1::real]"
    and len: "length (last one_neuron) = 1" by (simp_all add: one_neuron_def)
  from predict_first_greatest [OF this(1-4)] show ?thesis unfolding len .
qed

end
