(* ===== verification/Matrix_Net.thy ===== *)
theory Matrix_Net
  imports Backprop_Gradient
begin

text \<open>
  The matrix functions and the class \<open>fullNN\<close> of \<open>python/manu_nn/nick_nn_2_3.py\<close>.
  A matrix is a list of rows; a function that is given matrices of the wrong sizes returns the
  number -1 in place of a matrix, which every other function trips over. As in the other network,
  arithmetic is exact and \<open>math.exp\<close> is an argument; \<open>numpy\<close>'s shape of a matrix is an
  argument too.
\<close>

section \<open>Matrices\<close>

datatype 'a mat_value = Mat "'a list list" | Minus_One

text \<open>Indexing a number, or taking its length, is a \<open>TypeError\<close>.\<close>

definition the_mat :: "'a mat_value \<Rightarrow> 'a list list result" where
  "the_mat v = (case v of Mat m \<Rightarrow> Inr m | Minus_One \<Rightarrow> Inl TypeError)"

lemma the_mat_simps [simp]: "the_mat (Mat m) = Inr m" "the_mat Minus_One = Inl TypeError"
  by (simp_all add: the_mat_def)

definition cell :: "'a list list \<Rightarrow> nat \<Rightarrow> nat \<Rightarrow> 'a result" where
  "cell m i j = bindE (py_index m (int i)) (\<lambda>row. py_index row (int j))"

text \<open>A matrix of \<open>r\<close> rows and \<open>c\<close> columns, filled row by row.\<close>

definition tabulate :: "nat \<Rightarrow> nat \<Rightarrow> (nat \<Rightarrow> nat \<Rightarrow> 'a result) \<Rightarrow> 'a mat_value result" where
  "tabulate r c f = bindE (mapE (\<lambda>i. mapE (f i) [0..<c]) [0..<r]) (\<lambda>m. Inr (Mat m))"

text \<open>The number of columns, read off the first row; with no rows the comprehensions never ask.\<close>

definition n_columns :: "'a list list \<Rightarrow> nat" where
  "n_columns m = (case m of [] \<Rightarrow> 0 | row # _ \<Rightarrow> length row)"

definition actfun :: "('a::linordered_field \<Rightarrow> 'a result) \<Rightarrow> 'a mat_value \<Rightarrow> 'a mat_value result" where
  "actfun expf v = bindE (the_mat v) (\<lambda>m.
     tabulate (length m) (n_columns m) (\<lambda>i j. bindE (cell m i j) (transfer expf)))"

text \<open>\<open>np_shape\<close> is \<open>np.mat(m).shape\<close>.\<close>

definition MatTranpose :: "('a list list \<Rightarrow> nat \<times> nat) \<Rightarrow> 'a mat_value \<Rightarrow> 'a mat_value result" where
  "MatTranpose np_shape v = bindE (the_mat v) (\<lambda>m.
     let (row, column) = np_shape m in tabulate column row (\<lambda>i j. cell m j i))"

definition MatMul :: "'a::linordered_field mat_value \<Rightarrow> 'a mat_value \<Rightarrow> 'a mat_value result" where
  "MatMul v1 v2 =
     bindE (the_mat v1) (\<lambda>m1. bindE (py_index m1 0) (\<lambda>row1. bindE (the_mat v2) (\<lambda>m2.
       if length row1 \<noteq> length m2 then Inr Minus_One
       else bindE (py_index m2 0) (\<lambda>row2.
         tabulate (length m1) (length row2) (\<lambda>i j.
           forE [0..<length row1] (\<lambda>k s. bindE (cell m1 i k) (\<lambda>x. bindE (cell m2 k j) (\<lambda>y.
             Inr (s + x * y)))) 0)))))"

definition MatAddInt :: "'a::linordered_field mat_value \<Rightarrow> 'a \<Rightarrow> 'a mat_value result" where
  "MatAddInt v n = bindE (the_mat v) (\<lambda>m.
     tabulate (length m) (n_columns m) (\<lambda>i j. bindE (cell m i j) (\<lambda>x. Inr (0 + (x + n)))))"

definition MatSum :: "'a::linordered_field mat_value \<Rightarrow> 'a result" where
  "MatSum v = bindE (the_mat v) (\<lambda>m.
     forE [0..<length m] (\<lambda>i. forE [0..<n_columns m] (\<lambda>j s. bindE (cell m i j) (\<lambda>x. Inr (s + x)))) 0)"

text \<open>Whether two matrices have the same number of rows, and first rows of the same length.\<close>

definition same_size :: "'a list list \<Rightarrow> 'a list list \<Rightarrow> bool result" where
  "same_size m1 m2 =
     bindE (py_index m1 0) (\<lambda>row1.
       if length m1 \<noteq> length m2 then Inr False
       else bindE (py_index m2 0) (\<lambda>row2. Inr (length row1 = length row2)))"

definition MatAdd :: "'a::linordered_field mat_value \<Rightarrow> 'a mat_value \<Rightarrow> 'a mat_value result" where
  "MatAdd v1 v2 =
     bindE (the_mat v1) (\<lambda>m1. bindE (the_mat v2) (\<lambda>m2. bindE (same_size m1 m2) (\<lambda>same.
       if \<not> same then Inr Minus_One
       else tabulate (length m1) (n_columns m1) (\<lambda>i j.
         bindE (cell m1 i j) (\<lambda>x. bindE (cell m2 i j) (\<lambda>y. Inr (x + y)))))))"

definition MatMulInt :: "'a::linordered_field mat_value \<Rightarrow> 'a \<Rightarrow> 'a mat_value result" where
  "MatMulInt v n = bindE (the_mat v) (\<lambda>m. bindE (py_index m 0) (\<lambda>row.
     tabulate (length m) (length row) (\<lambda>i j. bindE (cell m i j) (\<lambda>x. Inr (x * n)))))"

text \<open>
  The complaint about wrong sizes adds a list to a string, so here it is a \<open>TypeError\<close>, not
  the number -1.
\<close>

definition MatElementWise :: "'a::linordered_field mat_value \<Rightarrow> 'a mat_value \<Rightarrow> 'a mat_value result" where
  "MatElementWise v1 v2 =
     bindE (the_mat v1) (\<lambda>m1. bindE (the_mat v2) (\<lambda>m2. bindE (same_size m1 m2) (\<lambda>same.
       if \<not> same then Inl TypeError
       else tabulate (length m1) (n_columns m1) (\<lambda>i j.
         bindE (cell m1 i j) (\<lambda>x. bindE (cell m2 i j) (\<lambda>y. Inr (x * y)))))))"

section \<open>The network\<close>

record 'a fullNN =
  layer_units :: "nat list"
  learn_rate :: 'a
  input_data :: "'a mat_value"
  nn_w :: "'a mat_value list"
  nn_b :: "'a list"
  target :: "'a mat_value"
  nn_z :: "'a mat_value list"
  nn_a :: "'a mat_value list"
  nn_pred :: "'a mat_value"
  nn_theta :: "'a mat_value list"
  epoches :: nat

text \<open>The random numbers are taken in the order of the weights, then of the biases.\<close>

fun InitW :: "(nat \<Rightarrow> 'a) \<Rightarrow> nat \<Rightarrow> nat list \<Rightarrow> 'a mat_value list" where
  "InitW rnd start (m # n # units) =
     Mat (map (\<lambda>i. map (\<lambda>j. rnd (start + i * n + j)) [0..<n]) [0..<m]) # InitW rnd (start + m * n) (n # units)"
| "InitW rnd start units = []"

fun n_weights :: "nat list \<Rightarrow> nat" where
  "n_weights (m # n # units) = m * n + n_weights (n # units)"
| "n_weights units = 0"

definition InitB :: "(nat \<Rightarrow> 'a) \<Rightarrow> nat \<Rightarrow> nat list \<Rightarrow> 'a list" where
  "InitB rnd start units = map (\<lambda>l. rnd (start + l)) [0..<length units - 1]"

text \<open>One layer: \<open>z.append(...)\<close> and \<open>a.append(actfun(z[-1]))\<close>.\<close>

definition forward_step ::
  "('a::linordered_field \<Rightarrow> 'a result) \<Rightarrow> 'a fullNN \<Rightarrow> nat \<Rightarrow> 'a mat_value \<Rightarrow>
     'a mat_value list \<times> 'a mat_value list \<Rightarrow> ('a mat_value list \<times> 'a mat_value list) result" where
  "forward_step expf s i inputs = (\<lambda>(zs, as).
     bindE (py_index (nn_w s) (int i)) (\<lambda>wi. bindE (MatMul inputs wi) (\<lambda>p.
     bindE (py_index (nn_b s) (int i)) (\<lambda>bi. bindE (MatAddInt p bi) (\<lambda>zi.
     bindE (actfun expf zi) (\<lambda>ai. Inr (zs @ [zi], as @ [ai])))))))"

definition Forward ::
  "('a::linordered_field \<Rightarrow> 'a result) \<Rightarrow> 'a fullNN \<Rightarrow> ('a mat_value list \<times> 'a mat_value list \<times> 'a mat_value) result" where
  "Forward expf s =
     bindE (forward_step expf s 0 (input_data s) ([], [])) (\<lambda>start.
     bindE (forE [0..<length (layer_units s) - 2] (\<lambda>i (zs, as).
         bindE (py_index as (int i)) (\<lambda>ai. forward_step expf s (i + 1) ai (zs, as))) start) (\<lambda>(zs, as).
     bindE (py_index as (- 1)) (\<lambda>pred. Inr (zs, as, pred))))"

definition Backward ::
  "('a::linordered_field list list \<Rightarrow> nat \<times> nat) \<Rightarrow> 'a fullNN \<Rightarrow> 'a mat_value list result" where
  "Backward np_shape s =
     bindE (MatMulInt (target s) (- 1)) (\<lambda>neg. bindE (MatAdd (nn_pred s) neg) (\<lambda>gap.
     bindE (py_index (nn_z s) (- 1)) (\<lambda>zl. bindE (MatElementWise gap zl) (\<lambda>t.
     bindE (MatMulInt zl (- 1)) (\<lambda>nz. bindE (MatAddInt nz 1) (\<lambda>d. bindE (MatElementWise t d) (\<lambda>first.
     bindE (forE [0..<length (layer_units s) - 2] (\<lambda>i th.
       bindE (py_index th (- 1)) (\<lambda>last_theta.
       bindE (py_index (nn_w s) (- int i - 1)) (\<lambda>wi. bindE (MatTranpose np_shape wi) (\<lambda>wt.
       bindE (MatMul last_theta wt) (\<lambda>temp.
       bindE (py_index (nn_z s) (- int i - 2)) (\<lambda>zi.
       bindE (MatMulInt zi (- 1)) (\<lambda>nz. bindE (MatAddInt nz 1) (\<lambda>d. bindE (MatElementWise d zi) (\<lambda>sigmoid_d.
       bindE (MatElementWise temp sigmoid_d) (\<lambda>this_theta. Inr (th @ [this_theta]))))))))))) [first]) (\<lambda>th.
     Inr (rev th)))))))))"

definition init_fullNN ::
  "('a::linordered_field \<Rightarrow> 'a result) \<Rightarrow> ('a list list \<Rightarrow> nat \<times> nat) \<Rightarrow> (nat \<Rightarrow> 'a) \<Rightarrow>
     nat list \<Rightarrow> 'a list list \<Rightarrow> 'a list list \<Rightarrow> 'a \<Rightarrow> nat \<Rightarrow> 'a fullNN result" where
  "init_fullNN expf np_shape rnd units input_rows output_rows rate n_epoches =
     bindE (py_index input_rows 0) (\<lambda>_.
     (let s = \<lparr> layer_units = units, learn_rate = rate, input_data = Mat input_rows,
            nn_w = InitW rnd 0 units, nn_b = InitB rnd (n_weights units) units, target = Mat output_rows,
            nn_z = [], nn_a = [], nn_pred = Minus_One, nn_theta = [], epoches = n_epoches \<rparr>
      in bindE (Forward expf s) (\<lambda>(zs, as, p).
         let s = s\<lparr>nn_z := zs, nn_a := as, nn_pred := p\<rparr>
         in bindE (Backward np_shape s) (\<lambda>th. Inr (s\<lparr>nn_theta := th\<rparr>)))))"

definition update :: "('a::linordered_field list list \<Rightarrow> nat \<times> nat) \<Rightarrow> 'a fullNN \<Rightarrow> 'a fullNN result" where
  "update np_shape =
     (\<lambda>s. forE [0..<length (layer_units s) - 1] (\<lambda>i s.
       bindE (py_index (nn_b s) (int i)) (\<lambda>bi. bindE (py_index (nn_theta s) (int i)) (\<lambda>th.
       bindE (MatMulInt th (learn_rate s)) (\<lambda>scaled. bindE (MatSum scaled) (\<lambda>total.
       bindE (if i = 0 then Inr (input_data s) else py_index (nn_a s) (int i - 1)) (\<lambda>inputs.
       bindE (MatTranpose np_shape inputs) (\<lambda>it. bindE (MatMul it th) (\<lambda>g.
       bindE (MatMulInt g (learn_rate s)) (\<lambda>step. bindE (MatMulInt step (- 1)) (\<lambda>down.
       bindE (py_index (nn_w s) (int i)) (\<lambda>wi. bindE (MatAdd down wi) (\<lambda>wi'.
         Inr (s\<lparr>nn_b := (nn_b s)[i := bi - total], nn_w := (nn_w s)[i := wi']\<rparr>))))))))))))) s)"

definition Calcost :: "'a::linordered_field fullNN \<Rightarrow> 'a result" where
  "Calcost s =
     bindE (MatAddInt (nn_pred s) (- 1)) (\<lambda>p. bindE (MatAdd (target s) p) (\<lambda>gap_mat.
     bindE (MatElementWise gap_mat gap_mat) MatSum))"

text \<open>The losses printed, epoch by epoch, and the network.\<close>

definition run_fullNN ::
  "('a::linordered_field \<Rightarrow> 'a result) \<Rightarrow> ('a list list \<Rightarrow> nat \<times> nat) \<Rightarrow> 'a fullNN \<Rightarrow> ('a fullNN \<times> 'a list) result" where
  "run_fullNN expf np_shape s =
     forE [0..<epoches s] (\<lambda>_ (s, losses).
       bindE (Forward expf s) (\<lambda>(zs, as, p).
       let s = s\<lparr>nn_z := zs, nn_a := as, nn_pred := p\<rparr> in
       bindE (Backward np_shape s) (\<lambda>th.
       bindE (update np_shape (s\<lparr>nn_theta := th\<rparr>)) (\<lambda>s.
       bindE (Calcost s) (\<lambda>c. Inr (s, losses @ [c])))))) (s, [])"

section \<open>Rectangular matrices\<close>

definition rect :: "nat \<Rightarrow> nat \<Rightarrow> 'a list list \<Rightarrow> bool" where
  "rect r c m \<longleftrightarrow> length m = r \<and> (\<forall>row\<in>set m. length row = c)"

definition tab :: "nat \<Rightarrow> nat \<Rightarrow> (nat \<Rightarrow> nat \<Rightarrow> 'a) \<Rightarrow> 'a list list" where
  "tab r c f = map (\<lambda>i. map (f i) [0..<c]) [0..<r]"

lemma rect_tab [simp]: "rect r c (tab r c f)"
  by (auto simp: rect_def tab_def)

lemma tab_nth [simp]: "i < r \<Longrightarrow> j < c \<Longrightarrow> tab r c f ! i ! j = f i j"
  by (simp add: tab_def)

lemma rect_length: "rect r c m \<Longrightarrow> length m = r"
  by (simp add: rect_def)

lemma rect_row: "rect r c m \<Longrightarrow> i < r \<Longrightarrow> length (m ! i) = c"
  by (auto simp: rect_def)

lemma rect_columns: "rect r c m \<Longrightarrow> 0 < r \<Longrightarrow> n_columns m = c"
  by (cases m) (auto simp: rect_def n_columns_def)

lemma rect_first: "rect r c m \<Longrightarrow> 0 < r \<Longrightarrow> \<exists>row. py_index m 0 = Inr row \<and> length row = c"
  using py_index_nat [of 0 m] by (auto simp: rect_def)

lemma cell_rect: "rect r c m \<Longrightarrow> i < r \<Longrightarrow> j < c \<Longrightarrow> cell m i j = Inr (m ! i ! j)"
  by (simp add: cell_def rect_length rect_row)

lemma tabulate_tab:
  assumes "\<And>i j. i < r \<Longrightarrow> j < c \<Longrightarrow> f i j = Inr (g i j)"
  shows "tabulate r c f = Inr (Mat (tab r c g))"
proof -
  have "mapE (\<lambda>i. mapE (f i) [0..<c]) [0..<r] = Inr (map (\<lambda>i. map (g i) [0..<c]) [0..<r])"
    using assms by (intro mapE_Inr) (auto intro: mapE_Inr)
  then show ?thesis by (simp add: tabulate_def tab_def)
qed

lemma MatTranpose_rect:
  assumes "np_shape m = (r, c)" and "rect r c m"
  shows "MatTranpose np_shape (Mat m) = Inr (Mat (tab c r (\<lambda>i j. m ! j ! i)))"
  using assms by (simp add: MatTranpose_def tabulate_tab cell_rect)

lemma MatMul_rect:
  assumes "rect r n m1" and "rect n c m2" and "0 < r" and "0 < n"
  shows "MatMul (Mat m1) (Mat m2) = Inr (Mat (tab r c (\<lambda>i j. \<Sum>k<n. m1 ! i ! k * m2 ! k ! j)))"
proof -
  obtain row1 row2 where rows: "py_index m1 0 = Inr row1" "length row1 = n" "py_index m2 0 = Inr row2" "length row2 = c"
    using rect_first [OF assms(1,3)] rect_first [OF assms(2,4)] by auto
  have "forE [0..<n] (\<lambda>k s. bindE (cell m1 i k) (\<lambda>x. bindE (cell m2 k j) (\<lambda>y. Inr (s + x * y)))) 0 =
      Inr (\<Sum>k<n. m1 ! i ! k * m2 ! k ! j)" if "i < r" "j < c" for i j
  proof -
    have "forE [0..<n] (\<lambda>k s. bindE (cell m1 i k) (\<lambda>x. bindE (cell m2 k j) (\<lambda>y. Inr (s + x * y)))) 0 =
        Inr (0 + (\<Sum>k<n. m1 ! i ! k * m2 ! k ! j))"
      using that cell_rect [OF assms(1)] cell_rect [OF assms(2)] by (intro forE_sum) simp
    then show ?thesis by simp
  qed
  then show ?thesis
    using rows rect_length [OF assms(1)] rect_length [OF assms(2)]
    by (simp add: MatMul_def tabulate_tab)
qed

lemma MatAddInt_rect:
  assumes "rect r c m" and "0 < r"
  shows "MatAddInt (Mat m) x = Inr (Mat (tab r c (\<lambda>i j. m ! i ! j + x)))"
  using assms by (simp add: MatAddInt_def tabulate_tab cell_rect rect_length rect_columns)

lemma MatMulInt_rect:
  assumes "rect r c m" and "0 < r"
  shows "MatMulInt (Mat m) x = Inr (Mat (tab r c (\<lambda>i j. m ! i ! j * x)))"
  using rect_first [OF assms] assms by (auto simp: MatMulInt_def tabulate_tab cell_rect rect_length)

lemma same_size_rect:
  assumes "rect r c m1" and "rect r c m2" and "0 < r"
  shows "same_size m1 m2 = Inr True"
  using rect_first [OF assms(1,3)] rect_first [OF assms(2,3)] rect_length [OF assms(1)] rect_length [OF assms(2)]
  by (auto simp: same_size_def)

lemma MatAdd_rect:
  assumes "rect r c m1" and "rect r c m2" and "0 < r"
  shows "MatAdd (Mat m1) (Mat m2) = Inr (Mat (tab r c (\<lambda>i j. m1 ! i ! j + m2 ! i ! j)))"
  using assms same_size_rect [OF assms]
  by (simp add: MatAdd_def tabulate_tab cell_rect [OF assms(1)] cell_rect [OF assms(2)] rect_length rect_columns)

lemma MatElementWise_rect:
  assumes "rect r c m1" and "rect r c m2" and "0 < r"
  shows "MatElementWise (Mat m1) (Mat m2) = Inr (Mat (tab r c (\<lambda>i j. m1 ! i ! j * m2 ! i ! j)))"
  using assms same_size_rect [OF assms]
  by (simp add: MatElementWise_def tabulate_tab cell_rect [OF assms(1)] cell_rect [OF assms(2)] rect_length rect_columns)

lemma MatSum_rect:
  assumes "rect r c m" and "0 < r"
  shows "MatSum (Mat m) = Inr (\<Sum>i<r. \<Sum>j<c. m ! i ! j)"
proof -
  have row: "forE [0..<c] (\<lambda>j s. bindE (cell m i j) (\<lambda>x. Inr (s + x))) s = Inr (s + (\<Sum>j<c. m ! i ! j))"
    if "i < r" for i s
    using that cell_rect [OF assms(1)] by (intro forE_sum) simp
  have "forE [0..<r] (\<lambda>i. forE [0..<c] (\<lambda>j s. bindE (cell m i j) (\<lambda>x. Inr (s + x)))) 0 =
      Inr (0 + (\<Sum>i<r. \<Sum>j<c. m ! i ! j))"
    by (rule forE_sum) (simp add: row)
  then show ?thesis using assms by (simp add: MatSum_def rect_length rect_columns)
qed

section \<open>Shapes\<close>

definition has_shape :: "nat \<Rightarrow> nat \<Rightarrow> 'a mat_value \<Rightarrow> bool" where
  "has_shape r c v \<longleftrightarrow> (\<exists>m. v = Mat m \<and> rect r c m)"

text \<open>What the code relies on of \<open>numpy\<close>: the shape of a rectangular matrix that has rows.\<close>

definition np_shape_ok :: "('a list list \<Rightarrow> nat \<times> nat) \<Rightarrow> bool" where
  "np_shape_ok np_shape \<longleftrightarrow> (\<forall>r c m. rect r c m \<longrightarrow> 0 < r \<longrightarrow> np_shape m = (r, c))"

named_theorems safe_intros

lemma has_shape_Mat [simp]: "has_shape r c (Mat m) = rect r c m"
  by (simp add: has_shape_def)

lemma safe_MatTranspose [safe_intros]:
  "np_shape_ok np_shape \<Longrightarrow> 0 < r \<Longrightarrow> has_shape r c v \<Longrightarrow> safe (has_shape c r) (MatTranpose np_shape v)"
  by (auto simp: has_shape_def np_shape_ok_def MatTranpose_rect)

lemma safe_MatMul [safe_intros]:
  "0 < r \<Longrightarrow> 0 < n \<Longrightarrow> has_shape r n v1 \<Longrightarrow> has_shape n c v2 \<Longrightarrow> safe (has_shape r c) (MatMul v1 v2)"
  by (auto simp: has_shape_def MatMul_rect)

lemma safe_MatAddInt [safe_intros]:
  "0 < r \<Longrightarrow> has_shape r c v \<Longrightarrow> safe (has_shape r c) (MatAddInt v x)"
  by (auto simp: has_shape_def MatAddInt_rect)

lemma safe_MatMulInt [safe_intros]:
  "0 < r \<Longrightarrow> has_shape r c v \<Longrightarrow> safe (has_shape r c) (MatMulInt v x)"
  by (auto simp: has_shape_def MatMulInt_rect)

lemma safe_MatAdd [safe_intros]:
  "0 < r \<Longrightarrow> has_shape r c v1 \<Longrightarrow> has_shape r c v2 \<Longrightarrow> safe (has_shape r c) (MatAdd v1 v2)"
  by (auto simp: has_shape_def MatAdd_rect)

lemma safe_MatElementWise [safe_intros]:
  "0 < r \<Longrightarrow> has_shape r c v1 \<Longrightarrow> has_shape r c v2 \<Longrightarrow> safe (has_shape r c) (MatElementWise v1 v2)"
  by (auto simp: has_shape_def MatElementWise_rect)

lemma safe_MatSum [safe_intros]: "0 < r \<Longrightarrow> has_shape r c v \<Longrightarrow> safe (\<lambda>_. True) (MatSum v)"
  by (auto simp: has_shape_def MatSum_rect)

lemma safe_index: "i < length xs \<Longrightarrow> P (xs ! i) \<Longrightarrow> safe P (py_index xs (int i))"
  by simp

lemma safe_index_neg: "k < length xs \<Longrightarrow> P (xs ! (length xs - Suc k)) \<Longrightarrow> safe P (py_index xs (- int k - 1))"
proof -
  assume k: "k < length xs" "P (xs ! (length xs - Suc k))"
  have "- int k - 1 = - int (Suc k)" by simp
  then show ?thesis using py_index_neg [of "Suc k" xs] k by (simp only:) simp
qed

text \<open>The network conforms to its layers, for inputs of \<open>R\<close> rows.\<close>

definition conforms :: "nat \<Rightarrow> nat list \<Rightarrow> 'a fullNN \<Rightarrow> bool" where
  "conforms R u s \<longleftrightarrow> layer_units s = u \<and> 2 \<le> length u \<and> 0 < R \<and> (\<forall>n\<in>set u. 0 < n) \<and>
     has_shape R (hd u) (input_data s) \<and> has_shape R (last u) (target s) \<and>
     length (nn_b s) = length u - 1 \<and> length (nn_w s) = length u - 1 \<and>
     (\<forall>i<length u - 1. has_shape (u ! i) (u ! (i + 1)) (nn_w s ! i))"

text \<open>What holds of the values of the layers: the matrix of layer \<open>i\<close> has a column for each unit.\<close>

definition layered :: "nat \<Rightarrow> nat list \<Rightarrow> 'a mat_value list \<Rightarrow> bool" where
  "layered R u vs \<longleftrightarrow> (\<forall>i<length vs. has_shape R (u ! (i + 1)) (vs ! i))"

lemma layered_snoc: "layered R u vs \<Longrightarrow> has_shape R (u ! (length vs + 1)) v \<Longrightarrow> layered R u (vs @ [v])"
  by (auto simp: layered_def nth_append less_Suc_eq)

lemma layered_from_end:
  assumes "layered R u vs" and "length vs = length u - 1" and "k < length vs"
  shows "safe (has_shape R (u ! (length u - 1 - k))) (py_index vs (- int k - 1))"
proof -
  have "length vs - Suc k + 1 = length u - 1 - k" using assms(2,3) by linarith
  moreover have "has_shape R (u ! (length vs - Suc k + 1)) (vs ! (length vs - Suc k))"
    using assms(1,3) unfolding layered_def by auto
  ultimately show ?thesis using assms(3) by (intro safe_index_neg) simp_all
qed

lemma conforms_pos: "conforms R u s \<Longrightarrow> i < length u \<Longrightarrow> 0 < u ! i"
  by (auto simp: conforms_def)

context exponential begin

lemma safe_actfun [safe_intros]:
  assumes "0 < r" and "has_shape r c v"
  shows "safe (has_shape r c) (actfun expf v)"
proof -
  from assms(2) obtain m where v: "v = Mat m" "rect r c m" by (auto simp: has_shape_def)
  have "safe (list_all2 (\<lambda>i row. length row = c) [0..<r]) (mapE (\<lambda>i. mapE (\<lambda>j. bindE (cell m i j) (transfer expf)) [0..<c]) [0..<r])"
  proof (rule safe_mapE)
    fix i assume "i \<in> set [0..<r]"
    then have "safe (list_all2 (\<lambda>j y. True) [0..<c]) (mapE (\<lambda>j. bindE (cell m i j) (transfer expf)) [0..<c])"
      using cell_rect [OF v(2)] by (intro safe_mapE) (auto intro: safe_mono [OF transfer_safe])
    then show "safe (\<lambda>row. length row = c) (mapE (\<lambda>j. bindE (cell m i j) (transfer expf)) [0..<c])"
      by (rule safe_mono) (auto dest: list_all2_lengthD)
  qed
  then have "safe (rect r c) (mapE (\<lambda>i. mapE (\<lambda>j. bindE (cell m i j) (transfer expf)) [0..<c]) [0..<r])"
    by (rule safe_mono) (auto simp: rect_def list_all2_conv_all_nth in_set_conv_nth)
  then show ?thesis
    using v assms(1) unfolding actfun_def tabulate_def
    by (simp add: rect_length rect_columns) (erule safe_bindE, simp)
qed

lemma forward_step_safe:
  assumes c: "conforms R u s" and i: "i < length u - 1" and inputs: "has_shape R (u ! i) inputs"
    and zs: "length zs = i" "layered R u zs" and as: "length as = i" "layered R u as"
  shows "safe (\<lambda>(zs', as'). length zs' = i + 1 \<and> layered R u zs' \<and> length as' = i + 1 \<and> layered R u as')
    (forward_step expf s i inputs (zs, as))"
proof -
  have pos: "0 < R" "0 < u ! i" using c i conforms_pos [OF c, of i] by (auto simp: conforms_def)
  have wi: "safe (has_shape (u ! i) (u ! (i + 1))) (py_index (nn_w s) (int i))"
    using c i by (intro safe_index) (auto simp: conforms_def)
  have bi: "safe (\<lambda>_. True) (py_index (nn_b s) (int i))"
    using c i by (intro safe_index) (auto simp: conforms_def)
  show ?thesis
    unfolding forward_step_def prod.case
    by (rule safe_bindE [OF wi], rule safe_bindE [OF safe_MatMul [OF pos inputs]], assumption,
        rule safe_bindE [OF bi], rule safe_bindE [OF safe_MatAddInt [OF pos(1)]], assumption,
        rule safe_bindE [OF safe_actfun [OF pos(1)]], assumption)
      (use zs as in \<open>auto intro: layered_snoc\<close>)
qed

lemma Forward_safe:
  assumes c: "conforms R u s"
  shows "safe (\<lambda>(zs, as, p). length zs = length u - 1 \<and> layered R u zs \<and> length as = length u - 1 \<and>
      layered R u as \<and> has_shape R (last u) p) (Forward expf s)"
proof -
  let ?P = "\<lambda>i (zs :: 'a mat_value list, as :: 'a mat_value list).
      length zs = i + 1 \<and> layered R u zs \<and> length as = i + 1 \<and> layered R u as"
  have "u \<noteq> []" using c by (auto simp: conforms_def)
  then have u: "2 \<le> length u" "layer_units s = u" "has_shape R (u ! 0) (input_data s)"
    using c hd_conv_nth [of u] by (auto simp: conforms_def)
  have start: "safe (?P 0) (forward_step expf s 0 (input_data s) ([], []))"
    using u by (intro safe_mono [OF forward_step_safe [OF c]]) (auto simp: layered_def)
  have step: "safe (?P (Suc i)) (case q of (zs, as) \<Rightarrow> bindE (py_index as (int i)) (\<lambda>ai. forward_step expf s (i + 1) ai (zs, as)))"
    if i: "i < length u - 2" and q: "?P i q" for i q
  proof -
    obtain zs as where qq: "q = (zs, as)" by fastforce
    with q have q: "length zs = i + 1" "layered R u zs" "length as = i + 1" "layered R u as" by auto
    have "safe (has_shape R (u ! (i + 1))) (py_index as (int i))"
      using q by (intro safe_index) (auto simp: layered_def)
    then show ?thesis
      unfolding qq prod.case
      by (rule safe_bindE) (rule safe_mono [OF forward_step_safe [OF c]], use i q u in auto)
  qed
  show ?thesis
    unfolding Forward_def u(2)
  proof (rule safe_bindE [OF start], rule safe_bindE)
    fix q assume "?P 0 q"
    then show "safe (?P (length u - 2)) (forE [0..<length u - 2] (\<lambda>i (zs, as).
        bindE (py_index as (int i)) (\<lambda>ai. forward_step expf s (i + 1) ai (zs, as))) q)"
      using step by (intro safe_forE_upt)
    fix r assume "?P (length u - 2) r"
    then obtain zs as where r: "r = (zs, as)" "length zs = length u - 1" "layered R u zs" "length as = length u - 1" "layered R u as"
      using u(1) by (cases r) auto
    then have "as \<noteq> []" using u(1) by auto
    have "has_shape R (u ! (length u - 1)) (as ! (length as - 1))"
      using r(4,5) u(1) unfolding layered_def by (metis One_nat_def Suc_1 Suc_diff_Suc Suc_eq_plus1 diff_less diff_zero lessI less_le_trans numeral_2_eq_2 zero_less_diff zero_less_one)
    then have "has_shape R (last u) (last as)"
      using \<open>as \<noteq> []\<close> u(1) by (metis last_conv_nth length_0_conv not_numeral_le_zero)
    then show "safe (\<lambda>(zs, as, p). length zs = length u - 1 \<and> layered R u zs \<and> length as = length u - 1 \<and>
        layered R u as \<and> has_shape R (last u) p)
      (case r of (zs, as) \<Rightarrow> bindE (py_index as (- 1)) (\<lambda>pred. Inr (zs, as, pred)))"
      using r \<open>as \<noteq> []\<close> by simp
  qed
qed

end

text \<open>The gradient of a layer before the factor that comes from the layer above.\<close>

lemma derivative_safe:
  assumes "0 < R" and "has_shape R c v"
  shows "safe (has_shape R c) (bindE (MatMulInt v (- 1)) (\<lambda>nz. MatAddInt nz 1))"
  by (rule safe_bindE [OF safe_MatMulInt [OF assms]]) (rule safe_MatAddInt [OF assms(1)])

lemma Backward_safe:
  assumes c: "conforms R u s" and np: "np_shape_ok np_shape"
    and zs: "length (nn_z s) = length u - 1" "layered R u (nn_z s)" and p: "has_shape R (last u) (nn_pred s)"
  shows "safe (\<lambda>th. length th = length u - 1 \<and> layered R u th) (Backward np_shape s)"
proof -
  let ?k = "length u - 1"
  have u: "2 \<le> length u" "layer_units s = u" "0 < R" "has_shape R (last u) (target s)"
    "length (nn_w s) = ?k" "\<And>i. i < ?k \<Longrightarrow> has_shape (u ! i) (u ! (i + 1)) (nn_w s ! i)"
    using c by (auto simp: conforms_def)
  have lastu: "last u = u ! ?k" using u(1) by (metis last_conv_nth length_0_conv not_numeral_le_zero)
  \<comment> \<open>The matrices of deltas so far, from the last layer down.\<close>
  let ?P = "\<lambda>i th. length th = i + 1 \<and> (\<forall>j<length th. has_shape R (u ! (?k - j)) (th ! j))"
  have zl: "safe (has_shape R (last u)) (py_index (nn_z s) (- 1))"
    using layered_from_end [OF zs(2,1), of 0] zs(1) u(1) by (simp add: lastu)
  have step: "safe (?P (Suc i)) (bindE (py_index th (- 1)) (\<lambda>last_theta.
       bindE (py_index (nn_w s) (- int i - 1)) (\<lambda>wi. bindE (MatTranpose np_shape wi) (\<lambda>wt.
       bindE (MatMul last_theta wt) (\<lambda>temp.
       bindE (py_index (nn_z s) (- int i - 2)) (\<lambda>zi.
       bindE (MatMulInt zi (- 1)) (\<lambda>nz. bindE (MatAddInt nz 1) (\<lambda>d. bindE (MatElementWise d zi) (\<lambda>sigmoid_d.
       bindE (MatElementWise temp sigmoid_d) (\<lambda>this_theta. Inr (th @ [this_theta])))))))))))"
    if i: "i < length u - 2" and th: "?P i th" for i th
  proof -
    have "th \<noteq> []" using th by auto
    then have "has_shape R (u ! (?k - i)) (last th)" using th by (simp add: last_conv_nth)
    then have last_th: "safe (has_shape R (u ! (?k - i))) (py_index th (- 1))" using \<open>th \<noteq> []\<close> by simp
    have pos: "0 < u ! (?k - i)" "0 < u ! (?k - 1 - i)"
      using i conforms_pos [OF c] by auto
    have wi: "safe (has_shape (u ! (?k - 1 - i)) (u ! (?k - i))) (py_index (nn_w s) (- int i - 1))"
    proof -
      have "?k - 1 - i + 1 = ?k - i" using i by linarith
      then show ?thesis using u(5) u(6) [of "?k - 1 - i"] i by (intro safe_index_neg) auto
    qed
    have zi: "safe (has_shape R (u ! (?k - 1 - i))) (py_index (nn_z s) (- int i - 2))"
      using layered_from_end [OF zs(2,1), of "i + 1"] zs(1) i by (simp add: algebra_simps)
    show ?thesis
      by (rule safe_bindE [OF last_th], rule safe_bindE [OF wi], rule safe_bindE [OF safe_MatTranspose [OF np pos(2)]], assumption,
          rule safe_bindE [OF safe_MatMul [OF u(3) pos(1)]], assumption, assumption, rule safe_bindE [OF zi],
          rule safe_bindE [OF safe_MatMulInt [OF u(3)]], assumption, rule safe_bindE [OF safe_MatAddInt [OF u(3)]], assumption,
          rule safe_bindE [OF safe_MatElementWise [OF u(3)]], assumption, assumption,
          rule safe_bindE [OF safe_MatElementWise [OF u(3)]], assumption, assumption)
        (use th i in \<open>auto simp: nth_append less_Suc_eq Suc_diff_Suc\<close>)
  qed
  have rev: "length (rev th) = ?k \<and> layered R u (rev th)" if "?P (length u - 2) th" for th
  proof -
    have len: "length th = ?k" using that u(1) by linarith
    have "has_shape R (u ! (i + 1)) (rev th ! i)" if i: "i < length (rev th)" for i
    proof -
      have "?k - (?k - Suc i) = i + 1" using i len by simp
      then show ?thesis using i len \<open>?P (length u - 2) th\<close> by (auto simp: rev_nth dest: spec [of _ "?k - Suc i"])
    qed
    then show ?thesis using len by (simp add: layered_def)
  qed
  show ?thesis
    unfolding Backward_def u(2)
    by (rule safe_bindE [OF safe_MatMulInt [OF u(3,4)]], rule safe_bindE [OF safe_MatAdd [OF u(3) p]], assumption,
        rule safe_bindE [OF zl], rule safe_bindE [OF safe_MatElementWise [OF u(3)]], assumption, assumption,
        rule safe_bindE [OF safe_MatMulInt [OF u(3)]], assumption, rule safe_bindE [OF safe_MatAddInt [OF u(3)]], assumption,
        rule safe_bindE [OF safe_MatElementWise [OF u(3)]], assumption, assumption,
        rule safe_bindE [OF safe_forE_upt [where P = ?P, OF step]], assumption, assumption)
      (use rev lastu u(1) in auto)
qed

text \<open>One step of the update keeps the network conforming, and does not look beyond it.\<close>

definition trained :: "nat \<Rightarrow> nat list \<Rightarrow> 'a fullNN \<Rightarrow> bool" where
  "trained R u s \<longleftrightarrow> conforms R u s \<and> length (nn_z s) = length u - 1 \<and> layered R u (nn_z s) \<and>
     length (nn_a s) = length u - 1 \<and> layered R u (nn_a s) \<and> has_shape R (last u) (nn_pred s) \<and>
     length (nn_theta s) = length u - 1 \<and> layered R u (nn_theta s)"

lemma update_safe:
  assumes t: "trained R u s" and np: "np_shape_ok np_shape"
  shows "safe (trained R u) (update np_shape s)"
proof -
  have u: "layer_units s = u" "2 \<le> length u" using t by (auto simp: trained_def conforms_def)
  have step: "safe (trained R u) (bindE (py_index (nn_b s) (int i)) (\<lambda>bi. bindE (py_index (nn_theta s) (int i)) (\<lambda>th.
       bindE (MatMulInt th (learn_rate s)) (\<lambda>scaled. bindE (MatSum scaled) (\<lambda>total.
       bindE (if i = 0 then Inr (input_data s) else py_index (nn_a s) (int i - 1)) (\<lambda>inputs.
       bindE (MatTranpose np_shape inputs) (\<lambda>it. bindE (MatMul it th) (\<lambda>g.
       bindE (MatMulInt g (learn_rate s)) (\<lambda>step. bindE (MatMulInt step (- 1)) (\<lambda>down.
       bindE (py_index (nn_w s) (int i)) (\<lambda>wi. bindE (MatAdd down wi) (\<lambda>wi'.
         Inr (s\<lparr>nn_b := (nn_b s)[i := bi - total], nn_w := (nn_w s)[i := wi']\<rparr>)))))))))))))"
    if i: "i < length u - 1" and t: "trained R u s" for i and s :: "'a fullNN"
  proof -
    have c: "conforms R u s" and R: "0 < R" using t by (auto simp: trained_def conforms_def)
    have pos: "0 < u ! i" using i conforms_pos [OF c, of i] by auto
    have bi: "safe (\<lambda>_. True) (py_index (nn_b s) (int i))"
      using c i by (intro safe_index) (auto simp: conforms_def)
    have th: "safe (has_shape R (u ! (i + 1))) (py_index (nn_theta s) (int i))"
      using t i by (intro safe_index) (auto simp: trained_def layered_def)
    have wi: "safe (has_shape (u ! i) (u ! (i + 1))) (py_index (nn_w s) (int i))"
      using c i by (intro safe_index) (auto simp: conforms_def)
    have inputs: "safe (has_shape R (u ! i)) (if i = 0 then Inr (input_data s) else py_index (nn_a s) (int i - 1))"
    proof (cases i)
      case 0
      then show ?thesis using c u(2) by (cases u) (auto simp: conforms_def)
    next
      case (Suc k)
      then show ?thesis using t i safe_index [of k "nn_a s" "has_shape R (u ! i)"] by (auto simp: trained_def layered_def)
    qed
    show ?thesis
      by (rule safe_bindE [OF bi], rule safe_bindE [OF th], rule safe_bindE [OF safe_MatMulInt [OF R]], assumption,
          rule safe_bindE [OF safe_MatSum [OF R]], assumption, rule safe_bindE [OF inputs],
          rule safe_bindE [OF safe_MatTranspose [OF np R]], assumption,
          rule safe_bindE [OF safe_MatMul [OF pos R]], assumption, assumption,
          rule safe_bindE [OF safe_MatMulInt [OF pos]], assumption, rule safe_bindE [OF safe_MatMulInt [OF pos]], assumption,
          rule safe_bindE [OF wi], rule safe_bindE [OF safe_MatAdd [OF pos]], assumption, assumption)
        (use t i in \<open>auto simp: trained_def conforms_def nth_list_update\<close>)
  qed
  show ?thesis
    unfolding update_def u(1) by (rule safe_forE_upt [where P = "\<lambda>_. trained R u", OF step t])
qed

text \<open>A forward and a backward pass, and the update, from a network that conforms.\<close>

context exponential begin

lemma forward_backward_safe:
  assumes c: "conforms R u s" and np: "np_shape_ok np_shape"
    and cont: "\<And>s'. trained R u s' \<Longrightarrow> epoches s' = epoches s \<Longrightarrow> safe P (k s')"
  shows "safe P (bindE (Forward expf s) (\<lambda>(zs, as, p).
       let s = s\<lparr>nn_z := zs, nn_a := as, nn_pred := p\<rparr> in
       bindE (Backward np_shape s) (\<lambda>th. k (s\<lparr>nn_theta := th\<rparr>))))"
proof (rule safe_bindE [OF Forward_safe [OF c]])
  fix q :: "'a mat_value list \<times> 'a mat_value list \<times> 'a mat_value"
  obtain zs as p where q: "q = (zs, as, p)" by (cases q)
  assume "case q of (zs, as, p) \<Rightarrow> length zs = length u - 1 \<and> layered R u zs \<and> length as = length u - 1 \<and>
      layered R u as \<and> has_shape R (last u) p"
  then have v: "length zs = length u - 1" "layered R u zs" "length as = length u - 1" "layered R u as" "has_shape R (last u) p"
    by (auto simp: q)
  let ?s = "s\<lparr>nn_z := zs, nn_a := as, nn_pred := p\<rparr>"
  have "conforms R u ?s" using c by (simp add: conforms_def)
  then have "safe P (bindE (Backward np_shape ?s) (\<lambda>th. k (?s\<lparr>nn_theta := th\<rparr>)))"
    using v cont c by (intro safe_bindE [OF Backward_safe [OF _ np]]) (auto simp: trained_def conforms_def)
  then show "safe P (case q of (zs, as, p) \<Rightarrow>
      let s = s\<lparr>nn_z := zs, nn_a := as, nn_pred := p\<rparr> in
      bindE (Backward np_shape s) (\<lambda>th. k (s\<lparr>nn_theta := th\<rparr>)))"
    by (simp add: q Let_def)
qed


lemma Calcost_safe: "trained R u s \<Longrightarrow> safe (\<lambda>_. True) (Calcost s)"
proof -
  assume t: "trained R u s"
  have R: "0 < R" and o: "has_shape R (last u) (target s)" "has_shape R (last u) (nn_pred s)"
    using t by (auto simp: trained_def conforms_def)
  show ?thesis
    unfolding Calcost_def
    by (rule safe_bindE [OF safe_MatAddInt [OF R o(2)]], rule safe_bindE [OF safe_MatAdd [OF R o(1)]], assumption,
        rule safe_bindE [OF safe_MatElementWise [OF R]], assumption, assumption, rule safe_MatSum [OF R])
qed

lemma run_safe:
  assumes t: "trained R u s" and np: "np_shape_ok np_shape"
  shows "safe (\<lambda>(s', losses). trained R u s' \<and> length losses = epoches s) (run_fullNN expf np_shape s)"
proof -
  let ?P = "\<lambda>i (s', losses). trained R u s' \<and> length losses = i"
  have step: "safe (?P (Suc i)) ((\<lambda>(s, losses).
       bindE (Forward expf s) (\<lambda>(zs, as, p).
       let s = s\<lparr>nn_z := zs, nn_a := as, nn_pred := p\<rparr> in
       bindE (Backward np_shape s) (\<lambda>th.
       bindE (update np_shape (s\<lparr>nn_theta := th\<rparr>)) (\<lambda>s.
       bindE (Calcost s) (\<lambda>c. Inr (s, losses @ [c])))))) q)" if q: "?P i q" for i q
  proof -
    obtain s losses where qq: "q = (s, losses)" by (cases q)
    have t: "trained R u s" "length losses = i" using q qq by auto
    then have c: "conforms R u s" by (simp add: trained_def)
    have "safe (?P (Suc i)) (bindE (update np_shape s') (\<lambda>s. bindE (Calcost s) (\<lambda>c. Inr (s, losses @ [c]))))"
      if "trained R u s'" for s'
      using t(2) by (intro safe_bindE [OF update_safe [OF that np]]) (rule safe_bindE [OF Calcost_safe], assumption, simp)
    then show ?thesis unfolding qq prod.case by (rule forward_backward_safe [OF c np])
  qed
  show ?thesis
    unfolding run_fullNN_def by (rule safe_forE_upt [where P = ?P, OF step]) (use t in auto)
qed

end

lemma InitW_conforms:
  "length (InitW rnd start u) = length u - 1 \<and>
   (\<forall>i<length u - 1. has_shape (u ! i) (u ! (i + 1)) (InitW rnd start u ! i))"
proof (induction rnd start u rule: InitW.induct)
  case (1 rnd start m n units)
  have "rect m n (map (\<lambda>i. map (\<lambda>j. rnd (start + i * n + j)) [0..<n]) [0..<m])" by (auto simp: rect_def)
  with 1 show ?case by (auto simp: nth_Cons split: nat.split)
qed auto

definition list_shape :: "'a list list \<Rightarrow> nat \<times> nat" where
  "list_shape m = (length m, n_columns m)"

lemma list_shape_ok: "np_shape_ok list_shape"
  by (auto simp: np_shape_ok_def list_shape_def rect_length rect_columns)

lemma fullNN_safe:
  assumes "np_shape_ok np_shape" and "2 \<le> length u" and "\<forall>n\<in>set u. 0 < n" and "0 < R"
    and "rect R (hd u) input_rows" and "rect R (last u) output_rows"
  shows "safe (\<lambda>(s, losses). trained R u s \<and> length losses = n)
    (bindE (init_fullNN math_exp np_shape rnd u input_rows output_rows rate n) (run_fullNN math_exp np_shape))"
proof -
  let ?s = "\<lparr> layer_units = u, learn_rate = rate, input_data = Mat input_rows,
      nn_w = InitW rnd 0 u, nn_b = InitB rnd (n_weights u) u, target = Mat output_rows,
      nn_z = [], nn_a = [], nn_pred = Minus_One, nn_theta = [], epoches = n \<rparr>"
  have c: "conforms R u ?s"
    using assms InitW_conforms [of rnd 0 u] by (simp add: conforms_def InitB_def)
  obtain row where "py_index input_rows 0 = Inr row" using rect_first [OF assms(5,4)] by blast
  then have init: "init_fullNN math_exp np_shape rnd u input_rows output_rows rate n =
      bindE (Forward math_exp ?s) (\<lambda>(zs, as, p). let s = ?s\<lparr>nn_z := zs, nn_a := as, nn_pred := p\<rparr> in
        bindE (Backward np_shape s) (\<lambda>th. Inr (s\<lparr>nn_theta := th\<rparr>)))"
    by (simp add: init_fullNN_def)
  have "safe (\<lambda>s. trained R u s \<and> epoches s = n) (init_fullNN math_exp np_shape rnd u input_rows output_rows rate n)"
    unfolding init by (rule py_exp.forward_backward_safe [OF c assms(1)]) simp
  then show ?thesis
    by (rule safe_bindE) (use py_exp.run_safe [OF _ assms(1)] in fastforce)
qed

text \<open>
  C24: a network whose inputs and outputs have the rows and columns its layers ask for is built and
  trained with every matrix of the size its layer gives it: no size is found wrong, no index out of
  range, the only exception is the overflow of \<open>math.exp\<close>, and a loss is printed for every epoch.
\<close>

theorem fullNN_is_typed:
  assumes "np_shape_ok np_shape" and "2 \<le> length u" and "\<forall>n\<in>set u. 0 < n" and "0 < R"
    and "rect R (hd u) input_rows" and "rect R (last u) output_rows"
  shows "case bindE (init_fullNN math_exp np_shape rnd u input_rows output_rows rate n) (run_fullNN math_exp np_shape) of
      Inl e \<Rightarrow> e = OverflowError
    | Inr (s, losses) \<Rightarrow> trained R u s \<and> length losses = n"
  using fullNN_safe [OF assms] by (simp add: safe_def split: sum.splits)

theorem fullNN_is_typed_witness:
  "case bindE (init_fullNN math_exp list_shape (\<lambda>i. 1 / of_nat (i + 1)) [2, 2, 1]
       [[2.78, 2.55], [7.62, 2.75]] [[0], [1]] (1/100) 10) (run_fullNN math_exp list_shape) of
      Inl e \<Rightarrow> e = OverflowError
    | Inr (s, losses) \<Rightarrow> trained 2 [2, 2, 1] s \<and> length losses = 10"
  using fullNN_is_typed [OF list_shape_ok, of "[2, 2, 1]" 2 "[[2.78, 2.55], [7.62, 2.75]]" "[[0], [1]]"]
  by (simp add: rect_def)

text \<open>
  C40: the loss that is printed is not the squared error: what is added to the target is the
  prediction less one, where the prediction is meant to be subtracted, so that the loss is zero
  exactly when every prediction is one minus its target.
\<close>

theorem Calcost_value:
  assumes "trained R u s" and "target s = Mat t" and "nn_pred s = Mat p"
  shows "Calcost s = Inr (\<Sum>i<R. \<Sum>j<last u. (t ! i ! j + p ! i ! j - 1)\<^sup>2) \<and>
    (Calcost s = Inr 0 \<longleftrightarrow> (\<forall>i<R. \<forall>j<last u. p ! i ! j = 1 - t ! i ! j))"
proof -
  have R: "0 < R" and m: "rect R (last u) t" "rect R (last u) p"
    using assms by (auto simp: trained_def conforms_def)
  have cost: "Calcost s = Inr (\<Sum>i<R. \<Sum>j<last u. (t ! i ! j + p ! i ! j - 1)\<^sup>2)"
    using assms(2,3) R m
    by (simp add: Calcost_def MatAddInt_rect MatAdd_rect MatElementWise_rect [OF rect_tab rect_tab]
        MatSum_rect [OF rect_tab] power2_eq_square add_diff_eq)
  have "(\<Sum>i<R. \<Sum>j<last u. (t ! i ! j + p ! i ! j - 1)\<^sup>2) = 0 \<longleftrightarrow> (\<forall>i<R. \<forall>j<last u. (t ! i ! j + p ! i ! j - 1)\<^sup>2 = 0)"
    by (simp add: sum_nonneg_eq_0_iff sum_nonneg Ball_def)
  also have "\<dots> \<longleftrightarrow> (\<forall>i<R. \<forall>j<last u. p ! i ! j = 1 - t ! i ! j)" by (auto simp: algebra_simps)
  finally show ?thesis using cost by simp
qed

theorem Calcost_value_witness:
  "Calcost \<lparr> layer_units = [1, 1], learn_rate = 1 :: rat, input_data = Mat [[1]], nn_w = [Mat [[1]]], nn_b = [1],
     target = Mat [[1]], nn_z = [Mat [[1]]], nn_a = [Mat [[1]]], nn_pred = Mat [[1]], nn_theta = [Mat [[1]]], epoches = 1 \<rparr>
   = Inr 1"
  using Calcost_value [where R = 1 and u = "[1, 1]" and t = "[[1 :: rat]]" and p = "[[1]]" and s =
    "\<lparr> layer_units = [1, 1], learn_rate = 1, input_data = Mat [[1]], nn_w = [Mat [[1]]], nn_b = [1],
     target = Mat [[1]], nn_z = [Mat [[1]]], nn_a = [Mat [[1]]], nn_pred = Mat [[1]], nn_theta = [Mat [[1]]], epoches = 1 \<rparr>"]
  by (simp add: trained_def conforms_def layered_def rect_def)

text \<open>
  The product and the transpose are those of algebra: the transpose of a product is the product
  of the transposes, the other way round, and transposing twice gives the matrix back.
\<close>

theorem transpose_product:
  assumes "np_shape_ok np_shape" and "rect r n a" and "rect n c b" and "0 < r" and "0 < n" and "0 < c"
  shows "bindE (MatMul (Mat a) (Mat b)) (MatTranpose np_shape) =
      bindE (MatTranpose np_shape (Mat b)) (\<lambda>b'. bindE (MatTranpose np_shape (Mat a)) (MatMul b'))
    \<and> bindE (MatTranpose np_shape (Mat a)) (MatTranpose np_shape) = Inr (Mat a)"
proof -
  have shapes: "np_shape m = (r, c)" if "rect r c m" "0 < r" for m r c
    using assms(1) that by (simp add: np_shape_ok_def)
  have product: "MatMul (Mat a) (Mat b) = Inr (Mat (tab r c (\<lambda>i j. \<Sum>k<n. a ! i ! k * b ! k ! j)))"
    by (rule MatMul_rect [OF assms(2-5)])
  have ta: "MatTranpose np_shape (Mat a) = Inr (Mat (tab n r (\<lambda>i j. a ! j ! i)))"
    and tb: "MatTranpose np_shape (Mat b) = Inr (Mat (tab c n (\<lambda>i j. b ! j ! i)))"
    using MatTranpose_rect [where np_shape = np_shape and m = a, OF shapes [OF assms(2,4)] assms(2)]
      MatTranpose_rect [where np_shape = np_shape and m = b, OF shapes [OF assms(3,5)] assms(3)] by simp_all
  have "MatTranpose np_shape (Mat (tab r c f)) = Inr (Mat (tab c r (\<lambda>i j. f j i)))" if "0 < r" for r c and f :: "nat \<Rightarrow> nat \<Rightarrow> 'a"
    using MatTranpose_rect [where np_shape = np_shape and m = "tab r c f", OF shapes [OF rect_tab that] rect_tab] by (simp add: tab_def)
  then have tt: "MatTranpose np_shape (Mat (tab r c (\<lambda>i j. \<Sum>k<n. a ! i ! k * b ! k ! j))) =
        Inr (Mat (tab c r (\<lambda>i j. \<Sum>k<n. a ! j ! k * b ! k ! i)))"
    "MatTranpose np_shape (Mat (tab n r (\<lambda>i j. a ! j ! i))) = Inr (Mat (tab r n (\<lambda>i j. a ! i ! j)))"
    using assms(4,5) by simp_all
  have "MatMul (Mat (tab c n (\<lambda>i j. b ! j ! i))) (Mat (tab n r (\<lambda>i j. a ! j ! i))) =
      Inr (Mat (tab c r (\<lambda>i j. \<Sum>k<n. a ! j ! k * b ! k ! i)))"
    using MatMul_rect [where ?m1.0 = "tab c n (\<lambda>i j. b ! j ! i)" and ?m2.0 = "tab n r (\<lambda>i j. a ! j ! i)",
      OF rect_tab rect_tab assms(6,5)]
    by (simp add: tab_def mult.commute)
  moreover have "tab r n (\<lambda>i j. a ! i ! j) = a"
    using assms(2) by (auto intro!: nth_equalityI simp: tab_def rect_length rect_row)
  ultimately show ?thesis by (simp add: product ta tb tt)
qed

theorem transpose_product_witness:
  "bindE (MatMul (Mat [[1, 2 :: rat]]) (Mat [[3], [4]])) (MatTranpose list_shape) =
      bindE (MatTranpose list_shape (Mat [[3], [4]])) (\<lambda>b'. bindE (MatTranpose list_shape (Mat [[1, 2]])) (MatMul b'))
    \<and> bindE (MatTranpose list_shape (Mat [[1, 2]])) (MatTranpose list_shape) = Inr (Mat [[1, 2 :: rat]])"
  by (rule transpose_product [OF list_shape_ok, of 1 2 _ 1]) (simp_all add: rect_def)

text \<open>
  The gradient at the last layer is built from \<open>z\<close>, the sums, where the derivative of the sigmoid is
  that of the outputs: beyond zero and one the step goes the wrong way.
\<close>

lemma tab_cong: "(\<And>i j. i < r \<Longrightarrow> j < c \<Longrightarrow> f i j = g i j) \<Longrightarrow> tab r c f = tab r c g"
  by (simp add: tab_def)

lemma forE_keeps_first:
  assumes "forE is (\<lambda>i th. bindE (f i th) (\<lambda>x. Inr (th @ [x]))) (x0 # th) = Inr th'"
  shows "\<exists>more. th' = x0 # more"
  using assms by (induction "is" arbitrary: th) (auto simp: bindE_eq_Inr)

lemma Backward_last_delta:
  assumes b: "Backward np_shape s = Inr th" and R: "0 < R"
    and m: "target s = Mat t" "nn_pred s = Mat p" "nn_z s \<noteq> []" "last (nn_z s) = Mat z"
    and shapes: "rect R c t" "rect R c p" "rect R c z"
  shows "last th = Mat (tab R c (\<lambda>i j. (p ! i ! j - t ! i ! j) * z ! i ! j * (1 - z ! i ! j)))"
proof -
  let ?first = "Mat (tab R c (\<lambda>i j. (p ! i ! j - t ! i ! j) * z ! i ! j * (1 - z ! i ! j)))"
  let ?f = "\<lambda>i th. bindE (py_index th (- 1)) (\<lambda>last_theta.
       bindE (py_index (nn_w s) (- int i - 1)) (\<lambda>wi. bindE (MatTranpose np_shape wi) (\<lambda>wt.
       bindE (MatMul last_theta wt) (\<lambda>temp.
       bindE (py_index (nn_z s) (- int i - 2)) (\<lambda>zi.
       bindE (MatMulInt zi (- 1)) (\<lambda>nz. bindE (MatAddInt nz 1) (\<lambda>d. bindE (MatElementWise d zi) (\<lambda>sigmoid_d.
       MatElementWise temp sigmoid_d))))))))"
  have neg: "tab R c (\<lambda>i j. p ! i ! j + tab R c (\<lambda>i j. t ! i ! j * - 1) ! i ! j) = tab R c (\<lambda>i j. p ! i ! j - t ! i ! j)"
    by (simp add: tab_def)
  have front: "bindE (MatMulInt (target s) (- 1)) (\<lambda>neg. bindE (MatAdd (nn_pred s) neg) (\<lambda>gap.
     bindE (py_index (nn_z s) (- 1)) (\<lambda>zl. bindE (MatElementWise gap zl) (\<lambda>t.
     bindE (MatMulInt zl (- 1)) (\<lambda>nz. bindE (MatAddInt nz 1) (\<lambda>d. bindE (MatElementWise t d) k)))))) = k ?first" for k
    using m shapes R
    by (simp add: MatMulInt_rect MatAdd_rect [OF shapes(2) rect_tab] neg MatElementWise_rect [OF rect_tab shapes(3)]
        MatAddInt_rect [OF rect_tab] MatElementWise_rect [OF rect_tab rect_tab])
      (rule arg_cong [where f = "\<lambda>m. k (Mat m)"], rule tab_cong, simp)
  have "bindE (forE [0..<length (layer_units s) - 2] (\<lambda>i th. bindE (?f i th) (\<lambda>x. Inr (th @ [x]))) [?first]) (\<lambda>th. Inr (rev th)) = Inr th"
    using b unfolding Backward_def front by (simp only: bindE_assoc)
  then obtain th' where "forE [0..<length (layer_units s) - 2] (\<lambda>i th. bindE (?f i th) (\<lambda>x. Inr (th @ [x]))) [?first] = Inr th'"
    "th = rev th'" by (auto simp: bindE_eq_Inr)
  with forE_keeps_first [OF this(1)] show ?thesis by auto
qed

end
