(* ===== verification/Adaboost.thy ===== *)
theory Adaboost
  imports Complex_Main Matrix_Net
begin

text \<open>
  The boosting of decision stumps of \<open>python/adaboost/2.py\<close>: the search for the best stump, the
  rounds of training, and the judging of a row by the weighted vote. Numbers are real numbers; the
  logarithm of a number that is not positive and a division by zero, for which \<open>numpy\<close> makes
  numbers that are not finite, are \<open>None\<close>. Division is that of Python 3, as the shares of the
  weights need it. A matrix is the list of its rows, a column of numbers a list.
\<close>

section \<open>The best stump\<close>

text \<open>\<open>'>'\<close> and \<open>'<'\<close>.\<close>

datatype mode = Above | Below

definition stump_pred :: "mode \<Rightarrow> real \<Rightarrow> real \<Rightarrow> real" where
  "stump_pred m this_v x = (case m of
     Above \<Rightarrow> if x > this_v then 1 else - 1
   | Below \<Rightarrow> if x < this_v then 1 else - 1)"

record best =
  best_err_rate :: real
  best_mode :: mode
  best_value :: real
  best_i :: int
  best_pred :: "real list"

definition err_mat :: "real list \<Rightarrow> real list \<Rightarrow> bool list" where
  "err_mat pred label_mat = map2 (\<lambda>p y. p * y < 0) pred label_mat"

text \<open>\<open>(err_mat.T*weight)[0,0]\<close>\<close>

definition weighted_error :: "real list \<Rightarrow> real list \<Rightarrow> real list \<Rightarrow> real" where
  "weighted_error pred label_mat weight =
     sum_list (map2 (\<lambda>b w. if b then w else 0) (err_mat pred label_mat) weight)"

text \<open>What the three loops go through, in their order.\<close>

definition trials :: "nat \<Rightarrow> nat \<Rightarrow> (nat \<times> nat \<times> mode) list" where
  "trials n_col n_step = [(i, j, m). i \<leftarrow> [0..<n_col], j \<leftarrow> [0..<n_step], m \<leftarrow> [Above, Below]]"

definition trial_pred :: "real list list \<Rightarrow> real \<Rightarrow> nat \<times> nat \<times> mode \<Rightarrow> real list" where
  "trial_pred data_mat step_gap = (\<lambda>(i, j, m).
     map (\<lambda>row. stump_pred m (of_nat (j + 1) * step_gap) (row ! i)) data_mat)"

definition try_stump ::
  "real list list \<Rightarrow> real list \<Rightarrow> real list \<Rightarrow> real \<Rightarrow> nat \<times> nat \<times> mode \<Rightarrow> best \<Rightarrow> best" where
  "try_stump data_mat label_mat weight step_gap = (\<lambda>(i, j, m) b.
     let pred = trial_pred data_mat step_gap (i, j, m);
         err = weighted_error pred label_mat weight
     in if err < best_err_rate b
        then \<lparr> best_err_rate = err, best_mode = m, best_value = of_nat (j + 1) * step_gap, best_i = int i, best_pred = pred \<rparr>
        else b)"

definition Generateclassifier ::
  "real list list \<Rightarrow> real list \<Rightarrow> real list \<Rightarrow> real \<Rightarrow> nat \<Rightarrow> best" where
  "Generateclassifier data_mat label_mat weight step_gap n_step =
     fold (try_stump data_mat label_mat weight step_gap) (trials (n_columns data_mat) n_step)
       \<lparr> best_err_rate = 11 / 10, best_mode = Above, best_value = - 1, best_i = - 1,
         best_pred = replicate (length data_mat) 1 \<rparr>"

section \<open>Training\<close>

text \<open>A member of the committee: its column, its mode, its threshold and its say.\<close>

type_synonym member = "int \<times> mode \<times> real \<times> real"

record booster =
  last_pred :: "real list"
  weight :: "real list"
  classifier :: "member list"

definition np_log :: "real \<Rightarrow> real option" where
  "np_log x = (if 0 < x then Some (ln x) else None)"

definition normalised :: "real list \<Rightarrow> real list option" where
  "normalised ws = (if sum_list ws = 0 then None else Some (map (\<lambda>w. w / sum_list ws) ws))"

text \<open>\<open>err_mat.mean()\<close>\<close>

definition err_share :: "real list \<Rightarrow> real list \<Rightarrow> real" where
  "err_share pred label_mat = of_nat (length (filter id (err_mat pred label_mat))) / of_nat (length pred)"

definition train_round :: "real list list \<Rightarrow> real list \<Rightarrow> booster \<Rightarrow> booster option" where
  "train_round train_data train_label s =
     (let b = Generateclassifier train_data train_label (weight s) (1 / 10) 100
      in case np_log ((1 - best_err_rate b) / max (best_err_rate b) (1 / 1000)) of
           None \<Rightarrow> None
         | Some l \<Rightarrow>
             (let alpha = 1 / 2 * l;
                  votes = map2 (\<lambda>v p. v + alpha * p) (last_pred s) (best_pred b);
                  exon = map2 (\<lambda>y p. exp (- alpha * (y * p))) train_label (best_pred b)
              in case normalised (map2 (*) (weight s) exon) of
                   None \<Rightarrow> None
                 | Some ws \<Rightarrow> Some \<lparr> last_pred = votes, weight = ws,
                     classifier = classifier s @ [(best_i b, best_mode b, best_value b, alpha)] \<rparr>))"

fun train_rounds :: "nat \<Rightarrow> real list list \<Rightarrow> real list \<Rightarrow> booster \<Rightarrow> booster option" where
  "train_rounds 0 train_data train_label s = Some s"
| "train_rounds (Suc n) train_data train_label s =
     (case train_round train_data train_label s of
        None \<Rightarrow> None
      | Some s' \<Rightarrow>
          if err_share (last_pred s') train_label < 1 / 10000 then Some s'
          else train_rounds n train_data train_label s')"

definition untrained :: "nat \<Rightarrow> booster" where
  "untrained n_row = \<lparr> last_pred = replicate n_row 0, weight = replicate n_row (1 / of_nat n_row), classifier = [] \<rparr>"

definition num_iter :: nat where
  "num_iter = 10"

definition train :: "real list list \<Rightarrow> real list \<Rightarrow> booster option" where
  "train train_data train_label = train_rounds num_iter train_data train_label (untrained (length train_data))"

text \<open>\<open>label[label != 1] = -1\<close>\<close>

definition two_classes :: "int list \<Rightarrow> real list" where
  "two_classes labels = map (\<lambda>y. if y \<noteq> 1 then - 1 else 1) labels"

section \<open>Judging\<close>

text \<open>The vote of a row: each member adds its say, or takes it away.\<close>

definition vote :: "real list \<Rightarrow> member \<Rightarrow> real \<Rightarrow> real result" where
  "vote row = (\<lambda>(i, m, v, alpha) aggv. bindE (py_index row i) (\<lambda>x.
     Inr (case m of
            Above \<Rightarrow> if x > v then aggv + alpha else aggv - alpha
          | Below \<Rightarrow> if x < v then aggv + alpha else aggv - alpha)))"

definition Judge :: "real list \<Rightarrow> real \<Rightarrow> member list \<Rightarrow> bool result" where
  "Judge row label members =
     bindE (forE members (vote row) 0) (\<lambda>aggv. Inr ((if aggv > 0 then 1 else - 1) = label))"

definition accuracy :: "real list list \<Rightarrow> real list \<Rightarrow> member list \<Rightarrow> real result" where
  "accuracy test_data test_label members =
     bindE (forE (zip test_data test_label) (\<lambda>(row, label) count.
        bindE (Judge row label members) (\<lambda>is_correct. Inr (count + (if is_correct then 1 else 0)))) 0) (\<lambda>count.
     Inr (count / of_nat (length test_data)))"

section \<open>The search finds the first of the best stumps\<close>

lemma stump_pred_pm1: "stump_pred m v x = 1 \<or> stump_pred m v x = - 1"
  by (simp add: stump_pred_def split: mode.split)

lemma trial_pred_length [simp]: "length (trial_pred data g t) = length data"
  by (simp add: trial_pred_def split: prod.split)

lemma trial_pred_nth: "k < length data \<Longrightarrow> trial_pred data g (i, j, m) ! k = stump_pred m (of_nat (j + 1) * g) (data ! k ! i)"
  by (simp add: trial_pred_def)

lemma trials_iff: "(i, j, m) \<in> set (trials n_col n_step) \<longleftrightarrow> i < n_col \<and> j < n_step"
  by (cases m) (auto simp: trials_def)

lemma weighted_error_sum:
  assumes "length pred = length label" and "length ws = length label"
  shows "weighted_error pred label ws = (\<Sum>i<length label. if pred ! i * label ! i < 0 then ws ! i else 0)"
  using assms by (simp add: weighted_error_def err_mat_def sum_list_sum_nth atLeast0LessThan)

text \<open>What the search has after some trials: the least error so far, from the first trial that has it.\<close>

definition stump_error :: "real list list \<Rightarrow> real list \<Rightarrow> real list \<Rightarrow> real \<Rightarrow> nat \<times> nat \<times> mode \<Rightarrow> real" where
  "stump_error data label ws g t = weighted_error (trial_pred data g t) label ws"

definition is_stump :: "real list list \<Rightarrow> real list \<Rightarrow> real list \<Rightarrow> real \<Rightarrow> nat \<times> nat \<times> mode \<Rightarrow> best \<Rightarrow> bool" where
  "is_stump data label ws g = (\<lambda>(i, j, m) b. b =
     \<lparr> best_err_rate = stump_error data label ws g (i, j, m), best_mode = m, best_value = of_nat (j + 1) * g,
       best_i = int i, best_pred = trial_pred data g (i, j, m) \<rparr>)"

lemma fold_try_stump:
  "fold (try_stump data label ws g) ts b0 = b \<Longrightarrow>
     (b = b0 \<and> (\<forall>t\<in>set ts. best_err_rate b0 \<le> stump_error data label ws g t)) \<or>
     (\<exists>ts1 t ts2. ts = ts1 @ t # ts2 \<and> is_stump data label ws g t b \<and> best_err_rate b < best_err_rate b0 \<and>
        (\<forall>u\<in>set ts1. best_err_rate b < stump_error data label ws g u) \<and>
        (\<forall>u\<in>set ts. best_err_rate b \<le> stump_error data label ws g u))"
proof (induction ts arbitrary: b0)
  case Nil
  then show ?case by simp
next
  case (Cons t ts)
  obtain i j m where t: "t = (i, j, m)" by (cases t)
  let ?e = "stump_error data label ws g"
  let ?b1 = "try_stump data label ws g t b0"
  have b1: "if ?e t < best_err_rate b0 then is_stump data label ws g t ?b1 \<and> best_err_rate ?b1 = ?e t else ?b1 = b0"
    by (simp add: t try_stump_def is_stump_def stump_error_def Let_def)
  from Cons.prems have "fold (try_stump data label ws g) ts ?b1 = b" by simp
  from Cons.IH [OF this] show ?case
  proof (elim disjE exE conjE)
    assume b: "b = ?b1" and le: "\<forall>u\<in>set ts. best_err_rate ?b1 \<le> ?e u"
    show ?thesis
    proof (cases "?e t < best_err_rate b0")
      case True
      then show ?thesis using b1 b le by (intro disjI2 exI [of _ "[]"] exI [of _ t] exI [of _ ts]) simp
    next
      case False
      then show ?thesis using b1 b le by auto
    qed
  next
    fix before' t' after'
    assume ts: "ts = before' @ t' # after'" and b: "is_stump data label ws g t' b" "best_err_rate b < best_err_rate ?b1"
      and lt: "\<forall>u\<in>set before'. best_err_rate b < ?e u" and le: "\<forall>u\<in>set ts. best_err_rate b \<le> ?e u"
    have "best_err_rate b < ?e t" "best_err_rate b < best_err_rate b0" using b1 b(2) by (auto split: if_splits)
    then show ?thesis using ts b lt le
      by (intro disjI2 exI [of _ "t # before'"] exI [of _ t'] exI [of _ after']) auto
  qed
qed

text \<open>Weights of rows: one for each, none negative, one in all.\<close>

definition distribution :: "nat \<Rightarrow> real list \<Rightarrow> bool" where
  "distribution n ws \<longleftrightarrow> length ws = n \<and> (\<forall>w\<in>set ws. 0 < w) \<and> sum_list ws = 1"

lemma distribution_sum: "distribution n ws \<Longrightarrow> (\<Sum>k<n. ws ! k) = 1"
  by (auto simp: distribution_def sum_list_sum_nth atLeast0LessThan)

lemma distribution_pos: "distribution n ws \<Longrightarrow> k < n \<Longrightarrow> 0 < ws ! k"
  by (simp add: distribution_def)

lemma weighted_error_le:
  assumes "length pred = n" and "length label = n" and ws: "distribution n ws"
  shows "0 \<le> weighted_error pred label ws" and "weighted_error pred label ws \<le> 1"
    and "k < n \<Longrightarrow> \<not> pred ! k * label ! k < 0 \<Longrightarrow> weighted_error pred label ws < 1"
proof -
  let ?t = "\<lambda>k. if pred ! k * label ! k < 0 then ws ! k else 0"
  have e: "weighted_error pred label ws = (\<Sum>k<n. ?t k)"
    using weighted_error_sum [of pred label ws] assms by (simp add: distribution_def)
  have bounds: "0 \<le> ?t k \<and> ?t k \<le> ws ! k" if "k < n" for k
    using distribution_pos [OF ws that] by simp
  show "0 \<le> weighted_error pred label ws" unfolding e using bounds by (intro sum_nonneg) simp
  have "(\<Sum>k<n. ?t k) \<le> (\<Sum>k<n. ws ! k)" using bounds by (intro sum_mono) simp
  then show "weighted_error pred label ws \<le> 1" unfolding e by (simp add: distribution_sum [OF ws])
  assume k: "k < n" "\<not> pred ! k * label ! k < 0"
  have "(\<Sum>k<n. ?t k) < (\<Sum>k<n. ws ! k)"
    using bounds k distribution_pos [OF ws k(1)] by (intro sum_strict_mono_ex1) auto
  then show "weighted_error pred label ws < 1" unfolding e by (simp add: distribution_sum [OF ws])
qed

lemma Generateclassifier_found:
  fixes g :: real
  assumes "rect n c data" and "length label = n" and "distribution n ws" and "0 < c" and "0 < n_step"
  defines "b \<equiv> Generateclassifier data label ws g n_step"
  shows "\<exists>ts1 t ts2. trials c n_step = ts1 @ t # ts2 \<and> is_stump data label ws g t b \<and>
    (\<forall>u\<in>set ts1. best_err_rate b < stump_error data label ws g u) \<and>
    (\<forall>u\<in>set (trials c n_step). best_err_rate b \<le> stump_error data label ws g u)"
proof -
  let ?b0 = "\<lparr> best_err_rate = 11 / 10, best_mode = Above, best_value = - 1, best_i = - 1,
      best_pred = replicate (length data) 1 \<rparr>"
  have "0 < n" using assms(3) by (auto simp: distribution_def)
  then have fold: "fold (try_stump data label ws g) (trials c n_step) ?b0 = b"
    using assms(1) by (simp add: b_def Generateclassifier_def rect_columns)
  have "(0, 0, Above) \<in> set (trials c n_step)" using assms(4,5) by (simp add: trials_iff)
  moreover have "stump_error data label ws g (0, 0, Above) \<le> 1"
    unfolding stump_error_def using assms(1-3) by (intro weighted_error_le) (auto simp: rect_def)
  moreover have "best_err_rate ?b0 = 11 / 10" by simp
  ultimately have "\<not> (\<forall>t\<in>set (trials c n_step). best_err_rate ?b0 \<le> stump_error data label ws g t)"
    by (intro notI) (drule bspec, assumption, linarith)
  with fold_try_stump [OF fold] show ?thesis by (elim disjE conjE exE) (simp, blast)
qed

text \<open>With two thresholds, some stump gets some row right.\<close>

lemma Generateclassifier_err:
  fixes g :: real
  assumes "rect n c data" and "length label = n" and "\<forall>y\<in>set label. y = 1 \<or> y = - 1" and ws: "distribution n ws"
    and "0 < c" and "2 \<le> n_step" and "g \<noteq> 0"
  defines "b \<equiv> Generateclassifier data label ws g n_step"
  shows "0 \<le> best_err_rate b \<and> best_err_rate b < 1"
proof -
  have n: "0 < n" "length data = n" using ws assms(1) by (auto simp: distribution_def rect_def)
  have "\<exists>ts1 t ts2. trials c n_step = ts1 @ t # ts2 \<and> is_stump data label ws g t b \<and>
    (\<forall>u\<in>set ts1. best_err_rate b < stump_error data label ws g u) \<and>
    (\<forall>u\<in>set (trials c n_step). best_err_rate b \<le> stump_error data label ws g u)"
    unfolding b_def using assms by (intro Generateclassifier_found) auto
  then obtain t where t: "is_stump data label ws g t b"
    and least: "\<And>u. u \<in> set (trials c n_step) \<Longrightarrow> best_err_rate b \<le> stump_error data label ws g u"
    by blast
  have "best_err_rate b = stump_error data label ws g t"
    using t by (auto simp: is_stump_def split: prod.splits)
  moreover have "0 \<le> stump_error data label ws g t"
    unfolding stump_error_def using assms(2) n ws by (intro weighted_error_le(1) [where n = n]) simp_all
  moreover have "\<exists>u\<in>set (trials c n_step). \<not> trial_pred data g u ! 0 * label ! 0 < 0"
  proof (rule ccontr)
    assume none: "\<not> ?thesis"
    have wrong: "stump_pred m (of_nat (j + 1) * g) (data ! 0 ! 0) * label ! 0 < 0" if "j < n_step" for j m
    proof -
      have "(0, j, m) \<in> set (trials c n_step)" using that assms(5) by (simp add: trials_iff)
      then have "trial_pred data g (0, j, m) ! 0 * label ! 0 < 0" using none by blast
      then show ?thesis using n by (simp add: trial_pred_nth)
    qed
    have y: "label ! 0 = 1 \<or> label ! 0 = - 1" using assms(2,3) n by (metis nth_mem)
    from wrong [of 0 Above] wrong [of 0 Below] wrong [of 1 Above] wrong [of 1 Below] y assms(6,7)
    show False by (auto simp: stump_pred_def split: if_splits)
  qed
  then obtain u where u: "u \<in> set (trials c n_step)" "\<not> trial_pred data g u ! 0 * label ! 0 < 0" by blast
  have "stump_error data label ws g u < 1"
    unfolding stump_error_def using u(2) assms(2) n ws by (intro weighted_error_le(3) [where n = n and k = 0]) simp_all
  ultimately show ?thesis using least [OF u(1)] by simp
qed

section \<open>What a round does\<close>

text \<open>
  The factor by which a round with error \<open>e\<close> brings the bound on the share of misjudged rows down;
  below an error of one in a thousand the code counts with one in a thousand.
\<close>

definition boost_factor :: "real \<Rightarrow> real" where
  "boost_factor e = 2 * sqrt (max e (1 / 1000) * (1 - e))"

lemma round_factor:
  assumes "0 \<le> e" and "e < 1" and alpha: "alpha = 1 / 2 * ln ((1 - e) / max e (1 / 1000))"
  shows "(1 - e) * exp (- alpha) + e * exp alpha \<le> boost_factor e"
proof -
  let ?m = "max e (1 / 1000)"
  have m: "0 < ?m" "e \<le> ?m" by auto
  then have q: "0 < (1 - e) / ?m" using assms(2) by simp
  have "exp alpha = sqrt ((1 - e) / ?m)"
  proof -
    have "(exp alpha)\<^sup>2 = exp (2 * alpha)" by (simp add: power2_eq_square flip: exp_add)
    also have "\<dots> = (1 - e) / ?m" using q by (simp add: alpha)
    finally show ?thesis by (simp add: real_sqrt_unique)
  qed
  then have ea: "exp alpha = sqrt (1 - e) / sqrt ?m" by (simp add: real_sqrt_divide)
  then have ena: "exp (- alpha) = sqrt ?m / sqrt (1 - e)" by (simp add: exp_minus)
  have "(1 - e) * exp (- alpha) = sqrt ?m * sqrt (1 - e)"
  proof -
    have "(1 - e) * exp (- alpha) = sqrt ?m * ((1 - e) / sqrt (1 - e))" by (simp add: ena)
    then show ?thesis using real_div_sqrt [of "1 - e"] assms(2) by simp
  qed
  moreover have "e * exp alpha \<le> ?m * exp alpha" using m by (intro mult_right_mono) auto
  moreover have "?m * exp alpha = sqrt ?m * sqrt (1 - e)"
  proof -
    have "?m * exp alpha = sqrt (1 - e) * (?m / sqrt ?m)" by (simp add: ea)
    then show ?thesis using real_div_sqrt [of ?m] m(1) by (simp add: mult.commute)
  qed
  ultimately have "(1 - e) * exp (- alpha) + e * exp alpha \<le> 2 * (sqrt ?m * sqrt (1 - e))" by linarith
  then show ?thesis by (simp add: boost_factor_def real_sqrt_mult)
qed

text \<open>What holds between the rounds; \<open>errs\<close> are the errors of the stumps taken so far.\<close>

definition boosted :: "nat \<Rightarrow> real list \<Rightarrow> real list \<Rightarrow> booster \<Rightarrow> bool" where
  "boosted n label errs s \<longleftrightarrow> distribution n (weight s) \<and> length (last_pred s) = n \<and>
     map (\<lambda>(i, m, v, alpha). alpha) (classifier s) = map (\<lambda>e. 1 / 2 * ln ((1 - e) / max e (1 / 1000))) errs \<and>
     (\<forall>e\<in>set errs. 0 \<le> e \<and> e < 1) \<and>
     (\<exists>z. 0 < z \<and> z \<le> prod_list (map boost_factor errs) \<and>
        (\<forall>k<n. exp (- (label ! k * last_pred s ! k)) / of_nat n = z * weight s ! k))"

lemma boosted_untrained:
  assumes "0 < n"
  shows "boosted n label [] (untrained n)"
  unfolding boosted_def
  using assms by (auto simp: untrained_def distribution_def sum_list_replicate intro!: exI [of _ 1])

text \<open>The bound: a row whose votes do not agree with its label has an exponential loss of at least one.\<close>

lemma boosted_margin:
  assumes "boosted n label errs s" and "length label = n"
  shows "real (card {k. k < n \<and> last_pred s ! k * label ! k \<le> 0}) / real n \<le> prod_list (map boost_factor errs)"
proof -
  let ?f = "last_pred s"
  obtain z where z: "0 < z" "z \<le> prod_list (map boost_factor errs)"
    and loss: "\<And>k. k < n \<Longrightarrow> exp (- (label ! k * ?f ! k)) / of_nat n = z * weight s ! k"
    and ws: "distribution n (weight s)"
    using assms(1) unfolding boosted_def by blast
  have "card {k. k < n \<and> ?f ! k * label ! k \<le> 0} = (\<Sum>k<n. if ?f ! k * label ! k \<le> 0 then 1 else 0)"
    by (simp add: sum.If_cases lessThan_def Collect_conj_eq [symmetric] conj_commute Int_def)
  then have "real (card {k. k < n \<and> ?f ! k * label ! k \<le> 0}) = (\<Sum>k<n. if ?f ! k * label ! k \<le> 0 then 1 else 0)"
    by (simp add: if_distrib [of real] cong: if_cong)
  then have "real (card {k. k < n \<and> ?f ! k * label ! k \<le> 0}) / real n =
      (\<Sum>k<n. (if ?f ! k * label ! k \<le> 0 then 1 else 0) / of_nat n)"
    by (simp only: sum_divide_distrib)
  also have "\<dots> \<le> (\<Sum>k<n. exp (- (label ! k * ?f ! k)) / of_nat n)"
    by (intro sum_mono divide_right_mono) (auto simp: mult.commute)
  also have "\<dots> = (\<Sum>k<n. z * weight s ! k)" using loss by (intro sum.cong) auto
  also have "\<dots> = z" by (simp add: distribution_sum [OF ws] flip: sum_distrib_left)
  finally show ?thesis using z(2) by simp
qed

lemma boosted_bound:
  assumes "boosted n label errs s" and "length label = n"
  shows "err_share (last_pred s) label \<le> prod_list (map boost_factor errs)"
proof -
  let ?f = "last_pred s"
  have len: "length ?f = n" using assms(1) by (simp add: boosted_def)
  have "length (filter id (err_mat ?f label)) = card {k. k < n \<and> ?f ! k * label ! k < 0}"
    using len assms(2) by (auto simp: length_filter_conv_card err_mat_def intro!: arg_cong [of _ _ card])
  also have "\<dots> \<le> card {k. k < n \<and> ?f ! k * label ! k \<le> 0}" by (rule card_mono) auto
  finally have "err_share ?f label \<le> real (card {k. k < n \<and> ?f ! k * label ! k \<le> 0}) / real n"
    using len by (simp add: err_share_def divide_right_mono)
  then show ?thesis using boosted_margin [OF assms] by linarith
qed

lemma reweighted:
  fixes alpha :: real
  assumes ws: "distribution n ws" and "length label = n" and "length pred = n"
    and pm1: "\<And>k. k < n \<Longrightarrow> (label ! k = 1 \<or> label ! k = - 1) \<and> (pred ! k = 1 \<or> pred ! k = - 1)"
  defines "e \<equiv> weighted_error pred label ws"
  defines "us \<equiv> map2 (*) ws (map2 (\<lambda>y p. exp (- alpha * (y * p))) label pred)"
  shows "sum_list us = (1 - e) * exp (- alpha) + e * exp alpha" and "0 < sum_list us"
    and "\<exists>ws'. normalised us = Some ws' \<and> distribution n ws' \<and>
      (\<forall>k<n. ws ! k * exp (- alpha * (label ! k * pred ! k)) = sum_list us * ws' ! k)"
proof -
  have len: "length ws = n" "length us = n" using assms by (simp_all add: distribution_def)
  have n: "0 < n" using ws by (auto simp: distribution_def)
  have us: "us ! k = ws ! k * exp (- alpha * (label ! k * pred ! k))" if "k < n" for k
    using that assms(2,3) len by (simp add: us_def)
  let ?bad = "\<lambda>k. pred ! k * label ! k < 0"
  have e: "e = (\<Sum>k<n. if ?bad k then ws ! k else 0)"
    using weighted_error_sum [of pred label ws] assms(2,3) len by (simp add: e_def)
  have u: "us ! k = exp (- alpha) * (ws ! k - (if ?bad k then ws ! k else 0)) + exp alpha * (if ?bad k then ws ! k else 0)"
    if "k < n" for k
    using pm1 [OF that] us [OF that] by (auto simp: algebra_simps)
  have "sum_list us = (\<Sum>k<n. us ! k)" using len by (simp add: sum_list_sum_nth atLeast0LessThan)
  also have "\<dots> = (\<Sum>k<n. exp (- alpha) * (ws ! k - (if ?bad k then ws ! k else 0)) + exp alpha * (if ?bad k then ws ! k else 0))"
    using u by (intro sum.cong) auto
  also have "\<dots> = exp (- alpha) * (\<Sum>k<n. ws ! k - (if ?bad k then ws ! k else 0)) + exp alpha * e"
    by (simp only: sum.distrib sum_distrib_left e)
  also have "(\<Sum>k<n. ws ! k - (if ?bad k then ws ! k else 0)) = 1 - e"
    by (simp only: sum_subtractf distribution_sum [OF ws] e)
  finally show total: "sum_list us = (1 - e) * exp (- alpha) + e * exp alpha" by (simp add: mult.commute)
  have pos: "0 < x" if "x \<in> set us" for x
    using that us distribution_pos [OF ws] len by (auto simp: in_set_conv_nth)
  have "0 < (\<Sum>k<n. us ! k)" using n len pos by (intro sum_pos) auto
  then show U: "0 < sum_list us" using len by (simp add: sum_list_sum_nth atLeast0LessThan)
  let ?ws = "map (\<lambda>w. w / sum_list us) us"
  have "sum_list (map (\<lambda>w. w / x) us) = sum_list us / x" for x by (induction us) (simp_all add: add_divide_distrib)
  then show "\<exists>ws'. normalised us = Some ws' \<and> distribution n ws' \<and>
      (\<forall>k<n. ws ! k * exp (- alpha * (label ! k * pred ! k)) = sum_list us * ws' ! k)"
    using U pos len us by (intro exI [of _ ?ws]) (auto simp: normalised_def distribution_def)
qed

lemma vote_stump:
  "i < length row \<Longrightarrow> vote row (int i, m, v, alpha) a = Inr (a + alpha * stump_pred m v (row ! i))"
  by (simp add: vote_def stump_pred_def split: mode.split)

text \<open>The votes of the training rows are what the members would say of them.\<close>

definition counted :: "real list list \<Rightarrow> booster \<Rightarrow> bool" where
  "counted data s \<longleftrightarrow> (\<forall>k<length data. forE (classifier s) (vote (data ! k)) 0 = Inr (last_pred s ! k))"

lemma train_round_boosted:
  assumes data: "rect n c data" "0 < c" and label: "length label = n" "\<forall>y\<in>set label. y = 1 \<or> y = - 1"
    and s: "boosted n label errs s" "counted data s"
  shows "\<exists>s' e. train_round data label s = Some s' \<and> boosted n label (errs @ [e]) s' \<and> counted data s'"
proof -
  define b where "b = Generateclassifier data label (weight s) (1 / 10) 100"
  define e where "e = best_err_rate b"
  define alpha where "alpha = 1 / 2 * ln ((1 - e) / max e (1 / 1000))"
  from s(1) obtain z where ws: "distribution n (weight s)" and votes: "length (last_pred s) = n"
    and says: "map (\<lambda>(i, m, v, alpha). alpha) (classifier s) = map (\<lambda>e. 1 / 2 * ln ((1 - e) / max e (1 / 1000))) errs"
    and errs: "\<forall>e\<in>set errs. 0 \<le> e \<and> e < 1"
    and z: "0 < z" "z \<le> prod_list (map boost_factor errs)"
    and loss: "\<And>k. k < n \<Longrightarrow> exp (- (label ! k * last_pred s ! k)) / of_nat n = z * weight s ! k"
    unfolding boosted_def by blast
  have len: "length data = n" "0 < n" using data(1) ws by (auto simp: rect_def distribution_def)
  have e01: "0 \<le> e" "e < 1"
    using Generateclassifier_err [OF data(1) label ws data(2)] by (simp_all add: e_def b_def)
  then have "0 < (1 - e) / max e (1 / 1000)" by (intro divide_pos_pos) auto
  then have log: "np_log ((1 - e) / max e (1 / 1000)) = Some (ln ((1 - e) / max e (1 / 1000)))"
    by (simp add: np_log_def)
  obtain i j m where ij: "i < c"
    and b: "b = \<lparr> best_err_rate = stump_error data label (weight s) (1 / 10) (i, j, m), best_mode = m,
      best_value = of_nat (j + 1) * (1 / 10), best_i = int i, best_pred = trial_pred data (1 / 10) (i, j, m) \<rparr>"
  proof -
    from Generateclassifier_found [OF data(1) label(1) ws data(2), of 100 "1 / 10"] obtain ts1 t ts2
      where t: "trials c 100 = ts1 @ t # ts2" "is_stump data label (weight s) (1 / 10) t b" by (auto simp: b_def)
    obtain i j m where ijm: "t = (i, j, m)" by (cases t)
    have "t \<in> set (trials c 100)" using t(1) by simp
    then show thesis using that t(2) by (simp add: ijm trials_iff is_stump_def)
  qed
  let ?h = "best_pred b"
  have h: "length ?h = n" and e: "e = weighted_error ?h label (weight s)"
    using len by (simp_all add: b e_def stump_error_def)
  have hk: "?h ! k = stump_pred m (of_nat (j + 1) * (1 / 10)) (data ! k ! i)" if "k < n" for k
    using that len by (simp add: b trial_pred_nth)
  have pm1: "(label ! k = 1 \<or> label ! k = - 1) \<and> (?h ! k = 1 \<or> ?h ! k = - 1)" if "k < n" for k
    using that label hk [OF that] stump_pred_pm1 by auto
  let ?us = "map2 (*) (weight s) (map2 (\<lambda>y p. exp (- alpha * (y * p))) label ?h)"
  note re = reweighted [OF ws label(1) h pm1, where alpha = alpha, folded e]
  from re(3) obtain ws' where ws': "normalised ?us = Some ws'" "distribution n ws'"
    "\<And>k. k < n \<Longrightarrow> weight s ! k * exp (- alpha * (label ! k * ?h ! k)) = sum_list ?us * ws' ! k" by blast
  define s' where "s' = \<lparr> last_pred = map2 (\<lambda>v p. v + alpha * p) (last_pred s) ?h, weight = ws',
      classifier = classifier s @ [(best_i b, best_mode b, best_value b, alpha)] \<rparr>"
  have "train_round data label s = Some s'"
    using log ws'(1) by (simp add: train_round_def Let_def s'_def alpha_def flip: b_def e_def)
  moreover have "boosted n label (errs @ [e]) s'"
    unfolding boosted_def
  proof (intro conjI)
    show "\<exists>z. 0 < z \<and> z \<le> prod_list (map boost_factor (errs @ [e])) \<and>
        (\<forall>k<n. exp (- (label ! k * last_pred s' ! k)) / of_nat n = z * weight s' ! k)"
    proof (intro exI [of _ "z * sum_list ?us"] conjI allI impI)
      show "0 < z * sum_list ?us" using z(1) re(2) by simp
      have "sum_list ?us \<le> boost_factor e" using re(1) round_factor [OF e01 alpha_def] by simp
      then show "z * sum_list ?us \<le> prod_list (map boost_factor (errs @ [e]))"
        using z re(2) by (auto intro!: mult_mono)
      fix k assume k: "k < n"
      have "exp (- (label ! k * last_pred s' ! k)) / of_nat n =
          exp (- (label ! k * last_pred s ! k)) / of_nat n * exp (- alpha * (label ! k * ?h ! k))"
        using k votes h by (simp add: s'_def algebra_simps flip: exp_add)
      also have "\<dots> = z * sum_list ?us * weight s' ! k"
        using loss [OF k] ws'(3) [OF k] by (simp add: s'_def)
      finally show "exp (- (label ! k * last_pred s' ! k)) / of_nat n = z * sum_list ?us * weight s' ! k" .
    qed
  qed (use ws'(2) votes h says errs e01 in \<open>simp_all add: s'_def alpha_def\<close>)
  moreover have "counted data s'"
    using s(2) data(1) ij votes h hk
    by (auto simp: counted_def s'_def b forE_append forE_single vote_stump rect_def)
  ultimately show ?thesis by blast
qed

lemma train_rounds_boosted:
  assumes "rect n c data" and "0 < c" and "length label = n" and "\<forall>y\<in>set label. y = 1 \<or> y = - 1"
    and "boosted n label errs s" and "counted data s"
  shows "\<exists>s' more. train_rounds r data label s = Some s' \<and> boosted n label (errs @ more) s' \<and> counted data s' \<and>
    length more \<le> r \<and> (r \<noteq> 0 \<longrightarrow> length more = r \<or> err_share (last_pred s') label < 1 / 10000)"
  using assms(5,6)
proof (induction r arbitrary: s errs)
  case 0
  then show ?case by (intro exI [of _ s] exI [of _ "[]"]) simp
next
  case (Suc r)
  obtain s1 e where s1: "train_round data label s = Some s1" "boosted n label (errs @ [e]) s1" "counted data s1"
    using train_round_boosted [OF assms(1-4) Suc.prems] by blast
  show ?case
  proof (cases "err_share (last_pred s1) label < 1 / 10000")
    case True
    then show ?thesis using s1 by (intro exI [of _ s1] exI [of _ "[e]"]) simp
  next
    case False
    from Suc.IH [OF s1(2,3)] obtain s' more where
      "train_rounds r data label s1 = Some s'" "boosted n label (errs @ e # more) s'" "counted data s'" "length more \<le> r"
      "r \<noteq> 0 \<longrightarrow> length more = r \<or> err_share (last_pred s') label < 1 / 10000" by auto
    then show ?thesis using s1(1) False
      by (intro exI [of _ s'] exI [of _ "e # more"]) (cases "r = 0", auto)
  qed
qed

section \<open>Properties\<close>

text \<open>
  C26: the search returns a stump that misjudges the least weight of rows, and the first such stump in
  the order of columns, thresholds and modes: every stump has at least its error, every stump tried
  before it has a greater one, and the error, threshold, mode, column and predictions that are returned
  belong together.
\<close>

theorem stump_is_best:
  assumes "rect n c data" and "length label = n" and "distribution n ws" and "0 < c" and "0 < n_step"
  shows "\<exists>ts1 i j m ts2. trials c n_step = ts1 @ (i, j, m) # ts2 \<and>
    Generateclassifier data label ws g n_step =
      \<lparr> best_err_rate = weighted_error (trial_pred data g (i, j, m)) label ws, best_mode = m,
        best_value = of_nat (j + 1) * g, best_i = int i, best_pred = trial_pred data g (i, j, m) \<rparr> \<and>
    list_all (\<lambda>u. best_err_rate (Generateclassifier data label ws g n_step) < weighted_error (trial_pred data g u) label ws) ts1 \<and>
    list_all (\<lambda>u. best_err_rate (Generateclassifier data label ws g n_step) \<le> weighted_error (trial_pred data g u) label ws)
      (trials c n_step)"
proof -
  from Generateclassifier_found [OF assms, of g] obtain ts1 t ts2 where
    t: "trials c n_step = ts1 @ t # ts2" "is_stump data label ws g t (Generateclassifier data label ws g n_step)"
    and less: "\<forall>u\<in>set ts1. best_err_rate (Generateclassifier data label ws g n_step) < stump_error data label ws g u"
    and le: "\<forall>u\<in>set (trials c n_step). best_err_rate (Generateclassifier data label ws g n_step) \<le> stump_error data label ws g u"
    by blast
  obtain i j m where ijm: "t = (i, j, m)" by (cases t)
  show ?thesis
    using t less le
    by (intro exI [of _ ts1] exI [of _ i] exI [of _ j] exI [of _ m] exI [of _ ts2])
      (simp add: ijm is_stump_def stump_error_def list_all_iff)
qed

theorem stump_is_best_witness:
  "\<exists>ts1 i j m ts2. trials 1 2 = ts1 @ (i, j, m) # ts2 \<and>
    Generateclassifier [[0], [3]] [- 1, 1] [1/2, 1/2] 1 2 =
      \<lparr> best_err_rate = weighted_error (trial_pred [[0], [3]] 1 (i, j, m)) [- 1, 1] [1/2, 1/2], best_mode = m,
        best_value = of_nat (j + 1) * 1, best_i = int i, best_pred = trial_pred [[0], [3]] 1 (i, j, m) \<rparr> \<and>
    list_all (\<lambda>u. best_err_rate (Generateclassifier [[0], [3]] [- 1, 1] [1/2, 1/2] 1 2) <
      weighted_error (trial_pred [[0], [3]] 1 u) [- 1, 1] [1/2, 1/2]) ts1 \<and>
    list_all (\<lambda>u. best_err_rate (Generateclassifier [[0], [3]] [- 1, 1] [1/2, 1/2] 1 2) \<le>
      weighted_error (trial_pred [[0], [3]] 1 u) [- 1, 1] [1/2, 1/2]) (trials 1 2)"
  by (rule stump_is_best [of 2]) (simp_all add: rect_def distribution_def)

text \<open>
  C5: on rows of numbers with labels 1 and -1, training always ends with a committee, of ten members
  or of fewer when hardly any row is misjudged; the say of each member follows from its error by the formula of boosting; and the share of
  training rows the committee misjudges is at most the product, over the members, of twice the square
  root of its error (not less than one in a thousand) times its success.
\<close>

theorem training_error_bound:
  assumes "rect n c data" and "0 < n" and "0 < c" and "length label = n" and "\<forall>y\<in>set label. y = 1 \<or> y = - 1"
  shows "\<exists>s errs. train data label = Some s \<and> length errs \<le> num_iter \<and> list_all (\<lambda>e. 0 \<le> e \<and> e < 1) errs \<and>
    (length errs = num_iter \<or> err_share (last_pred s) label < 1 / 10000) \<and>
    map (\<lambda>(i, m, v, alpha). alpha) (classifier s) = map (\<lambda>e. 1 / 2 * ln ((1 - e) / max e (1 / 1000))) errs \<and>
    err_share (last_pred s) label \<le> prod_list (map (\<lambda>e. 2 * sqrt (max e (1 / 1000) * (1 - e))) errs)"
proof -
  have "data \<noteq> []" "length data = n" using assms(1,2) by (auto simp: rect_def)
  then have "counted data (untrained n)" by (simp add: counted_def untrained_def)
  from train_rounds_boosted [OF assms(1,3-5) boosted_untrained [OF assms(2)] this, of num_iter] obtain s errs where
    t: "train data label = Some s" "length errs \<le> num_iter" "length errs = num_iter \<or> err_share (last_pred s) label < 1 / 10000"
    and b: "boosted n label errs s"
    using \<open>length data = n\<close> by (auto simp: train_def num_iter_def)
  have "err_share (last_pred s) label \<le> prod_list (map (\<lambda>e. 2 * sqrt (max e (1 / 1000) * (1 - e))) errs)"
    using boosted_bound [OF b assms(4)] by (simp add: boost_factor_def [abs_def])
  then show ?thesis using t b by (intro exI [of _ s] exI [of _ errs]) (auto simp: boosted_def list_all_iff)
qed

theorem training_error_bound_witness:
  "\<exists>s errs. train [[0], [3]] [- 1, 1] = Some s \<and> length errs \<le> num_iter \<and> list_all (\<lambda>e. 0 \<le> e \<and> e < 1) errs \<and>
    (length errs = num_iter \<or> err_share (last_pred s) [- 1, 1] < 1 / 10000) \<and>
    map (\<lambda>(i, m, v, alpha). alpha) (classifier s) = map (\<lambda>e. 1 / 2 * ln ((1 - e) / max e (1 / 1000))) errs \<and>
    err_share (last_pred s) [- 1, 1] \<le> prod_list (map (\<lambda>e. 2 * sqrt (max e (1 / 1000) * (1 - e))) errs)"
  by (rule training_error_bound [of 2 1]) (simp_all add: rect_def)

text \<open>
  Judging agrees with training: on a training row the committee says 1 exactly when the votes
  added up in training are positive, whatever label it is compared with.
\<close>

theorem judge_agrees:
  assumes "rect n c data" and "0 < n" and "0 < c" and "length label = n" and "\<forall>y\<in>set label. y = 1 \<or> y = - 1"
  shows "\<exists>s. train data label = Some s \<and>
    list_all2 (\<lambda>row votes. \<forall>y. Judge row y (classifier s) = Inr ((if votes > 0 then 1 else - 1) = y)) data (last_pred s)"
proof -
  have "data \<noteq> []" and n: "length data = n" using assms(1,2) by (auto simp: rect_def)
  then have "counted data (untrained n)" by (simp add: counted_def untrained_def)
  from train_rounds_boosted [OF assms(1,3-5) boosted_untrained [OF assms(2)] this, of num_iter]
  obtain s errs where "train data label = Some s" "counted data s" "boosted n label errs s"
    using n by (auto simp: train_def)
  then show ?thesis using n
    by (intro exI [of _ s]) (auto simp: Judge_def counted_def boosted_def list_all2_conv_all_nth)
qed

theorem judge_agrees_witness:
  "\<exists>s. train [[0], [3]] [- 1, 1] = Some s \<and>
    list_all2 (\<lambda>row votes. \<forall>y. Judge row y (classifier s) = Inr ((if votes > 0 then 1 else - 1) = y)) [[0], [3]] (last_pred s)"
  by (rule judge_agrees [of 2 1]) (simp_all add: rect_def)

end
