(* ===== verification/Py_Number.thy ===== *)
theory Py_Number
  imports Lint_Options Complex_Main
begin

text \<open>
  \<open>int\<close> and \<open>float\<close> of a text in Python 3, for the script of \<open>python/adaboost\<close>: white space around
  the numeral is skipped, digits may be grouped by single underscores. \<open>float\<close> also reads words for the
  infinities and for what is not a number; they are no real numbers, and are \<open>None\<close>. The lemmas read
  whole numbers back as they are printed.
\<close>

section \<open>Numerals\<close>

definition py3_space :: "char \<Rightarrow> bool" where
  "py3_space c \<longleftrightarrow> (let n = of_char c :: nat in 9 \<le> n \<and> n \<le> 13 \<or> 28 \<le> n \<and> n \<le> 32 \<or> n = 133 \<or> n = 160)"

definition py3_strip :: "string \<Rightarrow> string" where
  "py3_strip s = rev (dropWhile py3_space (rev (dropWhile py3_space s)))"

text \<open>Groups of digits with underscores between them.\<close>

definition digit_part :: "string \<Rightarrow> bool" where
  "digit_part s \<longleftrightarrow> list_all (\<lambda>part. part \<noteq> [] \<and> list_all is_digit part) (str_split s ''_'')"

definition digits_of :: "string \<Rightarrow> string" where
  "digits_of s = concat (str_split s ''_'')"

text \<open>Whether there is a minus sign, and what is behind the sign.\<close>

definition split_sign :: "string \<Rightarrow> bool \<times> string" where
  "split_sign s = (startswith s ''-'', if startswith s ''-'' \<or> startswith s ''+'' then tl s else s)"

definition py3_int :: "string \<Rightarrow> int result" where
  "py3_int s =
     (let (negative, ds) = split_sign (py3_strip s)
      in if digit_part ds
         then Inr (if negative then - int (number (digits_of ds)) else int (number (digits_of ds)))
         else Inl (ValueError ''invalid literal for int() with base 10''))"

section \<open>Decimal fractions\<close>

definition to_lower :: "char \<Rightarrow> char" where
  "to_lower c = (if is_upper c then char_of (of_char c + 32 :: nat) else c)"

definition no_point :: "char \<Rightarrow> bool" where
  "no_point c \<longleftrightarrow> c \<noteq> CHR ''.''"

definition no_exponent :: "char \<Rightarrow> bool" where
  "no_exponent c \<longleftrightarrow> c \<noteq> CHR ''e'' \<and> c \<noteq> CHR ''E''"

text \<open>Digits, or digits with a point before, among or behind them; the value.\<close>

definition mantissa :: "string \<Rightarrow> real option" where
  "mantissa s =
     (let whole = takeWhile no_point s; point = dropWhile no_point s; frac = tl point
      in if (whole = [] \<or> digit_part whole) \<and> (point = [] \<or> frac = [] \<or> digit_part frac) \<and> (whole \<noteq> [] \<or> point \<noteq> [] \<and> frac \<noteq> [])
         then Some (real (number (digits_of whole)) +
           (if point = [] then 0 else real (number (digits_of frac)) / 10 ^ length (digits_of frac)))
         else None)"

text \<open>The power of ten behind the letter, or one.\<close>

definition exponent :: "string \<Rightarrow> real option" where
  "exponent s =
     (if s = [] then Some 1
      else let (negative, ds) = split_sign (tl s)
           in if digit_part ds
              then Some (if negative then 1 / 10 ^ number (digits_of ds) else 10 ^ number (digits_of ds))
              else None)"

definition py_float :: "string \<Rightarrow> real option result" where
  "py_float s =
     (let (negative, t) = split_sign (py3_strip s)
      in if map to_lower t \<in> {''inf'', ''infinity'', ''nan''} then Inr None
         else case (mantissa (takeWhile no_exponent t), exponent (dropWhile no_exponent t)) of
                (Some m, Some e) \<Rightarrow> Inr (Some (if negative then - (m * e) else m * e))
              | _ \<Rightarrow> Inl (ValueError ''could not convert string to float''))"

section \<open>Whole numbers are read back\<close>

lemma digit_plain: "is_digit c \<Longrightarrow> \<not> py3_space c \<and> no_point c \<and> no_exponent c \<and> c \<noteq> CHR ''_'' \<and>
    c \<noteq> CHR ''-'' \<and> c \<noteq> CHR ''+'' \<and> c \<noteq> CHR '','' \<and> to_lower c = c \<and> c \<notin> {CHR ''i'', CHR ''n''}"
  by (auto simp: is_digit_def py3_space_def no_point_def no_exponent_def to_lower_def is_upper_def Let_def)

lemma digits_read:
  "list_all is_digit (str_digits n)" "number (str_digits n) = n" "str_digits n \<noteq> []"
  using str_digits_read [of n] str_digits_nonempty [of n] by simp_all

lemma digit_part_digits: "digit_part (str_digits n)" "digits_of (str_digits n) = str_digits n"
proof -
  have "CHR ''_'' \<notin> set (str_digits n)" using digits_read(1) [of n] digit_plain by (auto simp: list_all_iff)
  then have "str_split (str_digits n) ''_'' = [str_digits n]" by (simp add: str_split_def str_split_aux_free)
  then show "digit_part (str_digits n)" "digits_of (str_digits n) = str_digits n"
    using digits_read by (simp_all add: digit_part_def digits_of_def)
qed

lemma str_int_ends:
  "list_all (\<lambda>c. is_digit c \<or> c = CHR ''-'') (str_int v)" "str_int v \<noteq> []"
  "split_sign (str_int v) = (v < 0, str_digits (nat \<bar>v\<bar>))"
proof -
  show "list_all (\<lambda>c. is_digit c \<or> c = CHR ''-'') (str_int v)"
    using digits_read(1) by (auto simp: str_int_def list_all_iff)
  show "str_int v \<noteq> []" using digits_read(3) by (simp add: str_int_def)
  have "\<not> startswith (str_digits n) ''-''" "\<not> startswith (str_digits n) ''+''" for n
    using digits_read(1,3) [of n] digit_plain by (cases "str_digits n"; auto)+
  then show "split_sign (str_int v) = (v < 0, str_digits (nat \<bar>v\<bar>))" by (simp add: split_sign_def str_int_def)
qed

lemma str_int_free:
  assumes "\<not> P (CHR ''-'')" and "\<And>c. is_digit c \<Longrightarrow> \<not> P c"
  shows "\<forall>c\<in>set (str_int v). \<not> P c"
proof
  fix c assume "c \<in> set (str_int v)"
  then have "is_digit c \<or> c = CHR ''-''" using str_int_ends(1) [of v] by (simp add: list_all_iff)
  then show "\<not> P c" using assms by blast
qed

lemma py3_strip_str_int: "list_all py3_space ws \<Longrightarrow> py3_strip (str_int v @ ws) = str_int v"
proof -
  assume ws: "list_all py3_space ws"
  have "\<not> py3_space (CHR ''-'')" by (simp add: py3_space_def)
  then have solid: "\<forall>c\<in>set (str_int v). \<not> py3_space c" by (rule str_int_free) (simp add: digit_plain)
  obtain c cs where front: "str_int v = c # cs" using str_int_ends(2) by (cases "str_int v") auto
  then have "\<not> py3_space c" using solid by simp
  then have "dropWhile py3_space (str_int v @ ws) = str_int v @ ws" by (simp add: front)
  moreover have "dropWhile py3_space (rev ws @ rev (str_int v)) = dropWhile py3_space (rev (str_int v))"
    using ws by (intro dropWhile_append2) (simp add: list_all_iff)
  moreover have "dropWhile py3_space (rev (str_int v)) = rev (str_int v)"
  proof (cases "rev (str_int v)")
    case (Cons d ds)
    then have "d \<in> set (str_int v)" by (metis list.set_intros(1) set_rev)
    then show ?thesis using solid Cons by simp
  qed simp
  ultimately show ?thesis by (simp only: py3_strip_def rev_append rev_rev_ident)
qed

lemma py3_int_str_int: "list_all py3_space ws \<Longrightarrow> py3_int (str_int v @ ws) = Inr v"
  by (simp add: py3_int_def py3_strip_str_int str_int_ends digit_part_digits digits_read Let_def)

lemma py_float_str_int: "list_all py3_space ws \<Longrightarrow> py_float (str_int v @ ws) = Inr (Some (of_int v))"
proof -
  assume ws: "list_all py3_space ws"
  let ?ds = "str_digits (nat \<bar>v\<bar>)"
  have all: "\<forall>c\<in>set ?ds. no_exponent c \<and> no_point c"
    using digits_read(1) [of "nat \<bar>v\<bar>"] digit_plain by (auto simp: list_all_iff)
  then have split: "takeWhile no_exponent ?ds = ?ds" "dropWhile no_exponent ?ds = []"
    "takeWhile no_point ?ds = ?ds" "dropWhile no_point ?ds = []"
    by (simp_all add: takeWhile_eq_all_conv)
  obtain c cs where ds: "?ds = c # cs" using digits_read(3) by (cases ?ds) auto
  then have "is_digit c" using digits_read(1) [of "nat \<bar>v\<bar>"] by simp
  then have word: "map to_lower ?ds \<notin> {''inf'', ''infinity'', ''nan''}"
    using digit_plain [of c] by (auto simp: ds)
  show ?thesis
    using word
    by (simp add: py_float_def py3_strip_str_int [OF ws] str_int_ends(3) split mantissa_def exponent_def
        digit_part_digits digits_read Let_def)
qed

section \<open>Lines of whole numbers\<close>

text \<open>The line of a file that holds the numbers, and the words it is split into: the last one has the line break.\<close>

definition int_line :: "int list \<Rightarrow> string" where
  "int_line vs = str_join '','' (map str_int vs) @ [newline]"

definition int_words :: "int list \<Rightarrow> string list" where
  "int_words vs = map str_int (butlast vs) @ [str_int (last vs) @ [newline]]"

lemma newline_space: "py3_space newline" "re_space newline"
  by (simp_all add: py3_space_def re_space_def)

lemma int_words_Cons: "vs \<noteq> [] \<Longrightarrow> int_words (v # vs) = str_int v # int_words vs"
  by (simp add: int_words_def)

lemma int_line_split:
  assumes "vs \<noteq> []"
  shows "str_split (int_line vs) '','' = int_words vs"
proof -
  have "int_line vs = str_join '','' (int_words vs)"
    using assms by (induction vs) (auto simp: int_line_def int_words_def str_join_Cons)
  moreover have "CHR '','' \<notin> set (str_int v)" for v
    using str_int_ends(1) [of v] digit_plain by (auto simp: list_all_iff)
  then have "\<forall>w\<in>set (int_words vs). CHR '','' \<notin> set w" by (auto simp: int_words_def)
  moreover have "int_words vs \<noteq> []" by (simp add: int_words_def)
  ultimately show ?thesis using str_split_join [of "int_words vs" "CHR '',''"] by simp
qed

lemma int_words_read:
  assumes "\<And>v ws. ws = [] \<or> ws = [newline] \<Longrightarrow> to_number (str_int v @ ws) = Inr (num v)" and "vs \<noteq> []"
  shows "mapE to_number (int_words vs) = Inr (map num vs)"
proof -
  have num: "to_number (str_int v) = Inr (num v)" "to_number (str_int v @ [newline]) = Inr (num v)" for v
    using assms(1) [of "[]" v] assms(1) [of "[newline]" v] by simp_all
  show ?thesis
    using assms(2)
  proof (induction vs)
    case (Cons v vs)
    then show ?case by (cases "vs = []") (simp_all add: int_words_Cons num, simp add: int_words_def num)
  qed simp
qed

text \<open>The three readers.\<close>

lemma line_break_space: "ws = [] \<or> ws = [newline] \<Longrightarrow> list_all py3_space ws"
  by (auto simp: newline_space)

lemma py3_int_word: "ws = [] \<or> ws = [newline] \<Longrightarrow> py3_int (str_int v @ ws) = Inr v"
  by (rule py3_int_str_int) (rule line_break_space)

lemma py_float_word: "ws = [] \<or> ws = [newline] \<Longrightarrow> py_float (str_int v @ ws) = Inr (Some (of_int v))"
  by (rule py_float_str_int) (rule line_break_space)

lemma py_int_word: "ws = [] \<or> ws = [newline] \<Longrightarrow> py_int (str_int v @ ws) = Inr v"
proof -
  assume ws: "ws = [] \<or> ws = [newline]"
  have "\<not> re_space (CHR ''-'')" by (simp add: re_space_def)
  then have solid: "\<forall>c\<in>set (str_int v). \<not> re_space c" by (rule str_int_free) (simp add: digit_no_space)
  obtain c cs where front: "str_int v = c # cs" using str_int_ends(2) by (cases "str_int v") auto
  then have "\<not> re_space c" using solid by simp
  then have "dropWhile re_space (str_int v @ ws) = str_int v @ ws" "dropWhile re_space (str_int v) = str_int v"
    by (simp_all add: front)
  moreover have "dropWhile re_space (rev (str_int v @ ws)) = dropWhile re_space (rev (str_int v))"
    using ws newline_space by auto
  ultimately have "py_int (str_int v @ ws) = py_int (str_int v)" by (simp only: py_int_def Let_def)
  then show ?thesis by (simp add: py_int_str_int)
qed

end
