(* ===== verification/Adaboost_Main.thy ===== *)
theory Adaboost_Main
  imports Adaboost Py_Number
begin

text \<open>
  The script \<open>python/adaboost/2.py\<close> from its two files to what it prints: the labels and numbers of each
  line, training, the description of the committee, and its accuracy on the test rows. What \<open>numpy\<close>'s
  \<open>mat\<close> makes of a list of rows and how a number is shown are arguments; the lines about the time
  taken are left out.
\<close>

section \<open>The script\<close>

text \<open>A line is a label and numbers, which the training lines have as \<open>float\<close> and the test lines as \<open>int\<close>.\<close>

definition csv_row :: "(string \<Rightarrow> 'a result) \<Rightarrow> string \<Rightarrow> (int \<times> 'a list) result" where
  "csv_row to_number l =
     (let line_content = str_split l '','' in
      bindE (py_index line_content 0) (\<lambda>first. bindE (py3_int first) (\<lambda>label.
      bindE (mapE to_number (tl line_content)) (\<lambda>data. Inr (label, data)))))"

definition read_csv :: "(string \<Rightarrow> 'a result) \<Rightarrow> string list \<Rightarrow> (int list \<times> 'a list list) result" where
  "read_csv to_number ls = bindE (mapE (csv_row to_number) ls) (\<lambda>rows. Inr (map fst rows, map snd rows))"

text \<open>\<open>None\<close> when a number is an infinity or no number.\<close>

definition finite_rows :: "'a option list list \<Rightarrow> 'a list list option" where
  "finite_rows rows = (if list_all (list_all (\<lambda>x. x \<noteq> None)) rows then Some (map (map the) rows) else None)"

definition mode_sign :: "mode \<Rightarrow> string" where
  "mode_sign m = (case m of Above \<Rightarrow> ''>'' | Below \<Rightarrow> ''<'')"

definition PrintClassifier :: "(real \<Rightarrow> string) \<Rightarrow> member list \<Rightarrow> string list" where
  "PrintClassifier show_float members =
     [''The classifier is:'',
      foldl (\<lambda>des (i, m, v, alpha). des @ show_float alpha @ ''*X'' @ str_int i @ mode_sign m @ show_float v @ '' '') [] members]"

text \<open>What is printed of the committee, and the accuracy; \<open>None\<close> when numbers are not finite.\<close>

definition adaboost ::
  "(real list list \<Rightarrow> real list list result) \<Rightarrow> (real \<Rightarrow> string) \<Rightarrow> string list \<Rightarrow> string list
     \<Rightarrow> (string list \<times> real) option result" where
  "adaboost np_mat show_float f_train f_test =
     bindE (read_csv py_float f_train) (\<lambda>(train_label, train_rows).
     bindE (read_csv py3_int f_test) (\<lambda>(test_label, test_rows).
     case finite_rows train_rows of
       None \<Rightarrow> Inr None
     | Some train_rows \<Rightarrow>
         bindE (np_mat train_rows) (\<lambda>train_data. bindE (np_mat (map (map real_of_int) test_rows)) (\<lambda>test_data.
         case train train_data (two_classes train_label) of
           None \<Rightarrow> Inr None
         | Some s \<Rightarrow> bindE (accuracy test_data (two_classes test_label) (classifier s)) (\<lambda>a.
             Inr (Some (PrintClassifier show_float (classifier s), a)))))))"

text \<open>What the script relies on of \<open>mat\<close>: rows of one length are taken as they are.\<close>

definition np_mat_ok :: "(real list list \<Rightarrow> real list list result) \<Rightarrow> bool" where
  "np_mat_ok np_mat \<longleftrightarrow> (\<forall>n c rows. 0 < n \<longrightarrow> 0 < c \<longrightarrow> rect n c rows \<longrightarrow> np_mat rows = Inr rows)"

section \<open>Files of whole numbers\<close>

text \<open>The line of a label and its numbers.\<close>

definition csv_line :: "int \<times> int list \<Rightarrow> string" where
  "csv_line = (\<lambda>(label, xs). int_line (label # xs))"

lemma csv_row_line:
  assumes "\<And>v ws. ws = [] \<or> ws = [newline] \<Longrightarrow> to_number (str_int v @ ws) = Inr (num v)"
  shows "csv_row to_number (csv_line (label, xs)) = Inr (label, map num xs)"
proof (cases "xs = []")
  case True
  then show ?thesis
    using py_index_nat [of 0 "int_words [label]"] py3_int_word [of "[newline]" label]
    by (simp add: csv_row_def csv_line_def int_line_split int_words_def)
next
  case False
  have "mapE to_number (int_words xs) = Inr (map num xs)" by (rule int_words_read) (use assms False in auto)
  then show ?thesis
    using py_index_nat [of 0 "int_words (label # xs)"] py3_int_word [of "[]" label] False
    by (simp add: csv_row_def csv_line_def int_line_split int_words_Cons)
qed

lemma read_csv_lines:
  assumes "\<And>v ws. ws = [] \<or> ws = [newline] \<Longrightarrow> to_number (str_int v @ ws) = Inr (num v)"
  shows "read_csv to_number (map csv_line rows) = Inr (map fst rows, map (map num \<circ> snd) rows)"
proof -
  have row: "csv_row to_number (csv_line (label, xs)) = Inr (label, map num xs)" for label xs
    by (rule csv_row_line) (rule assms)
  have "mapE (csv_row to_number) (map csv_line rows) = Inr (map (\<lambda>(l, xs). (l, map num xs)) rows)"
    by (induction rows) (auto simp: row)
  then show ?thesis by (simp add: read_csv_def case_prod_beta comp_def)
qed

section \<open>Accuracy\<close>

text \<open>Whether a vote can be taken depends on the length of the row only.\<close>

lemma vote_length:
  "length row' = length row \<Longrightarrow> vote row m a = Inr x \<Longrightarrow> \<exists>x'. vote row' m a' = Inr x'"
  by (cases m) (auto simp: vote_def py_index_def bindE_eq_Inr split: if_splits)

lemma votes_length:
  "length row' = length row \<Longrightarrow> forE ms (vote row) a = Inr x \<Longrightarrow> \<exists>x'. forE ms (vote row') a' = Inr x'"
proof (induction ms arbitrary: a a')
  case (Cons m ms)
  from Cons.prems(2) obtain a1 where a1: "vote row m a = Inr a1" "forE ms (vote row) a1 = Inr x"
    by (auto simp: bindE_eq_Inr)
  with vote_length [OF Cons.prems(1) a1(1), of a'] Cons.IH [OF Cons.prems(1) a1(2)] show ?case by fastforce
qed simp

lemma accuracy_counts:
  assumes "length label = length data"
    and "\<And>k. k < length data \<Longrightarrow> Judge (data ! k) (label ! k) members = Inr (right k)"
  shows "accuracy data label members = Inr (real (card {k. k < length data \<and> right k}) / real (length data))"
proof -
  let ?f = "\<lambda>(row, label) count. bindE (Judge row label members) (\<lambda>is_correct. Inr (count + (if is_correct then 1 else 0)))"
  have "forE (take n (zip data label)) ?f (0::real) = Inr (real (card {k. k < n \<and> right k}))" if "n \<le> length data" for n
    using that
  proof (induction n)
    case (Suc n)
    have "zip data label ! n = (data ! n, label ! n)" using Suc.prems assms(1) by simp
    moreover have "{k. k < Suc n \<and> right k} = (if right n then insert n {k. k < n \<and> right k} else {k. k < n \<and> right k})"
      by (auto simp: less_Suc_eq)
    ultimately show ?case
      using Suc assms by (simp add: take_Suc_nth [of n "zip data label"] forE_append forE_single)
  qed simp
  from this [of "length data"] show ?thesis using assms(1) by (simp add: accuracy_def)
qed

lemma card_share: "real (card {k. k < n \<and> P k}) / real n \<le> 1"
  using card_mono [of "{k. k < n}" "{k. k < n \<and> P k}"] by (cases "n = 0") auto

lemma two_classes_pm1: "\<forall>y\<in>set (two_classes labels). y = 1 \<or> y = - 1"
  by (auto simp: two_classes_def)

text \<open>
  A trained committee judges every row of the right length, and on its own training rows it is right
  at least as often as the bound of boosting says.
\<close>

lemma trained_accuracy:
  assumes data: "rect n c data" "0 < n" "0 < c" and label: "length label = n" "\<forall>y\<in>set label. y = 1 \<or> y = - 1"
  shows "\<exists>s errs. train data label = Some s \<and> length errs \<le> num_iter \<and>
    map (\<lambda>(i, m, v, alpha). alpha) (classifier s) = map (\<lambda>e. 1 / 2 * ln ((1 - e) / max e (1 / 1000))) errs \<and>
    (\<forall>m rows labels. rect m c rows \<longrightarrow> length labels = m \<longrightarrow>
       (\<exists>a. accuracy rows labels (classifier s) = Inr a \<and> 0 \<le> a \<and> a \<le> 1)) \<and>
    (\<exists>a. accuracy data label (classifier s) = Inr a \<and> 1 - prod_list (map boost_factor errs) \<le> a)"
proof -
  have ne: "data \<noteq> []" and n: "length data = n" using data(1,2) by (auto simp: rect_def)
  then have "counted data (untrained n)" by (simp add: counted_def untrained_def)
  from train_rounds_boosted [OF data(1,3) label boosted_untrained [OF data(2)] this, of num_iter] obtain s errs where
    t: "train data label = Some s" "length errs \<le> num_iter"
    and b: "boosted n label errs s" and cnt: "counted data s"
    using n by (auto simp: train_def)
  have votes: "forE (classifier s) (vote (data ! k)) 0 = Inr (last_pred s ! k)" if "k < n" for k
    using cnt that n by (simp add: counted_def)
  have judged: "\<exists>ok. Judge row y (classifier s) = Inr ok" if "length row = c" for row y
  proof -
    have "length (data ! 0) = c" using data by (simp add: rect_row)
    then show ?thesis using votes_length [OF _ votes [OF data(2)], of row 0] that by (auto simp: Judge_def)
  qed
  have any: "\<exists>a. accuracy rows labels (classifier s) = Inr a \<and> 0 \<le> a \<and> a \<le> 1"
    if rows: "rect m c rows" "length labels = m" for m rows labels
  proof -
    have len: "length rows = m" using rows(1) by (rule rect_length)
    have "\<forall>k. \<exists>ok. k < m \<longrightarrow> Judge (rows ! k) (labels ! k) (classifier s) = Inr ok"
      using judged rect_row [OF rows(1)] by blast
    then obtain right where "\<And>k. k < m \<Longrightarrow> Judge (rows ! k) (labels ! k) (classifier s) = Inr (right k)" by metis
    then show ?thesis using accuracy_counts [of labels rows "classifier s" right] rows(2) len card_share [of m right] by simp
  qed
  let ?wrong = "{k. k < n \<and> last_pred s ! k * label ! k \<le> 0}"
  let ?right = "\<lambda>k. (if last_pred s ! k > 0 then 1 else - 1) = label ! k"
  have "accuracy data label (classifier s) = Inr (real (card {k. k < n \<and> ?right k}) / real n)"
    using accuracy_counts [of label data "classifier s" ?right] label(1) n votes by (simp add: Judge_def)
  moreover have "1 - prod_list (map boost_factor errs) \<le> real (card {k. k < n \<and> ?right k}) / real n"
  proof -
    have "k \<in> ?wrong \<or> ?right k" if "k < n" for k
    proof -
      have "label ! k = 1 \<or> label ! k = - 1" using label that by auto
      then show ?thesis using that by (auto simp: mult_le_0_iff)
    qed
    then have sub: "{..<n} \<subseteq> ?wrong \<union> {k. k < n \<and> ?right k}" by blast
    have "n \<le> card (?wrong \<union> {k. k < n \<and> ?right k})" using card_mono [OF _ sub] by simp
    then have "real n \<le> real (card ?wrong) + real (card {k. k < n \<and> ?right k})"
      using card_Un_le [of ?wrong "{k. k < n \<and> ?right k}"] by linarith
    then have "1 \<le> real (card ?wrong) / real n + real (card {k. k < n \<and> ?right k}) / real n"
      using data(2) by (simp add: add_divide_distrib [symmetric])
    then show ?thesis using boosted_margin [OF b label(1)] by linarith
  qed
  ultimately show ?thesis using t b any unfolding boosted_def by blast
qed

section \<open>Properties\<close>

text \<open>
  C6: on files of whole numbers, every line with a label and as many numbers as the others, the script
  reaches its end without an exception or a number that is not finite: it prints the committee that
  training made, and an accuracy between zero and one; if the test file is the training file, the
  accuracy is at least one less the bound of boosting, for the errors that the members' says stand for.
\<close>

theorem adaboost_prints_accuracy:
  assumes "np_mat_ok np_mat" and "train_rows \<noteq> []" and "test_rows \<noteq> []" and "0 < c"
    and "\<forall>(label, xs)\<in>set (train_rows @ test_rows). length xs = c"
  shows "\<exists>s errs a. train (map (map real_of_int \<circ> snd) train_rows) (two_classes (map fst train_rows)) = Some s \<and>
    adaboost np_mat show_float (map csv_line train_rows) (map csv_line test_rows) =
      Inr (Some (PrintClassifier show_float (classifier s), a)) \<and>
    0 \<le> a \<and> a \<le> 1 \<and> length errs \<le> num_iter \<and>
    map (\<lambda>(i, m, v, alpha). alpha) (classifier s) = map (\<lambda>e. 1 / 2 * ln ((1 - e) / max e (1 / 1000))) errs \<and>
    (test_rows = train_rows \<longrightarrow> 1 - prod_list (map (\<lambda>e. 2 * sqrt (max e (1 / 1000) * (1 - e))) errs) \<le> a)"
proof -
  let ?data = "\<lambda>rows. map (map real_of_int \<circ> snd) rows"
  let ?label = "\<lambda>rows. two_classes (map fst rows)"
  have rect: "rect (length train_rows) c (?data train_rows)" "rect (length test_rows) c (?data test_rows)"
    using assms(5) by (auto simp: rect_def)
  have label: "length (?label rows) = length rows" for rows :: "(int \<times> int list) list"
    by (simp add: two_classes_def)
  have ne: "0 < length train_rows" "0 < length test_rows" using assms(2,3) by simp_all
  have train_file: "read_csv py_float (map csv_line train_rows) =
      Inr (map fst train_rows, map (map (\<lambda>v. Some (real_of_int v)) \<circ> snd) train_rows)"
    by (rule read_csv_lines) (rule py_float_word)
  have test_file: "read_csv py3_int (map csv_line test_rows) = Inr (map fst test_rows, map snd test_rows)"
    using read_csv_lines [where to_number = py3_int and num = "\<lambda>v. v" and rows = test_rows] py3_int_word
    by (simp add: comp_def)
  have finite: "finite_rows (map (map (\<lambda>v. Some (real_of_int v)) \<circ> snd) train_rows) = Some (?data train_rows)"
    by (simp add: finite_rows_def list_all_iff)
  have mat: "np_mat (?data train_rows) = Inr (?data train_rows)" "np_mat (?data test_rows) = Inr (?data test_rows)"
    using assms(1,4) ne rect unfolding np_mat_ok_def by blast+
  from trained_accuracy [OF rect(1) ne(1) assms(4) label two_classes_pm1] obtain s errs where
    s: "train (?data train_rows) (?label train_rows) = Some s" "length errs \<le> num_iter"
      "map (\<lambda>(i, m, v, alpha). alpha) (classifier s) = map (\<lambda>e. 1 / 2 * ln ((1 - e) / max e (1 / 1000))) errs"
    and any: "\<exists>a. accuracy (?data test_rows) (?label test_rows) (classifier s) = Inr a \<and> 0 \<le> a \<and> a \<le> 1"
    and own: "\<exists>a. accuracy (?data train_rows) (?label train_rows) (classifier s) = Inr a \<and> 1 - prod_list (map boost_factor errs) \<le> a"
    using rect(2) label by blast
  from any obtain a where a: "accuracy (?data test_rows) (?label test_rows) (classifier s) = Inr a" "0 \<le> a" "a \<le> 1"
    by blast
  have "adaboost np_mat show_float (map csv_line train_rows) (map csv_line test_rows) =
      Inr (Some (PrintClassifier show_float (classifier s), a))"
    using s(1) a(1) mat by (simp add: adaboost_def train_file test_file finite)
  moreover have "test_rows = train_rows \<longrightarrow> 1 - prod_list (map boost_factor errs) \<le> a" using own a(1) by auto
  ultimately show ?thesis
    using s a(2,3) unfolding boost_factor_def [abs_def] by blast
qed

theorem adaboost_prints_accuracy_witness:
  "\<exists>s a. train [[3], [- 2]] [1, - 1] = Some s \<and>
    adaboost Inr (\<lambda>x. ''x'') [''1,3'' @ [newline], ''7,-2'' @ [newline]] [''0,5'' @ [newline]] =
      Inr (Some (PrintClassifier (\<lambda>x. ''x'') (classifier s), a)) \<and> 0 \<le> a \<and> a \<le> 1"
proof -
  have "np_mat_ok Inr" by (simp add: np_mat_ok_def)
  note run = adaboost_prints_accuracy [OF this, of "[(1, [3]), (7, [- 2])]" "[(0, [5])]" 1 "\<lambda>x. ''x''"]
  have "csv_line (1, [3]) = ''1,3'' @ [newline]" "csv_line (7, [- 2]) = ''7,-2'' @ [newline]" "csv_line (0, [5]) = ''0,5'' @ [newline]"
    by code_simp+
  moreover have "two_classes [1, 7] = [1, - 1]" by (simp add: two_classes_def)
  ultimately show ?thesis using run by simp blast
qed

end
