(* ===== verification/Net_Scripts.thy ===== *)
theory Net_Scripts
  imports Backprop_Gradient Matrix_Net
begin

text \<open>
  What the two network scripts do when they are run: \<open>manu_nn.py\<close> trains a network on its data set, prints
  the layers and predicts the class of each test row; \<open>nick_nn_2_3.py\<close> makes a \<open>fullNN\<close> for the same
  rows and runs it.
\<close>

section \<open>The data\<close>

definition dataset :: "real data_row list" where
  "dataset =
     [([2.7810836, 2.550537003], 0),
      ([3.396561688, 4.400293529], 0),
      ([1.38807019, 1.850220317], 0),
      ([3.06407232, 3.005305973], 0),
      ([7.627531214, 2.759262235], 1),
      ([5.332441248, 2.088626775], 1),
      ([6.922596716, 1.77106367], 1)]"

definition test_data :: "real data_row list" where
  "test_data =
     [([1.465489372, 2.362125076], 0),
      ([8.675418651, - 0.242068655], 1),
      ([7.673756466, 3.508563011], 1)]"

section \<open>The script of the back-propagation network\<close>

text \<open>The epochs that were printed, the network that is printed, and each test row's class with its prediction.\<close>

definition manu_nn ::
  "(real \<Rightarrow> real result) \<Rightarrow> (nat \<Rightarrow> real) \<Rightarrow> real data_row list \<Rightarrow> real data_row list
     \<Rightarrow> ((nat \<times> real \<times> real) list \<times> real network \<times> (int \<times> nat) list) result" where
  "manu_nn expf rnd rows tests =
     bindE (py_index rows 0) (\<lambda>row.
     let n_inputs = length (row_of row) - 1;
         n_outputs = length (remdups (map snd rows));
         network = initialize_network rnd n_inputs 2 n_outputs
     in bindE (train_network expf network rows (1 / 2) 20 n_outputs) (\<lambda>(network, printed).
        bindE (mapE (\<lambda>row. bindE (predict expf network (row_of row)) (\<lambda>result. Inr (snd row, result))) tests) (\<lambda>results.
        Inr (printed, network, results))))"

section \<open>The script of the matrix network\<close>

definition datalabel :: "real list list" where
  "datalabel = map (\<lambda>(features, cls). [of_int cls]) dataset"

definition nick_nn ::
  "(real \<Rightarrow> real result) \<Rightarrow> (real list list \<Rightarrow> nat \<times> nat) \<Rightarrow> (nat \<Rightarrow> real) \<Rightarrow> (real fullNN \<times> real list) result" where
  "nick_nn expf np_shape rnd =
     bindE (init_fullNN expf np_shape rnd [2, 2, 1] (map fst dataset) datalabel (1 / 100) 10) (run_fullNN expf np_shape)"

text \<open>
  The matrix network is built and run for its ten epochs, with the sizes the script gives it, unless
  \<open>math.exp\<close> overflows.
\<close>

lemma nick_nn_runs:
  assumes "np_shape_ok np_shape"
  shows "safe (\<lambda>(s, losses). trained 7 [2, 2, 1] s \<and> length losses = 10) (nick_nn math_exp np_shape rnd)"
proof -
  have "rect 7 2 (map fst dataset)" "rect 7 1 datalabel"
    by (auto simp: rect_def dataset_def datalabel_def)
  then show ?thesis using fullNN_safe [OF assms, of "[2, 2, 1]" 7] by (simp add: nick_nn_def)
qed

lemma row_of_length: "length (row_of row) = length (fst row) + 1"
  by (cases row) (simp add: row_of_def)

section \<open>Properties\<close>

text \<open>
  C25: the script of the back-propagation network runs to its end on every data set whose rows have
  one length and whose classes are numbered from zero without a gap, whatever the random numbers, unless
  \<open>math.exp\<close> overflows: it prints twenty epochs and the two layers, of two neurons with a weight for each
  input and one more, and of one neuron for each class, and for each test row predicts one of the classes.
\<close>

theorem manu_nn_runs:
  assumes "rows \<noteq> []" and "\<forall>row\<in>set (rows @ tests). length (fst row) = n" and "set (map snd rows) = {0..<int k}"
  shows "case manu_nn math_exp rnd rows tests of
      Inl e \<Rightarrow> e = OverflowError
    | Inr (printed, network, results) \<Rightarrow> length printed = 20 \<and>
        shape network = [replicate 2 (n + 1), replicate k 3] \<and>
        list_all2 (\<lambda>row (expected, result). expected = snd row \<and> int result \<in> set (map snd rows)) tests results"
proof -
  obtain row where row: "py_index rows 0 = Inr row" "row \<in> set rows"
    using assms(1) py_index_nat [of 0 rows] by fastforce
  then have n: "length (row_of row) - 1 = n" using assms(2) by (simp add: row_of_length)
  have "card (set (map snd rows)) = k" unfolding assms(3) by simp
  then have k: "length (remdups (map snd rows)) = k" by (simp add: length_remdups_card_conv)
  have "0 < k" using assms(1,3) by (cases k) auto
  let ?net = "initialize_network rnd n 2 k"
  have net: "fits n ?net" "?net \<noteq> []" "length (last ?net) = k"
    unfolding fits_iff_widths shape_initial by (simp_all add: list_all_iff initialize_network_def random_layer_def)
  have "row_ok n k row" if "row \<in> set rows" for row
  proof -
    have "snd row \<in> {0..<int k}" using that assms(3) by (metis image_eqI list.set_map)
    moreover have "length (fst row) = n" using assms(2) that by simp
    ultimately show ?thesis by (simp add: row_ok_def case_prod_beta)
  qed
  then have trained: "safe (\<lambda>(net', lines). shape net' = shape ?net \<and> length lines = 20) (train_network math_exp ?net rows (1 / 2) 20 k)"
    by (intro py_exp.train_network_safe [OF net]) blast
  have "safe (\<lambda>(printed, network, results). length printed = 20 \<and> shape network = shape ?net \<and>
      list_all2 (\<lambda>row (expected, result). expected = snd row \<and> int result \<in> set (map snd rows)) tests results)
    (manu_nn math_exp rnd rows tests)"
    unfolding manu_nn_def row(1) bindE_simps Let_def n k
  proof (rule safe_bindE [OF trained])
    fix p :: "real network \<times> (nat \<times> real \<times> real) list"
    assume "case p of (net', lines) \<Rightarrow> shape net' = shape ?net \<and> length lines = 20"
    then obtain net' lines where p: "p = (net', lines)" and sh: "shape net' = shape ?net" and len: "length lines = 20"
      by (cases p) auto
    have "net' \<noteq> []" using sh net(2) by (auto simp: shape_def)
    moreover have len': "length (last net') = k"
      using sh net(2,3) \<open>net' \<noteq> []\<close> by (metis shape_def last_map length_map)
    moreover have "fits n net'" using fits_shape [OF sh] net(1) by simp
    moreover have "last net' \<noteq> []" using len' \<open>0 < k\<close> by auto
    ultimately have one: "safe (\<lambda>i. i < k) (predict math_exp net' (row_of row))" if "row \<in> set tests" for row
      using py_exp.predict_safe [of n net' "row_of row"] that assms(2) by (simp add: row_of_length)
    have "safe (list_all2 (\<lambda>row (expected, result). expected = snd row \<and> int result \<in> set (map snd rows)) tests)
        (mapE (\<lambda>row. bindE (predict math_exp net' (row_of row)) (\<lambda>result. Inr (snd row, result))) tests)"
      by (rule safe_mapE, rule safe_bindE [OF one]) (use assms(3) in auto)
    then show "safe (\<lambda>(printed, network, results). length printed = 20 \<and> shape network = shape ?net \<and>
        list_all2 (\<lambda>row (expected, result). expected = snd row \<and> int result \<in> set (map snd rows)) tests results)
      (case p of (network, printed) \<Rightarrow>
        bindE (mapE (\<lambda>row. bindE (predict math_exp network (row_of row)) (\<lambda>result. Inr (snd row, result))) tests)
          (\<lambda>results. Inr (printed, network, results)))"
      unfolding p prod.case by (rule safe_bindE) (simp add: sh len)
  qed
  then show ?thesis unfolding shape_initial by (simp add: safe_def split: sum.splits prod.splits)
qed

theorem manu_nn_runs_witness:
  "case manu_nn math_exp (\<lambda>i. 1 / of_nat (i + 1)) dataset test_data of
      Inl e \<Rightarrow> e = OverflowError
    | Inr (printed, network, results) \<Rightarrow> length printed = 20 \<and> shape network = [replicate 2 (2 + 1), replicate 2 3] \<and>
        list_all2 (\<lambda>row (expected, result). expected = snd row \<and> int result \<in> set (map snd dataset)) test_data results"
proof (rule manu_nn_runs)
  show "dataset \<noteq> []" by (simp add: dataset_def)
  show "\<forall>row\<in>set (dataset @ test_data). length (fst row) = 2" by (auto simp: dataset_def test_data_def)
  show "set (map snd dataset) = {0..<int 2}" by (auto simp: dataset_def)
qed

end
