(* ===== verification/Keras_Nets.thy ===== *)
theory Keras_Nets
  imports Py_String Complex_Main
begin

text \<open>
  The networks of \<open>python/gan/gan.py\<close> and \<open>python/nn/\<close> as they are put together: a network is an
  input shape and a list of layers. What a layer makes of a shape is Keras's, so it is an argument,
  \<open>out_shape\<close>, with the documented behaviour of the layers as its contract; a shape leaves out the
  batch, and a layer the settings that only bear on its training. With it comes the sharing of networks
  in \<open>DCGAN\<close>, whose objects are places of a store.
\<close>

section \<open>Layers\<close>

datatype padding = Same | Valid

datatype layer =
    Conv2D nat "nat \<times> nat" nat padding
  | Conv2DTranspose nat "nat \<times> nat" padding
  | MaxPooling2D "nat \<times> nat"
  | UpSampling2D
  | Dense nat
  | LSTM nat
  | Flatten
  | Reshape "nat list"
  | Activation string
  | LeakyReLU rat
  | Dropout rat
  | BatchNormalization

text \<open>Where the channels are: the image ordering \<open>tf\<close> has them last, \<open>th\<close> first.\<close>

datatype dim_ordering = TF | TH

fun image :: "dim_ordering \<Rightarrow> nat \<Rightarrow> nat \<Rightarrow> nat \<Rightarrow> nat list" where
  "image TF r c d = [r, c, d]"
| "image TH r c d = [d, r, c]"

record network_plan =
  input_shape :: "nat list"
  layers :: "layer list"

section \<open>The networks\<close>

definition gan_discriminator :: "nat \<Rightarrow> nat \<Rightarrow> nat \<Rightarrow> network_plan" where
  "gan_discriminator img_rows img_cols channel =
     (let depth = 64; dropout = 2 / 5 in
      \<lparr> input_shape = [img_rows, img_cols, channel],
        layers = [Conv2D (depth * 1) (5, 5) 2 Same, LeakyReLU (1 / 5), Dropout dropout,
                  Conv2D (depth * 2) (5, 5) 2 Same, LeakyReLU (1 / 5), Dropout dropout,
                  Conv2D (depth * 4) (5, 5) 2 Same, LeakyReLU (1 / 5), Dropout dropout,
                  Conv2D (depth * 8) (5, 5) 1 Same, LeakyReLU (1 / 5), Dropout dropout,
                  Flatten, Dense 1, Activation ''sigmoid''] \<rparr>)"

definition gan_generator :: network_plan where
  "gan_generator =
     (let dropout = 2 / 5; depth = 64 + 64 + 64 + 64; dim = 7 in
      \<lparr> input_shape = [100],
        layers = [Dense (dim * dim * depth), BatchNormalization, Activation ''relu'', Reshape [dim, dim, depth], Dropout dropout,
                  UpSampling2D, Conv2DTranspose (depth div 2) (5, 5) Same, BatchNormalization, Activation ''relu'',
                  UpSampling2D, Conv2DTranspose (depth div 4) (5, 5) Same, BatchNormalization, Activation ''relu'',
                  Conv2DTranspose (depth div 8) (5, 5) Same, BatchNormalization, Activation ''relu'',
                  Conv2DTranspose 1 (5, 5) Same, Activation ''sigmoid''] \<rparr>)"

definition createLeNet :: "nat list \<Rightarrow> nat \<Rightarrow> network_plan" where
  "createLeNet in_shape nb_class =
     (let feature_layers = [Conv2D 20 (5, 5) 1 Same, Activation ''relu'', MaxPooling2D (2, 2),
            Conv2D 50 (5, 5) 1 Same, Activation ''relu'', MaxPooling2D (2, 2), Flatten];
          classification_layers = [Dense 500, Activation ''relu'', Dense nb_class, Activation ''softmax'']
      in \<lparr> input_shape = in_shape, layers = feature_layers @ classification_layers \<rparr>)"

definition cnn :: "dim_ordering \<Rightarrow> network_plan" where
  "cnn dims =
     (let img_rows = 28; img_cols = 28;
          in_shape = (if dims = TH then [1, img_rows, img_cols] else [img_rows, img_cols, 1])
      in \<lparr> input_shape = in_shape,
           layers = [Conv2D 25 (3, 3) 1 Valid, MaxPooling2D (2, 2),
                     Conv2D 128 (4, 4) 1 Valid, MaxPooling2D (2, 2),
                     Flatten,
                     Dense 100, Activation ''relu'',
                     Dense 10, Activation ''softmax''] \<rparr>)"

definition dnn :: network_plan where
  "dnn = \<lparr> input_shape = [1, 784],
     layers = [Dense 600, Activation ''relu'', Dense 300, Activation ''relu'', Dense 100, Activation ''relu'',
               Dense 10, Activation ''softmax''] \<rparr>"

definition kaggle_mnist :: network_plan where
  "kaggle_mnist = \<lparr> input_shape = [28, 28, 1],
     layers = [Conv2D 25 (3, 3) 1 Valid, MaxPooling2D (2, 2), BatchNormalization,
               Flatten,
               Dense 100, Activation ''relu'', BatchNormalization,
               Dense 10, Activation ''softmax''] \<rparr>"

section \<open>The contract of the layers\<close>

type_synonym shape_function = "dim_ordering \<Rightarrow> layer \<Rightarrow> nat list \<Rightarrow> nat list option"

fun extent :: "padding \<Rightarrow> nat \<Rightarrow> nat \<Rightarrow> nat \<Rightarrow> nat" where
  "extent Same k s n = (n + s - 1) div s"
| "extent Valid k s n = (n - k) div s + 1"

text \<open>What the documentation of Keras says of each layer the networks use.\<close>

definition documented :: "shape_function \<Rightarrow> bool" where
  "documented out_shape \<longleftrightarrow>
     (\<forall>dims r c d f kr kc s p. 0 < s \<longrightarrow> p = Same \<or> kr \<le> r \<and> kc \<le> c \<longrightarrow>
        out_shape dims (Conv2D f (kr, kc) s p) (image dims r c d) =
          Some (image dims (extent p kr s r) (extent p kc s c) f)) \<and>
     (\<forall>dims r c d f k. out_shape dims (Conv2DTranspose f k Same) (image dims r c d) = Some (image dims r c f)) \<and>
     (\<forall>dims r c d pr pc. 0 < pr \<longrightarrow> 0 < pc \<longrightarrow> pr \<le> r \<longrightarrow> pc \<le> c \<longrightarrow>
        out_shape dims (MaxPooling2D (pr, pc)) (image dims r c d) = Some (image dims (r div pr) (c div pc) d)) \<and>
     (\<forall>dims r c d. out_shape dims UpSampling2D (image dims r c d) = Some (image dims (2 * r) (2 * c) d)) \<and>
     (\<forall>dims n ns m. out_shape dims (Dense n) (ns @ [m]) = Some (ns @ [n])) \<and>
     (\<forall>dims n steps features. out_shape dims (LSTM n) [steps, features] = Some [n]) \<and>
     (\<forall>dims ns. ns \<noteq> [] \<longrightarrow> out_shape dims Flatten ns = Some [prod_list ns]) \<and>
     (\<forall>dims ns ms. prod_list ms = prod_list ns \<longrightarrow> out_shape dims (Reshape ms) ns = Some ms) \<and>
     (\<forall>dims l ns. (\<exists>a. l = Activation a) \<or> (\<exists>x. l = LeakyReLU x) \<or> (\<exists>x. l = Dropout x) \<or> l = BatchNormalization \<longrightarrow>
        out_shape dims l ns = Some ns)"

fun shape_after :: "shape_function \<Rightarrow> dim_ordering \<Rightarrow> layer list \<Rightarrow> nat list \<Rightarrow> nat list option" where
  "shape_after out_shape dims [] ns = Some ns"
| "shape_after out_shape dims (l # ls) ns =
     (case out_shape dims l ns of None \<Rightarrow> None | Some ms \<Rightarrow> shape_after out_shape dims ls ms)"

text \<open>The shape of the output of a network.\<close>

definition output_shape :: "shape_function \<Rightarrow> dim_ordering \<Rightarrow> network_plan \<Rightarrow> nat list option" where
  "output_shape out_shape dims m = shape_after out_shape dims (layers m) (input_shape m)"

lemma documentedD:
  assumes "documented out_shape"
  shows "0 < s \<Longrightarrow> out_shape TF (Conv2D f (kr, kc) s Same) [r, c, d] = Some [(r + s - 1) div s, (c + s - 1) div s, f]"
    and "0 < s \<Longrightarrow> out_shape TH (Conv2D f (kr, kc) s Same) [d, r, c] = Some [f, (r + s - 1) div s, (c + s - 1) div s]"
    and "0 < s \<Longrightarrow> kr \<le> r \<Longrightarrow> kc \<le> c \<Longrightarrow>
      out_shape TF (Conv2D f (kr, kc) s Valid) [r, c, d] = Some [(r - kr) div s + 1, (c - kc) div s + 1, f]"
    and "0 < s \<Longrightarrow> kr \<le> r \<Longrightarrow> kc \<le> c \<Longrightarrow>
      out_shape TH (Conv2D f (kr, kc) s Valid) [d, r, c] = Some [f, (r - kr) div s + 1, (c - kc) div s + 1]"
    and "out_shape TF (Conv2DTranspose f k Same) [r, c, d] = Some [r, c, f]"
    and "0 < pr \<Longrightarrow> 0 < pc \<Longrightarrow> pr \<le> r \<Longrightarrow> pc \<le> c \<Longrightarrow> out_shape TF (MaxPooling2D (pr, pc)) [r, c, d] = Some [r div pr, c div pc, d]"
    and "0 < pr \<Longrightarrow> 0 < pc \<Longrightarrow> pr \<le> r \<Longrightarrow> pc \<le> c \<Longrightarrow> out_shape TH (MaxPooling2D (pr, pc)) [d, r, c] = Some [d, r div pr, c div pc]"
    and "out_shape TF UpSampling2D [r, c, d] = Some [2 * r, 2 * c, d]"
    and "out_shape dims (Dense n) [m] = Some [n]"
    and "out_shape dims (Dense n) [q, m] = Some [q, n]"
    and "out_shape dims (LSTM n) [q, m] = Some [n]"
    and "out_shape dims Flatten [x, y, z] = Some [x * y * z]"
    and "prod_list ms = prod_list ns \<Longrightarrow> out_shape dims (Reshape ms) ns = Some ms"
    and "out_shape dims (Activation a) ns = Some ns"
    and "out_shape dims (LeakyReLU v) ns = Some ns"
    and "out_shape dims (Dropout v) ns = Some ns"
    and "out_shape dims BatchNormalization ns = Some ns"
proof -
  note d = assms [unfolded documented_def]
  note conv = d [THEN conjunct1, rule_format]
  show "0 < s \<Longrightarrow> out_shape TF (Conv2D f (kr, kc) s Same) [r, c, d] = Some [(r + s - 1) div s, (c + s - 1) div s, f]"
    using conv [of s Same kr r kc c TF f d] by simp
  show "0 < s \<Longrightarrow> out_shape TH (Conv2D f (kr, kc) s Same) [d, r, c] = Some [f, (r + s - 1) div s, (c + s - 1) div s]"
    using conv [of s Same kr r kc c TH f d] by simp
  show "0 < s \<Longrightarrow> kr \<le> r \<Longrightarrow> kc \<le> c \<Longrightarrow>
      out_shape TF (Conv2D f (kr, kc) s Valid) [r, c, d] = Some [(r - kr) div s + 1, (c - kc) div s + 1, f]"
    using conv [of s Valid kr r kc c TF f d] by simp
  show "0 < s \<Longrightarrow> kr \<le> r \<Longrightarrow> kc \<le> c \<Longrightarrow>
      out_shape TH (Conv2D f (kr, kc) s Valid) [d, r, c] = Some [f, (r - kr) div s + 1, (c - kc) div s + 1]"
    using conv [of s Valid kr r kc c TH f d] by simp
  note d = d [THEN conjunct2]
  show "out_shape TF (Conv2DTranspose f k Same) [r, c, d] = Some [r, c, f]"
    using d [THEN conjunct1, rule_format, of TF f k r c d] by simp
  note d = d [THEN conjunct2]
  show "0 < pr \<Longrightarrow> 0 < pc \<Longrightarrow> pr \<le> r \<Longrightarrow> pc \<le> c \<Longrightarrow> out_shape TF (MaxPooling2D (pr, pc)) [r, c, d] = Some [r div pr, c div pc, d]"
    using d [THEN conjunct1, rule_format, of pr pc r c TF d] by simp
  show "0 < pr \<Longrightarrow> 0 < pc \<Longrightarrow> pr \<le> r \<Longrightarrow> pc \<le> c \<Longrightarrow> out_shape TH (MaxPooling2D (pr, pc)) [d, r, c] = Some [d, r div pr, c div pc]"
    using d [THEN conjunct1, rule_format, of pr pc r c TH d] by simp
  note d = d [THEN conjunct2]
  show "out_shape TF UpSampling2D [r, c, d] = Some [2 * r, 2 * c, d]"
    using d [THEN conjunct1, rule_format, of TF r c d] by simp
  note d = d [THEN conjunct2]
  show "out_shape dims (Dense n) [m] = Some [n]" "out_shape dims (Dense n) [q, m] = Some [q, n]"
    using d [THEN conjunct1, rule_format, of dims n "[]" m] d [THEN conjunct1, rule_format, of dims n "[q]" m] by simp_all
  note d = d [THEN conjunct2]
  show "out_shape dims (LSTM n) [q, m] = Some [n]" by (rule d [THEN conjunct1, rule_format])
  note d = d [THEN conjunct2]
  show "out_shape dims Flatten [x, y, z] = Some [x * y * z]"
    using d [THEN conjunct1, rule_format, of "[x, y, z]" dims] by (simp add: mult.assoc)
  note d = d [THEN conjunct2]
  show "prod_list ms = prod_list ns \<Longrightarrow> out_shape dims (Reshape ms) ns = Some ms"
    by (rule d [THEN conjunct1, rule_format])
  note d = d [THEN conjunct2, rule_format]
  show "out_shape dims (Activation a) ns = Some ns" "out_shape dims (LeakyReLU v) ns = Some ns"
    "out_shape dims (Dropout v) ns = Some ns" "out_shape dims BatchNormalization ns = Some ns"
    by (rule d; simp)+
qed

text \<open>
  Under the documented behaviour of the layers every network takes the images it is made for, no
  layer refusing its input, and gives what its training compares: the generator makes an image that the
  discriminator takes, the discriminator makes one number, and the classifiers make one number for each
  class, whichever way the images are ordered.
\<close>

theorem networks_fit:
  assumes "documented out_shape"
  shows "output_shape out_shape TF gan_generator = Some (input_shape (gan_discriminator 28 28 1)) \<and>
    output_shape out_shape TF (gan_discriminator 28 28 1) = Some [1] \<and>
    output_shape out_shape dims (cnn dims) = Some [10] \<and>
    output_shape out_shape TH (createLeNet [1, 28, 28] nb_class) = Some [nb_class] \<and>
    output_shape out_shape dims dnn = Some [1, 10] \<and>
    output_shape out_shape TF kaggle_mnist = Some [10]"
proof -
  note layer = documentedD [OF assms]
  have "output_shape out_shape TF gan_generator = Some (input_shape (gan_discriminator 28 28 1))"
    by (simp add: output_shape_def gan_generator_def gan_discriminator_def Let_def layer)
  moreover have "output_shape out_shape TF (gan_discriminator 28 28 1) = Some [1]"
    by (simp add: output_shape_def gan_discriminator_def Let_def layer)
  moreover have "output_shape out_shape dims (cnn dims) = Some [10]"
    by (cases dims) (simp_all add: output_shape_def cnn_def Let_def layer)
  moreover have "output_shape out_shape TH (createLeNet [1, 28, 28] nb_class) = Some [nb_class]"
    by (simp add: output_shape_def createLeNet_def Let_def layer)
  moreover have "output_shape out_shape dims dnn = Some [1, 10]"
    by (simp add: output_shape_def dnn_def layer)
  moreover have "output_shape out_shape TF kaggle_mnist = Some [10]"
    by (simp add: output_shape_def kaggle_mnist_def layer)
  ultimately show ?thesis by blast
qed

text \<open>A shape function that meets the contract.\<close>

definition on_image :: "dim_ordering \<Rightarrow> (nat \<Rightarrow> nat \<Rightarrow> nat \<Rightarrow> nat list option) \<Rightarrow> nat list \<Rightarrow> nat list option" where
  "on_image dims f ns = (case ns of
     [x, y, z] \<Rightarrow> (case dims of TF \<Rightarrow> f x y z | TH \<Rightarrow> f y z x)
   | _ \<Rightarrow> None)"

lemma on_image_image [simp]: "on_image dims f (image dims r c d) = f r c d"
  by (cases dims) (simp_all add: on_image_def)

definition sample_shape :: shape_function where
  "sample_shape dims l ns = (case l of
     Conv2D f (kr, kc) s p \<Rightarrow> on_image dims (\<lambda>r c d. Some (image dims (extent p kr s r) (extent p kc s c) f)) ns
   | Conv2DTranspose f k p \<Rightarrow> on_image dims (\<lambda>r c d. Some (image dims r c f)) ns
   | MaxPooling2D (pr, pc) \<Rightarrow> on_image dims (\<lambda>r c d. Some (image dims (r div pr) (c div pc) d)) ns
   | UpSampling2D \<Rightarrow> on_image dims (\<lambda>r c d. Some (image dims (2 * r) (2 * c) d)) ns
   | Dense n \<Rightarrow> if ns = [] then None else Some (butlast ns @ [n])
   | LSTM n \<Rightarrow> if length ns = 2 then Some [n] else None
   | Flatten \<Rightarrow> Some [prod_list ns]
   | Reshape ms \<Rightarrow> if prod_list ms = prod_list ns then Some ms else None
   | _ \<Rightarrow> Some ns)"

lemma sample_shape_documented: "documented sample_shape"
  by (auto simp: documented_def sample_shape_def)

theorem networks_fit_witness:
  "output_shape sample_shape TF gan_generator = Some (input_shape (gan_discriminator 28 28 1)) \<and>
   output_shape sample_shape TF (cnn TF) = Some [10]"
  using networks_fit [OF sample_shape_documented, of TF 10] by blast

section \<open>The objects of DCGAN\<close>

text \<open>
  A network object is a place in the store; a \<open>Sequential\<close> is a plan or a sequence of other objects.
  The four attributes are \<open>None\<close> until the method of their name is called. \<open>compiled\<close> lists the
  objects that were compiled.
\<close>

datatype sequential = Plan network_plan | Parts "nat list"

record dcgan =
  img_rows :: nat
  img_cols :: nat
  channel :: nat
  store :: "sequential list"
  compiled :: "nat list"
  D :: "nat option"
  G :: "nat option"
  AM :: "nat option"
  DM :: "nat option"

definition new_dcgan :: dcgan where
  "new_dcgan = \<lparr> img_rows = 28, img_cols = 28, channel = 1, store = [], compiled = [], D = None, G = None, AM = None, DM = None \<rparr>"

definition discriminator :: "dcgan \<Rightarrow> nat \<times> dcgan" where
  "discriminator s = (case D s of
     Some d \<Rightarrow> (d, s)
   | None \<Rightarrow> let d = length (store s)
             in (d, s\<lparr>store := store s @ [Plan (gan_discriminator (img_rows s) (img_cols s) (channel s))], D := Some d\<rparr>))"

definition generator :: "dcgan \<Rightarrow> nat \<times> dcgan" where
  "generator s = (case G s of
     Some g \<Rightarrow> (g, s)
   | None \<Rightarrow> let g = length (store s) in (g, s\<lparr>store := store s @ [Plan gan_generator], G := Some g\<rparr>))"

text \<open>\<open>Sequential()\<close>, then \<open>add\<close> of the parts, one after the other, then \<open>compile\<close>.\<close>

definition add_part :: "nat \<Rightarrow> nat \<Rightarrow> dcgan \<Rightarrow> dcgan" where
  "add_part m part s = s\<lparr>store := (store s)[m := (case store s ! m of Parts ps \<Rightarrow> Parts (ps @ [part]) | Plan p \<Rightarrow> Plan p)]\<rparr>"

definition discriminator_model :: "dcgan \<Rightarrow> nat \<times> dcgan" where
  "discriminator_model s = (case DM s of
     Some m \<Rightarrow> (m, s)
   | None \<Rightarrow>
       (let m = length (store s);
            s = s\<lparr>store := store s @ [Parts []], DM := Some m\<rparr>;
            (d, s) = discriminator s;
            s = add_part m d s
        in (m, s\<lparr>compiled := compiled s @ [m]\<rparr>)))"

definition adversarial_model :: "dcgan \<Rightarrow> nat \<times> dcgan" where
  "adversarial_model s = (case AM s of
     Some m \<Rightarrow> (m, s)
   | None \<Rightarrow>
       (let m = length (store s);
            s = s\<lparr>store := store s @ [Parts []], AM := Some m\<rparr>;
            (g, s) = generator s;
            s = add_part m g s;
            (d, s) = discriminator s;
            s = add_part m d s
        in (m, s\<lparr>compiled := compiled s @ [m]\<rparr>)))"

datatype dcgan_call = Call_discriminator | Call_generator | Call_discriminator_model | Call_adversarial_model

definition call_dcgan :: "dcgan_call \<Rightarrow> dcgan \<Rightarrow> dcgan" where
  "call_dcgan c s = snd (case c of
     Call_discriminator \<Rightarrow> discriminator s
   | Call_generator \<Rightarrow> generator s
   | Call_discriminator_model \<Rightarrow> discriminator_model s
   | Call_adversarial_model \<Rightarrow> adversarial_model s)"

text \<open>
  Between the calls each attribute that is set names its own object, the two models are made of the one
  discriminator and the one generator, and nothing else is in the store.
\<close>

definition dcgan_ok :: "dcgan \<Rightarrow> bool" where
  "dcgan_ok s \<longleftrightarrow> img_rows s = 28 \<and> img_cols s = 28 \<and> channel s = 1 \<and>
     (\<forall>d. D s = Some d \<longrightarrow> d < length (store s) \<and> store s ! d = Plan (gan_discriminator 28 28 1)) \<and>
     (\<forall>g. G s = Some g \<longrightarrow> g < length (store s) \<and> store s ! g = Plan gan_generator) \<and>
     (\<forall>m. DM s = Some m \<longrightarrow> m < length (store s) \<and> (\<exists>d. D s = Some d \<and> store s ! m = Parts [d])) \<and>
     (\<forall>m. AM s = Some m \<longrightarrow> m < length (store s) \<and> (\<exists>d g. D s = Some d \<and> G s = Some g \<and> store s ! m = Parts [g, d])) \<and>
     length (store s) = length (filter (\<lambda>x. x \<noteq> None) [D s, G s, DM s, AM s]) \<and>
     set (compiled s) = set_option (DM s) \<union> set_option (AM s)"

lemma adversarial_model_new:
  assumes "AM s = None"
  defines "m \<equiv> length (store s)"
  defines "g \<equiv> (case G s of Some g \<Rightarrow> g | None \<Rightarrow> m + 1)"
  defines "d \<equiv> (case D s of Some d \<Rightarrow> d | None \<Rightarrow> if G s = None then m + 2 else m + 1)"
  shows "adversarial_model s = (m, s\<lparr>
    store := store s @ Parts [g, d] # (if G s = None then [Plan gan_generator] else []) @
      (if D s = None then [Plan (gan_discriminator (img_rows s) (img_cols s) (channel s))] else []),
    AM := Some m, G := Some g, D := Some d, compiled := compiled s @ [m]\<rparr>)"
  using assms(1) unfolding m_def g_def d_def
  by (cases s; cases "G s"; cases "D s")
    (simp_all add: adversarial_model_def generator_def discriminator_def add_part_def nth_append list_update_append Let_def)

lemma discriminator_model_new:
  assumes "DM s = None"
  defines "m \<equiv> length (store s)"
  defines "d \<equiv> (case D s of Some d \<Rightarrow> d | None \<Rightarrow> m + 1)"
  shows "discriminator_model s = (m, s\<lparr>
    store := store s @ Parts [d] #
      (if D s = None then [Plan (gan_discriminator (img_rows s) (img_cols s) (channel s))] else []),
    DM := Some m, D := Some d, compiled := compiled s @ [m]\<rparr>)"
  using assms(1) unfolding m_def d_def
  by (cases s; cases "D s")
    (simp_all add: discriminator_model_def discriminator_def add_part_def nth_append list_update_append Let_def)

lemma dcgan_ok_discriminator:
  assumes "DM s = None" and "dcgan_ok s"
  shows "dcgan_ok (snd (discriminator_model s))"
  unfolding discriminator_model_new [OF assms(1)] using assms unfolding dcgan_ok_def snd_conv
  by (cases "G s"; cases "D s"; cases "AM s") (intro conjI, simp_all add: nth_append insert_commute)+

lemma dcgan_ok_adversarial:
  assumes "AM s = None" and "dcgan_ok s"
  shows "dcgan_ok (snd (adversarial_model s))"
  unfolding adversarial_model_new [OF assms(1)] using assms unfolding dcgan_ok_def snd_conv
  by (cases "G s"; cases "D s"; cases "DM s") (intro conjI, simp_all add: nth_append)+

lemma dcgan_ok_call: "dcgan_ok s \<Longrightarrow> dcgan_ok (call_dcgan c s)"
proof -
  assume ok: "dcgan_ok s"
  show ?thesis
  proof (cases c)
    case Call_discriminator
    then show ?thesis using ok
      by (auto simp: call_dcgan_def discriminator_def dcgan_ok_def nth_append Let_def split: option.splits)
  next
    case Call_generator
    then show ?thesis using ok
      by (auto simp: call_dcgan_def generator_def dcgan_ok_def nth_append Let_def split: option.splits)
  next
    case Call_discriminator_model
    show ?thesis
    proof (cases "DM s")
      case None
      then show ?thesis using dcgan_ok_discriminator [OF None ok] Call_discriminator_model by (simp add: call_dcgan_def)
    next
      case (Some m)
      then show ?thesis using ok Call_discriminator_model by (simp add: call_dcgan_def discriminator_model_def)
    qed
  next
    case Call_adversarial_model
    show ?thesis
    proof (cases "AM s")
      case None
      then show ?thesis using dcgan_ok_adversarial [OF None ok] Call_adversarial_model by (simp add: call_dcgan_def)
    next
      case (Some m)
      then show ?thesis using ok Call_adversarial_model by (simp add: call_dcgan_def adversarial_model_def)
    qed
  qed
qed

text \<open>The constructor of \<open>MNIST_DCGAN\<close>: the three networks it trains and draws with.\<close>

definition mnist_dcgan :: "nat \<times> nat \<times> nat \<times> dcgan" where
  "mnist_dcgan =
     (let s = new_dcgan;
          (dm, s) = discriminator_model s;
          (am, s) = adversarial_model s;
          (g, s) = generator s
      in (dm, am, g, s))"

text \<open>
  C30: in whatever order the methods of \<open>DCGAN\<close> are called, and however often, there is at most one
  object of each kind; the discriminator that is trained by itself is the very object that stands behind
  the generator in the adversarial model.
\<close>

theorem dcgan_shares_discriminator:
  "let s = fold call_dcgan calls new_dcgan in
     length (store s) \<le> 4 \<and>
     (case DM s of None \<Rightarrow> True | Some m \<Rightarrow> \<exists>d. D s = Some d \<and> store s ! m = Parts [d] \<and> store s ! d = Plan (gan_discriminator 28 28 1)) \<and>
     (case AM s of None \<Rightarrow> True | Some m \<Rightarrow> \<exists>d g. D s = Some d \<and> G s = Some g \<and> store s ! m = Parts [g, d] \<and> store s ! g = Plan gan_generator)"
proof -
  have "dcgan_ok s \<Longrightarrow> dcgan_ok (fold call_dcgan cs s)" for cs s
    by (induction cs arbitrary: s) (simp_all add: dcgan_ok_call)
  moreover have "dcgan_ok new_dcgan" by (simp add: dcgan_ok_def new_dcgan_def)
  ultimately have ok: "dcgan_ok (fold call_dcgan calls new_dcgan)" by blast
  have "length (filter (\<lambda>x. x \<noteq> None) [x1, x2, x3, x4]) \<le> 4" for x1 x2 x3 x4 :: "nat option"
    using length_filter_le [of "\<lambda>x. x \<noteq> None" "[x1, x2, x3, x4]"] by simp
  then show ?thesis
    using ok unfolding Let_def dcgan_ok_def by (auto split: option.split)
qed

end
