(* ===== verification/Keras_Data.thy ===== *)
theory Keras_Data
  imports Lint_Options Backprop
begin

text \<open>
  The data the Keras scripts work on: the windows of letters of \<open>python/lstm/\<close>, the walk from letter
  to letter that shows what was learnt, and the files that \<open>python/nn/kaggle_mnist.py\<close> reads and
  writes. What a network predicts is an argument.
\<close>

section \<open>Windows of letters\<close>

definition alphabet :: string where
  "alphabet = ''ABCDEFGHIJKLMNOPQRSTUVWXYZ''"

text \<open>\<open>dict(...)\<close> keeps the last index of a letter.\<close>

definition char_to_int :: "string \<Rightarrow> char \<rightharpoonup> nat" where
  "char_to_int abc = map_of (rev (zip abc [0..<length abc]))"

definition letter_codes :: "string \<Rightarrow> string \<Rightarrow> nat list result" where
  "letter_codes abc cs = mapE (\<lambda>c. the_key (char_to_int abc c)) cs"

text \<open>The pairs of \<open>dataX\<close> and \<open>dataY\<close>.\<close>

definition letter_windows :: "string \<Rightarrow> nat \<Rightarrow> (nat list \<times> nat) list result" where
  "letter_windows abc seq_length =
     mapE (\<lambda>i. bindE (py_index abc (int (i + seq_length))) (\<lambda>seq_out.
       bindE (letter_codes abc (py_slice abc (int i) (int (i + seq_length)))) (\<lambda>xs.
       bindE (the_key (char_to_int abc seq_out)) (\<lambda>y. Inr (xs, y))))) [0..<length abc - seq_length]"

text \<open>The windows, and the shape they are given: samples, steps, features.\<close>

definition shaped :: "(nat \<Rightarrow> nat \<times> nat \<times> nat) \<Rightarrow> nat \<Rightarrow> ((nat list \<times> nat) list \<times> nat \<times> nat \<times> nat) result" where
  "shaped dims seq_length = bindE (letter_windows alphabet seq_length) (\<lambda>ws. Inr (ws, dims (length ws)))"

definition lstm_data :: "((nat list \<times> nat) list \<times> nat \<times> nat \<times> nat) result" where
  "lstm_data = (let seq_length = 1 in shaped (\<lambda>n. (n, seq_length, 1)) seq_length)"

definition lstm_3_data :: "((nat list \<times> nat) list \<times> nat \<times> nat \<times> nat) result" where
  "lstm_3_data = (let seq_length = 3 in shaped (\<lambda>n. (n, 1, seq_length)) seq_length)"

definition lstm_3_better_data :: "((nat list \<times> nat) list \<times> nat \<times> nat \<times> nat) result" where
  "lstm_3_better_data = (let seq_length = 3 in shaped (\<lambda>n. (n, seq_length, 1)) seq_length)"

definition stateful_lstm_data :: "((nat list \<times> nat) list \<times> nat \<times> nat \<times> nat) result" where
  "stateful_lstm_data = (let seq_length = 1 in shaped (\<lambda>n. (n, seq_length, 1)) seq_length)"

text \<open>The letter of an index.\<close>

definition int_to_char :: "string \<Rightarrow> nat \<rightharpoonup> char" where
  "int_to_char abc i = (if i < length abc then Some (abc ! i) else None)"

text \<open>\<open>argmax\<close>: the first of the greatest.\<close>

definition argmax :: "'a::linorder list \<Rightarrow> nat" where
  "argmax t = first_index (foldl max (hd t) (tl t)) t"

lemma argmax_less: "t \<noteq> [] \<Longrightarrow> argmax t < length t"
  using foldl_max [of "hd t" "tl t"] first_index_found [of _ t] by (cases t) (auto simp: argmax_def)

text \<open>
  \<open>stateful_lstm.py\<close> shows what it learnt by feeding each predicted letter back; \<open>net\<close> is the
  network, with its state, on the index of a letter.
\<close>

fun walk :: "(nat \<Rightarrow> 's \<Rightarrow> 'a::linorder list \<times> 's) \<Rightarrow> nat \<Rightarrow> nat \<Rightarrow> 's \<Rightarrow> (char \<times> char) list result" where
  "walk net 0 seed st = Inr []"
| "walk net (Suc k) seed st =
     (let (prediction, st') = net seed st; index = argmax prediction in
      bindE (the_key (int_to_char alphabet seed)) (\<lambda>a. bindE (the_key (int_to_char alphabet index)) (\<lambda>b.
      bindE (walk net k index st') (\<lambda>shown. Inr ((a, b) # shown)))))"

lemma char_to_int_distinct:
  assumes "distinct abc" and "i < length abc"
  shows "char_to_int abc (abc ! i) = Some i"
  using assms unfolding char_to_int_def
  by (subst map_of_eq_Some_iff) (auto simp: set_zip simp flip: rev_map)

lemma letter_codes_slice:
  assumes "distinct abc" and "i + n \<le> length abc"
  shows "letter_codes abc (py_slice abc (int i) (int (i + n))) = Inr [i..<i + n]"
proof -
  have slice: "py_slice abc (int i) (int (i + n)) = map ((!) abc) [i..<i + n]"
    using assms(2) unfolding py_slice_def Let_def clip_nat by (intro nth_equalityI) auto
  have "mapE (\<lambda>c. the_key (char_to_int abc c)) (map ((!) abc) [i..<i + n]) = Inr [i..<i + n]"
  proof -
    have "mapE (\<lambda>c. the_key (char_to_int abc c)) (map ((!) abc) js) = Inr js" if "\<forall>j\<in>set js. j < length abc" for js
      using that by (induction js) (simp_all add: char_to_int_distinct [OF assms(1)])
    then show ?thesis using assms(2) by simp
  qed
  then show ?thesis unfolding letter_codes_def slice .
qed

text \<open>In an alphabet without repetition each window holds the codes that follow each other, with the next one.\<close>

lemma letter_windows_are_runs:
  assumes "distinct abc"
  shows "letter_windows abc n = Inr (map (\<lambda>i. ([i..<i + n], i + n)) [0..<length abc - n])"
  unfolding letter_windows_def
proof (rule mapE_Inr)
  fix i assume "i \<in> set [0..<length abc - n]"
  then have i: "i + n < length abc" by auto
  then have "py_index abc (int (i + n)) = Inr (abc ! (i + n))" by (rule py_index_nat)
  then show "bindE (py_index abc (int (i + n))) (\<lambda>seq_out.
       bindE (letter_codes abc (py_slice abc (int i) (int (i + n)))) (\<lambda>xs.
       bindE (the_key (char_to_int abc seq_out)) (\<lambda>y. Inr (xs, y)))) = Inr ([i..<i + n], i + n)"
    unfolding letter_codes_slice [OF assms less_imp_le [OF i]] using char_to_int_distinct [OF assms i] by simp
qed

lemma lstm_data_runs:
  "lstm_data = Inr (map (\<lambda>i. ([i], i + 1)) [0..<25], 25, 1, 1)"
  "lstm_3_data = Inr (map (\<lambda>i. ([i, i + 1, i + 2], i + 3)) [0..<23], 23, 1, 3)"
  "lstm_3_better_data = Inr (map (\<lambda>i. ([i, i + 1, i + 2], i + 3)) [0..<23], 23, 3, 1)"
  "stateful_lstm_data = lstm_data"
proof -
  have d: "distinct alphabet" by (simp add: alphabet_def)
  have len: "length alphabet = 26" by (simp add: alphabet_def)
  have run1: "[i..<i + 1] = [i]" for i by simp
  have run3: "[i..<i + 3] = [i, i + 1, i + 2]" for i by (simp add: upt_rec numeral_3_eq_3)
  show "lstm_data = Inr (map (\<lambda>i. ([i], i + 1)) [0..<25], 25, 1, 1)"
    "lstm_3_data = Inr (map (\<lambda>i. ([i, i + 1, i + 2], i + 3)) [0..<23], 23, 1, 3)"
    "lstm_3_better_data = Inr (map (\<lambda>i. ([i, i + 1, i + 2], i + 3)) [0..<23], 23, 3, 1)"
    "stateful_lstm_data = lstm_data"
    unfolding lstm_data_def lstm_3_data_def lstm_3_better_data_def stateful_lstm_data_def shaped_def Let_def
      letter_windows_are_runs [OF d] len run1 run3
    by (simp_all del: upt_Suc)
qed

section \<open>The files of the digit recogniser\<close>

text \<open>The lines of a table of numbers, less the header, which starts with the letter given.\<close>

definition read_numbers :: "char \<Rightarrow> string list \<Rightarrow> int list list result" where
  "read_numbers header ls = bindE (mapE (\<lambda>line. bindE (py_index line 0) (\<lambda>c.
     if c = header then Inr [] else bindE (mapE py_int (str_split line '','')) (\<lambda>ns. Inr [ns]))) ls)
     (\<lambda>rows. Inr (concat rows))"

text \<open>Labels and data of the training lines; a line has a first number.\<close>

definition read_training :: "string list \<Rightarrow> (int list \<times> int list list) result" where
  "read_training ls = bindE (read_numbers (CHR ''l'') ls) (\<lambda>rows. Inr (map hd rows, map tl rows))"

definition read_test :: "string list \<Rightarrow> int list list result" where
  "read_test = read_numbers (CHR ''p'')"

definition prediction_file :: "'a::linorder list list \<Rightarrow> string" where
  "prediction_file preds = ''ImageId,Label'' @ [newline] @
     concat (map (\<lambda>(k, t). str_digits (k + 1) @ '','' @ str_digits (argmax t) @ [newline]) (zip [0..<length preds] preds))"

end
