(* ===== verification/Keras_Scripts.thy ===== *)
theory Keras_Scripts
  imports Keras_Nets Keras_Data Matrix_Net Py_Number
begin

text \<open>
  The scripts of \<open>python/nn/\<close> from their data to what they hand to Keras: the shapes of the images and of the
  classes, which must be those that the networks of \<open>Keras_Nets\<close> take and give, and for
  \<open>kaggle_mnist.py\<close> the files it reads and writes. Shapes of arrays are lists of numbers; what
  \<open>numpy\<close>'s \<open>reshape\<close> and Keras's \<open>to_categorical\<close> make of them are arguments, with
  their documented behaviour as the contract \<open>documented_arrays\<close>.
\<close>

section \<open>Arrays\<close>

text \<open>The shape asked for may have -1 for a number that follows from the others.\<close>

type_synonym reshape_function = "nat list \<Rightarrow> int list \<Rightarrow> nat list result"

text \<open>The labels, and how many classes there are, if that is said.\<close>

type_synonym categorical_function = "int list \<Rightarrow> nat option \<Rightarrow> nat list result"

definition documented_arrays :: "reshape_function \<Rightarrow> categorical_function \<Rightarrow> bool" where
  "documented_arrays reshape to_categorical \<longleftrightarrow>
     (\<forall>ns ms. prod_list ms = prod_list ns \<longrightarrow> reshape ns (map int ms) = Inr ms) \<and>
     (\<forall>n ns ms. 0 < prod_list ms \<longrightarrow> prod_list ns = n * prod_list ms \<longrightarrow> reshape ns (- 1 # map int ms) = Inr (n # ms)) \<and>
     (\<forall>labels k. list_all (\<lambda>y. 0 \<le> y \<and> y < int k) labels \<longrightarrow> to_categorical labels (Some k) = Inr [length labels, k]) \<and>
     (\<forall>labels. labels \<noteq> [] \<longrightarrow> list_all (\<lambda>y. 0 \<le> y) labels \<longrightarrow>
        to_categorical labels None = Inr [length labels, nat (Max (set labels)) + 1])"

lemma documented_arraysD:
  assumes "documented_arrays reshape to_categorical"
  shows "prod_list ms = prod_list ns \<Longrightarrow> reshape ns (map int ms) = Inr ms"
    and "0 < prod_list ms \<Longrightarrow> prod_list ns = n * prod_list ms \<Longrightarrow> reshape ns (- 1 # map int ms) = Inr (n # ms)"
    and "list_all (\<lambda>y. 0 \<le> y \<and> y < int k) labels \<Longrightarrow> to_categorical labels (Some k) = Inr [length labels, k]"
    and "labels \<noteq> [] \<Longrightarrow> list_all (\<lambda>y. 0 \<le> y) labels \<Longrightarrow> to_categorical labels None = Inr [length labels, nat (Max (set labels)) + 1]"
  using assms unfolding documented_arrays_def by blast+

section \<open>The scripts on handwritten digits\<close>

text \<open>The shapes of what \<open>fit\<close> and \<open>evaluate\<close> are given.\<close>

record fit_data =
  train_x :: "nat list"
  train_y :: "nat list"
  test_x :: "nat list"
  test_y :: "nat list"

text \<open>\<open>mnist.load_data()\<close>: for each label an image of 28 rows and columns.\<close>

definition mnist_images :: "int list \<Rightarrow> nat list" where
  "mnist_images labels = [length labels, 28, 28]"

definition cnn_data ::
  "reshape_function \<Rightarrow> categorical_function \<Rightarrow> dim_ordering \<Rightarrow> int list \<Rightarrow> int list \<Rightarrow> fit_data result" where
  "cnn_data reshape to_categorical dims y_train y_test =
     (let X_train = mnist_images y_train; X_test = mnist_images y_test in
      bindE (to_categorical y_train (Some 10)) (\<lambda>ytrain.
      bindE (reshape X_test (map int [hd X_test, 28 * 28])) (\<lambda>xtest.
      bindE (to_categorical y_test (Some 10)) (\<lambda>ytest.
      let img_rows = 28; img_cols = 28;
          dims_of = (\<lambda>X. hd X # (if dims = TH then [1, img_rows, img_cols] else [img_rows, img_cols, 1]))
      in bindE (reshape X_train (map int (dims_of X_train))) (\<lambda>X_train.
         bindE (reshape X_test (map int (dims_of X_test))) (\<lambda>X_test.
         Inr \<lparr> train_x = X_train, train_y = ytrain, test_x = X_test, test_y = ytest \<rparr>))))))"

definition dnn_data ::
  "reshape_function \<Rightarrow> categorical_function \<Rightarrow> int list \<Rightarrow> int list \<Rightarrow> fit_data result" where
  "dnn_data reshape to_categorical y_train y_test =
     (let X_train = mnist_images y_train; X_test = mnist_images y_test; img_rows = 28; img_cols = 28 in
      bindE (reshape X_train (map int [hd X_train, 1, img_rows * img_cols])) (\<lambda>X_train.
      bindE (reshape X_test (map int [hd X_test, 1, img_rows * img_cols])) (\<lambda>X_test.
      bindE (to_categorical y_train (Some 10)) (\<lambda>ytrain.
      bindE (to_categorical y_test (Some 10)) (\<lambda>ytest.
      bindE (reshape ytrain (map int [hd ytrain, 1, ytrain ! 1])) (\<lambda>ytrain.
      bindE (reshape ytest (map int [hd ytest, 1, ytest ! 1])) (\<lambda>ytest.
      Inr \<lparr> train_x = X_train, train_y = ytrain, test_x = X_test, test_y = ytest \<rparr>)))))))"

text \<open>\<open>lenet5.py\<close>: the data, and the network that is made for its shape and number of classes.\<close>

definition lenet5 ::
  "reshape_function \<Rightarrow> categorical_function \<Rightarrow> int list \<Rightarrow> int list \<Rightarrow> (fit_data \<times> network_plan) result" where
  "lenet5 reshape to_categorical Y_train Y_test =
     (let X_train = mnist_images Y_train; X_test = mnist_images Y_test;
          IMG_ROWS = 28; IMG_COLS = 28; NB_CLASSES = 10; INPUT_SHAPE = [1, IMG_ROWS, IMG_COLS]
      in bindE (reshape X_train (map int [hd X_train, 1, IMG_ROWS, IMG_COLS])) (\<lambda>X_train.
         bindE (reshape X_test (map int [hd X_test, 1, IMG_ROWS, IMG_COLS])) (\<lambda>X_test.
         bindE (to_categorical Y_train (Some NB_CLASSES)) (\<lambda>Y_train.
         bindE (to_categorical Y_test (Some NB_CLASSES)) (\<lambda>Y_test.
         Inr (\<lparr> train_x = X_train, train_y = Y_train, test_x = X_test, test_y = Y_test \<rparr>,
              createLeNet INPUT_SHAPE NB_CLASSES))))))"

text \<open>The shapes agree: each sample is what the network takes, each class what it gives, and there are as many of both.\<close>

definition fits_data :: "shape_function \<Rightarrow> dim_ordering \<Rightarrow> network_plan \<Rightarrow> fit_data \<Rightarrow> bool" where
  "fits_data out_shape dims plan d \<longleftrightarrow> (\<exists>n m out.
     output_shape out_shape dims plan = Some out \<and>
     train_x d = n # input_shape plan \<and> train_y d = n # out \<and> test_x d = m # input_shape plan \<and> test_y d = m # out)"

text \<open>
  C32: under the documented behaviour of \<open>numpy\<close> and of the layers, on labels from zero to nine: the scripts bring their
  images and classes into shape without an exception, and what they fit and evaluate is what their networks take and
  give, sample by sample, whichever way the images are ordered.
\<close>

theorem scripts_fit:
  assumes "documented out_shape" and "documented_arrays reshape to_categorical"
    and "list_all (\<lambda>y. 0 \<le> y \<and> y < 10) y_train" and "list_all (\<lambda>y. 0 \<le> y \<and> y < 10) y_test"
  shows "(\<exists>d. cnn_data reshape to_categorical dims y_train y_test = Inr d \<and> fits_data out_shape dims (cnn dims) d) \<and>
    (\<exists>d. dnn_data reshape to_categorical y_train y_test = Inr d \<and> fits_data out_shape dims dnn d) \<and>
    (\<exists>d plan. lenet5 reshape to_categorical y_train y_test = Inr (d, plan) \<and> fits_data out_shape TH plan d)"
proof -
  note reshape = documented_arraysD(1) [OF assms(2)]
  note classes = documented_arraysD(3) [OF assms(2)]
  note fit = networks_fit [OF assms(1), of dims 10]
  have "to_categorical y_train (Some 10) = Inr [length y_train, 10]" "to_categorical y_test (Some 10) = Inr [length y_test, 10]"
    using classes [of 10] assms(3,4) by simp_all
  note simps = mnist_images_def fits_data_def this Let_def
  let ?n = "length y_train" and ?m = "length y_test"
  have "\<exists>d. cnn_data reshape to_categorical dims y_train y_test = Inr d \<and> fits_data out_shape dims (cnn dims) d"
    using fit reshape [of "[?m, 784]" "[?m, 28, 28]"]
      reshape [of "?n # input_shape (cnn dims)" "[?n, 28, 28]"] reshape [of "?m # input_shape (cnn dims)" "[?m, 28, 28]"]
    by (cases dims) (simp_all add: cnn_data_def simps cnn_def)
  moreover have "\<exists>d. dnn_data reshape to_categorical y_train y_test = Inr d \<and> fits_data out_shape dims dnn d"
    using fit reshape [of "[?n, 1, 784]" "[?n, 28, 28]"] reshape [of "[?m, 1, 784]" "[?m, 28, 28]"]
      reshape [of "[?n, 1, 10]" "[?n, 10]"] reshape [of "[?m, 1, 10]" "[?m, 10]"]
    by (simp add: dnn_data_def simps dnn_def)
  moreover have "\<exists>d plan. lenet5 reshape to_categorical y_train y_test = Inr (d, plan) \<and> fits_data out_shape TH plan d"
  proof -
    have "input_shape (createLeNet [1, 28, 28] 10) = [1, 28, 28]" by (simp add: createLeNet_def Let_def)
    then show ?thesis
      using fit reshape [of "[?n, 1, 28, 28]" "[?n, 28, 28]"] reshape [of "[?m, 1, 28, 28]" "[?m, 28, 28]"]
      by (simp add: lenet5_def simps)
  qed
  ultimately show ?thesis by blast
qed

text \<open>Array functions that meet the contract.\<close>

definition sample_reshape :: reshape_function where
  "sample_reshape ns ms =
     (let given = filter (\<lambda>m. m \<noteq> - 1) ms; size = prod_list (map nat given) in
      if given = ms then (if size = prod_list ns then Inr (map nat ms) else Inl (ValueError []))
      else if hd ms = - 1 \<and> 0 < size \<and> size dvd prod_list ns then Inr (prod_list ns div size # map nat given)
      else Inl (ValueError []))"

definition sample_categorical :: categorical_function where
  "sample_categorical labels classes = (case classes of
     Some k \<Rightarrow> if list_all (\<lambda>y. 0 \<le> y \<and> y < int k) labels then Inr [length labels, k] else Inl IndexError
   | None \<Rightarrow> if labels = [] then Inl (ValueError []) else Inr [length labels, nat (Max (set labels)) + 1])"

lemma sample_arrays: "documented_arrays sample_reshape sample_categorical"
proof -
  have "filter (\<lambda>m. m \<noteq> - 1) (map int ms) = map int ms" for ms by (induction ms) auto
  moreover have "map nat (map int ms) = ms" for ms by (induction ms) auto
  ultimately show ?thesis
    by (auto simp: documented_arrays_def sample_reshape_def sample_categorical_def Let_def simp del: map_map)
qed

theorem scripts_fit_witness:
  "\<exists>d. cnn_data sample_reshape sample_categorical TF [7, 2, 1] [4] = Inr d \<and> fits_data sample_shape TF (cnn TF) d"
  using scripts_fit [OF sample_shape_documented sample_arrays, of "[7, 2, 1]" "[4]" TF] by simp

end
