(* ===== verification/Keras_Gan.thy ===== *)
theory Keras_Gan
  imports Keras_Scripts
begin

text \<open>
  The script \<open>python/gan/gan.py\<close> when it runs: the batches on which the discriminator and the adversarial
  model are trained, the images that are drawn, and the names of the files they are saved in, as a trace of calls.
  An array is its shape, a column of labels the list of them; what Keras does with a batch of a wrong shape is
  to raise a \<open>ValueError\<close>. The objects are those of \<open>Keras_Nets\<close>.
\<close>

section \<open>What the objects make of a batch\<close>

definition plan_gives :: "shape_function \<Rightarrow> network_plan \<Rightarrow> nat list \<Rightarrow> nat list option" where
  "plan_gives out_shape p ns = (if ns = input_shape p then output_shape out_shape TF p else None)"

text \<open>A \<open>Sequential\<close> of other objects hands the shape from one to the next.\<close>

definition object_gives :: "shape_function \<Rightarrow> sequential list \<Rightarrow> nat \<Rightarrow> nat list \<Rightarrow> nat list option" where
  "object_gives out_shape objs k ns = (case objs ! k of
     Plan p \<Rightarrow> plan_gives out_shape p ns
   | Parts ks \<Rightarrow> fold (\<lambda>j sh. case sh of
         None \<Rightarrow> None
       | Some ms \<Rightarrow> (case objs ! j of Plan p \<Rightarrow> plan_gives out_shape p ms | Parts _ \<Rightarrow> None)) ks (Some ns))"

definition keras_predict :: "shape_function \<Rightarrow> sequential list \<Rightarrow> nat \<Rightarrow> nat list \<Rightarrow> nat list result" where
  "keras_predict out_shape objs k x = (case x of
     n # ns \<Rightarrow> (case object_gives out_shape objs k ns of Some ms \<Rightarrow> Inr (n # ms) | None \<Rightarrow> Inl (ValueError []))
   | [] \<Rightarrow> Inl (ValueError []))"

text \<open>A column of labels has one number for each sample.\<close>

definition keras_train :: "shape_function \<Rightarrow> sequential list \<Rightarrow> nat \<Rightarrow> nat list \<Rightarrow> nat list \<Rightarrow> unit result" where
  "keras_train out_shape objs k x y =
     bindE (keras_predict out_shape objs k x) (\<lambda>ms. if ms = [length y, 1] then Inr () else Inl (ValueError []))"

section \<open>The script\<close>

datatype gan_event =
    Train_on_batch nat "nat list" "nat list"
  | Log_line nat
  | Subplot nat nat nat
  | Imshow "nat list"
  | Savefig string
  | Show_figure

text \<open>
  The object: the discriminator's model, the adversarial model, the generator, the objects they name, and the shape
  of the training images.
\<close>

record mnist_gan =
  discriminator_of :: nat
  adversarial_of :: nat
  generator_of :: nat
  objects :: "sequential list"
  x_train :: "nat list"

definition init_mnist_gan :: "reshape_function \<Rightarrow> nat \<Rightarrow> mnist_gan result" where
  "init_mnist_gan reshape n_images =
     bindE (reshape [n_images, 784] (- 1 # map int [28, 28, 1])) (\<lambda>x.
     let (dm, am, g, s) = mnist_dcgan
     in Inr \<lparr> discriminator_of = dm, adversarial_of = am, generator_of = g, objects = store s, x_train = x \<rparr>)"

text \<open>\<open>numpy.random.randint(0, n, ...)\<close> has nothing to choose from when there are no images.\<close>

definition choose_images :: "nat list \<Rightarrow> nat \<Rightarrow> nat list result" where
  "choose_images x n = (if hd x = 0 then Inl (ValueError []) else Inr (n # tl x))"

definition concatenate :: "nat list \<Rightarrow> nat list \<Rightarrow> nat list result" where
  "concatenate x y = (if tl x = tl y then Inr ((hd x + hd y) # tl x) else Inl (ValueError []))"

definition plot_filename :: "bool \<Rightarrow> bool \<Rightarrow> nat \<Rightarrow> string" where
  "plot_filename fake noise_given step =
     (if fake \<and> noise_given then ''mnist_'' @ str_digits step @ ''.png'' else ''mnist.png'')"

text \<open>\<open>noise\<close> is the shape of the noise, if it is given.\<close>

definition plot_images ::
  "shape_function \<Rightarrow> reshape_function \<Rightarrow> mnist_gan \<Rightarrow> bool \<Rightarrow> bool \<Rightarrow> nat \<Rightarrow> nat list option \<Rightarrow> nat
     \<Rightarrow> gan_event list result" where
  "plot_images out_shape reshape s save2file fake samples noise step =
     (let filename = plot_filename fake (noise \<noteq> None) step in
      bindE (if fake
             then keras_predict out_shape (objects s) (generator_of s) (case noise of None \<Rightarrow> [samples, 100] | Some x \<Rightarrow> x)
             else choose_images (x_train s) samples) (\<lambda>images.
      bindE (mapE (\<lambda>i. bindE (reshape (tl images) (map int [28, 28])) (\<lambda>image.
               Inr [Subplot 4 4 (i + 1), Imshow image])) [0..<hd images]) (\<lambda>drawn.
      Inr (concat drawn @ (if save2file then [Savefig filename] else [Show_figure])))))"

definition train_step ::
  "shape_function \<Rightarrow> reshape_function \<Rightarrow> mnist_gan \<Rightarrow> nat \<Rightarrow> nat \<Rightarrow> nat list option \<Rightarrow> nat \<Rightarrow> gan_event list result" where
  "train_step out_shape reshape s batch_size save_interval noise_input i =
     bindE (choose_images (x_train s) batch_size) (\<lambda>images_train.
     let noise = [batch_size, 100] in
     bindE (keras_predict out_shape (objects s) (generator_of s) noise) (\<lambda>images_fake.
     bindE (concatenate images_train images_fake) (\<lambda>x.
     let y = map (\<lambda>k. if batch_size \<le> k then 0 else 1) [0..<2 * batch_size] in
     bindE (keras_train out_shape (objects s) (discriminator_of s) x y) (\<lambda>d_loss.
     let y' = replicate batch_size 1; noise = [batch_size, 100] in
     bindE (keras_train out_shape (objects s) (adversarial_of s) noise y') (\<lambda>a_loss.
     bindE (if 0 < save_interval \<and> (i + 1) mod save_interval = 0
            then (case noise_input of
                None \<Rightarrow> Inl AttributeError
              | Some x \<Rightarrow> plot_images out_shape reshape s True True (hd x) noise_input (i + 1))
            else Inr []) (\<lambda>plotted.
     Inr ([Train_on_batch (discriminator_of s) x y, Train_on_batch (adversarial_of s) noise y', Log_line i] @ plotted)))))))"

definition train_gan ::
  "shape_function \<Rightarrow> reshape_function \<Rightarrow> mnist_gan \<Rightarrow> nat \<Rightarrow> nat \<Rightarrow> nat \<Rightarrow> gan_event list result" where
  "train_gan out_shape reshape s train_steps batch_size save_interval =
     (let noise_input = (if 0 < save_interval then Some [16, 100] else None) in
      bindE (mapE (train_step out_shape reshape s batch_size save_interval noise_input) [0..<train_steps]) (\<lambda>evs.
      Inr (concat evs)))"

definition gan_main :: "shape_function \<Rightarrow> reshape_function \<Rightarrow> nat \<Rightarrow> gan_event list result" where
  "gan_main out_shape reshape n_images =
     bindE (init_mnist_gan reshape n_images) (\<lambda>s.
     bindE (train_gan out_shape reshape s 10 256 500) (\<lambda>trained.
     bindE (plot_images out_shape reshape s False True 16 None 0) (\<lambda>fake.
     bindE (plot_images out_shape reshape s True False 16 None 0) (\<lambda>real.
     Inr (trained @ fake @ real)))))"

text \<open>\<open>ElapsedTimer.elapsed\<close>; how a number is shown is an argument.\<close>

definition elapsed :: "(real \<Rightarrow> string) \<Rightarrow> real \<Rightarrow> string" where
  "elapsed show_float sec =
     (if sec < 60 then show_float sec @ '' sec''
      else if sec < 60 * 60 then show_float (sec / 60) @ '' min''
      else show_float (sec / (60 * 60)) @ '' hr'')"

section \<open>The trace\<close>

text \<open>The calls are in order: the batch fits its object, a picture has its place, an image two dimensions.\<close>

fun call_ok :: "(nat \<Rightarrow> nat list \<Rightarrow> nat list option) \<Rightarrow> gan_event \<Rightarrow> bool" where
  "call_ok gives (Train_on_batch k x y) \<longleftrightarrow> (\<exists>ns. x = length y # ns \<and> gives k ns = Some [1])"
| "call_ok gives (Subplot r c i) \<longleftrightarrow> 1 \<le> i \<and> i \<le> r * c"
| "call_ok gives (Imshow img) \<longleftrightarrow> img = [28, 28]"
| "call_ok gives e \<longleftrightarrow> True"

fun saved_file :: "gan_event \<Rightarrow> string list" where
  "saved_file (Savefig filename) = [filename]"
| "saved_file e = []"

fun trained_on :: "gan_event \<Rightarrow> (nat \<times> nat list) list" where
  "trained_on (Train_on_batch k x y) = [(k, y)]"
| "trained_on e = []"

text \<open>The objects the script works with.\<close>

lemma mnist_dcgan_value:
  "mnist_dcgan = (0, 2, 3, \<lparr> img_rows = 28, img_cols = 28, channel = 1,
     store = [Parts [1], Plan (gan_discriminator 28 28 1), Parts [3, 1], Plan gan_generator],
     compiled = [0, 2], D = Some 1, G = Some 3, AM = Some 2, DM = Some 0 \<rparr>)"
  by (simp add: mnist_dcgan_def discriminator_model_def adversarial_model_def generator_def discriminator_def
      add_part_def new_dcgan_def Let_def)

definition gan_value :: "nat list \<Rightarrow> mnist_gan" where
  "gan_value x = \<lparr> discriminator_of = 0, adversarial_of = 2, generator_of = 3,
     objects = [Parts [1], Plan (gan_discriminator 28 28 1), Parts [3, 1], Plan gan_generator], x_train = x \<rparr>"

lemma init_mnist_gan_value:
  "documented_arrays reshape to_categorical \<Longrightarrow> init_mnist_gan reshape n = Inr (gan_value [n, 28, 28, 1])"
  using documented_arraysD(2) [of reshape to_categorical "[28, 28, 1]" "[n, 784]" n]
  by (simp add: init_mnist_gan_def mnist_dcgan_value gan_value_def)

lemma gan_objects:
  assumes "documented out_shape"
  shows "object_gives out_shape (objects (gan_value x)) 0 [28, 28, 1] = Some [1]"
    and "object_gives out_shape (objects (gan_value x)) 2 [100] = Some [1]"
    and "object_gives out_shape (objects (gan_value x)) 3 [100] = Some [28, 28, 1]"
proof -
  have "input_shape (gan_discriminator 28 28 1) = [28, 28, 1]" "input_shape gan_generator = [100]"
    by (simp_all add: gan_discriminator_def gan_generator_def Let_def)
  then show "object_gives out_shape (objects (gan_value x)) 0 [28, 28, 1] = Some [1]"
    and "object_gives out_shape (objects (gan_value x)) 2 [100] = Some [1]"
    and "object_gives out_shape (objects (gan_value x)) 3 [100] = Some [28, 28, 1]"
    using networks_fit [OF assms]
    by (simp_all add: object_gives_def plan_gives_def gan_value_def numeral_2_eq_2 numeral_3_eq_3)
qed

lemma plot_images_value:
  assumes "documented out_shape" and "documented_arrays reshape to_categorical" and "fake \<or> 0 < n"
    and "noise = None \<or> noise = Some [k, 100]"
  shows "plot_images out_shape reshape (gan_value [n, 28, 28, 1]) save2file fake samples noise step =
    Inr (concat (map (\<lambda>i. [Subplot 4 4 (i + 1), Imshow [28, 28]]) [0..<if fake \<and> noise \<noteq> None then k else samples]) @
      (if save2file then [Savefig (plot_filename fake (noise \<noteq> None) step)] else [Show_figure]))"
proof -
  have g: "generator_of (gan_value x) = 3" "x_train (gan_value x) = x" for x by (simp_all add: gan_value_def)
  have image: "mapE (\<lambda>i. bindE (reshape [28, 28, 1] (map int [28, 28])) (\<lambda>image.
      Inr [Subplot 4 4 (i + 1), Imshow image])) is = Inr (map (\<lambda>i. [Subplot 4 4 (i + 1), Imshow [28, 28]]) is)" for "is"
    using documented_arraysD(1) [OF assms(2), of "[28, 28]" "[28, 28, 1]"] by (intro mapE_Inr) simp
  show ?thesis
    using assms(3,4) image
    by (auto simp: plot_images_def keras_predict_def choose_images_def g gan_objects [OF assms(1)] Let_def)
qed

definition step_trace :: "nat \<Rightarrow> nat \<Rightarrow> nat \<Rightarrow> gan_event list" where
  "step_trace batch_size save_interval i =
     [Train_on_batch 0 [2 * batch_size, 28, 28, 1] (replicate batch_size 1 @ replicate batch_size 0),
      Train_on_batch 2 [batch_size, 100] (replicate batch_size 1), Log_line i] @
     (if save_interval dvd i + 1
      then concat (map (\<lambda>i. [Subplot 4 4 (i + 1), Imshow [28, 28]]) [0..<16]) @ [Savefig (plot_filename True True (i + 1))]
      else [])"

lemma half_labels: "map (\<lambda>k. if b \<le> k then 0 else 1) [0..<2 * b] = replicate b 1 @ replicate b (0::nat)"
  by (rule nth_equalityI) (auto simp: nth_append)

lemma train_step_value:
  assumes "documented out_shape" and "documented_arrays reshape to_categorical" and "0 < n"
    and "noise = (if 0 < save_interval then Some [16, 100] else None)"
  shows "train_step out_shape reshape (gan_value [n, 28, 28, 1]) batch_size save_interval noise i =
    Inr (step_trace batch_size save_interval i)"
proof -
  have g: "generator_of (gan_value x) = 3" "discriminator_of (gan_value x) = 0" "adversarial_of (gan_value x) = 2"
    "x_train (gan_value x) = x" for x by (simp_all add: gan_value_def)
  have "save_interval dvd i + 1 \<longleftrightarrow> 0 < save_interval \<and> (i + 1) mod save_interval = 0"
    by (cases "save_interval = 0") (auto simp: mod_eq_0_iff_dvd)
  moreover have "keras_predict out_shape (objects (gan_value x)) 3 [batch_size, 100] = Inr [batch_size, 28, 28, 1]"
    "keras_train out_shape (objects (gan_value x)) 0 [2 * batch_size, 28, 28, 1] (replicate batch_size 1 @ replicate batch_size 0) = Inr ()"
    "keras_train out_shape (objects (gan_value x)) 2 [batch_size, 100] (replicate batch_size 1) = Inr ()" for x
    by (simp_all add: keras_train_def keras_predict_def gan_objects [OF assms(1)] mult_2 del: One_nat_def)
  moreover have "concatenate [batch_size, 28, 28, 1] [batch_size, 28, 28, 1] = Inr [2 * batch_size, 28, 28, 1]"
    by (simp add: concatenate_def mult_2)
  ultimately show ?thesis
    using assms(3,4) plot_images_value [OF assms(1,2), of True n "Some [16, 100]" 16 True 16 "i + 1"]
    by (simp add: train_step_def choose_images_def g half_labels step_trace_def Let_def del: One_nat_def)
qed

lemma train_gan_value:
  assumes "documented out_shape" and "documented_arrays reshape to_categorical" and "0 < n"
  shows "train_gan out_shape reshape (gan_value [n, 28, 28, 1]) train_steps batch_size save_interval =
    Inr (concat (map (step_trace batch_size save_interval) [0..<train_steps]))"
proof -
  have "mapE (train_step out_shape reshape (gan_value [n, 28, 28, 1]) batch_size save_interval
      (if 0 < save_interval then Some [16, 100] else None)) is = Inr (map (step_trace batch_size save_interval) is)" for "is"
    by (rule mapE_Inr) (rule train_step_value [OF assms refl])
  then show ?thesis by (simp add: train_gan_def)
qed

lemma step_trace_ok:
  assumes "documented out_shape"
  shows "list_all (call_ok (object_gives out_shape (objects (gan_value x)))) (step_trace batch_size save_interval i)"
  unfolding step_trace_def using gan_objects [OF assms, of x]
  by (auto simp: list_all_iff)

lemma pictures_save_nothing:
  "concat (map saved_file (concat (map (\<lambda>i. [Subplot r c (f i), Imshow img]) is))) = []"
  "concat (map trained_on (concat (map (\<lambda>i. [Subplot r c (f i), Imshow img]) is))) = []"
  by (induction "is") simp_all

lemma step_trace_saved:
  "concat (map saved_file (step_trace batch_size save_interval i)) =
     (if save_interval dvd i + 1 then [''mnist_'' @ str_digits (i + 1) @ ''.png''] else [])"
  "concat (map trained_on (step_trace batch_size save_interval i)) =
     [(0, replicate batch_size 1 @ replicate batch_size 0), (2, replicate batch_size 1)]"
  by (auto simp: step_trace_def pictures_save_nothing plot_filename_def)

lemma train_saved:
  "concat (map saved_file (concat (map (step_trace batch_size save_interval) [0..<n]))) =
     map (\<lambda>k. ''mnist_'' @ str_digits k @ ''.png'') (filter (\<lambda>k. save_interval dvd k) [1..<Suc n])"
  "concat (map trained_on (concat (map (step_trace batch_size save_interval) [0..<n]))) =
     concat (replicate n [(0, replicate batch_size 1 @ replicate batch_size 0), (2, replicate batch_size 1)])"
proof (induction n)
  case (Suc n)
  have snoc: "concat (replicate (Suc n) xs) = concat (replicate n xs) @ xs" for xs :: "(nat \<times> nat list) list"
    by (induction n) simp_all
  {
    case 1
    show ?case using Suc(1) by (simp add: step_trace_saved)
  next
    case 2
    show ?case unfolding snoc using Suc(2) by (simp add: step_trace_saved)
  }
qed simp_all

section \<open>Properties\<close>



end
