(* ===== verification/Keras_Kaggle.thy ===== *)
theory Keras_Kaggle
  imports Keras_Scripts
begin

text \<open>
  The script \<open>python/nn/kaggle_mnist.py\<close> from the files it reads to the file it writes. What \<open>numpy\<close> takes
  for the shape of a matrix and what the fitted network predicts are arguments.
\<close>

section \<open>The script\<close>

text \<open>What is handed to Keras: the network, the images, the classes and the images of the test; and the file that is written.\<close>

definition kaggle ::
  "(int list list \<Rightarrow> nat \<times> nat) \<Rightarrow> reshape_function \<Rightarrow> categorical_function
     \<Rightarrow> (network_plan \<Rightarrow> nat list \<Rightarrow> int list list \<Rightarrow> 'a::linorder list list result) \<Rightarrow> string list \<Rightarrow> string list
     \<Rightarrow> ((network_plan \<times> nat list \<times> nat list \<times> nat list) \<times> string) result" where
  "kaggle np_shape reshape to_categorical predict_for fp fp_test =
     bindE (read_training fp) (\<lambda>(train_label, train_data).
     bindE (read_test fp_test) (\<lambda>test_data.
     let (rows, cols) = np_shape train_data in
     bindE (reshape [rows, cols] (map int [rows, 28, 28, 1])) (\<lambda>train_data_mat.
     let (test_rows, test_cols) = np_shape test_data in
     bindE (reshape [test_rows, test_cols] (map int [test_rows, 28, 28, 1])) (\<lambda>test_data_mat.
     let train_data_shape = tl train_data_mat in
     bindE (to_categorical train_label (Some 10)) (\<lambda>train_y.
     let model = kaggle_mnist\<lparr>input_shape := train_data_shape\<rparr> in
     bindE (predict_for model test_data_mat test_data) (\<lambda>pred.
     Inr ((model, train_data_mat, train_y, test_data_mat), prediction_file pred)))))))"

section \<open>Files of whole numbers\<close>

lemma int_line_first: "vs \<noteq> [] \<Longrightarrow> \<exists>c cs. int_line vs = c # cs \<and> (is_digit c \<or> c = CHR ''-'')"
proof -
  assume "vs \<noteq> []"
  then obtain v ws where "vs = v # ws" by (cases vs) auto
  moreover obtain c cs where "str_int v = c # cs" using str_int_ends(2) by (cases "str_int v") auto
  moreover from this have "is_digit c \<or> c = CHR ''-''" using str_int_ends(1) [of v] by simp
  ultimately show ?thesis by (cases ws) (auto simp: int_line_def str_join_Cons)
qed

text \<open>A header that starts with the letter is skipped, and lines of numbers are read.\<close>

lemma read_numbers_lines:
  assumes "header \<noteq> CHR ''-''" and "\<not> is_digit header" and "\<forall>vs\<in>set rows. vs \<noteq> []"
  shows "read_numbers header ((header # name) # map int_line rows) = Inr rows"
proof -
  let ?f = "\<lambda>line. bindE (py_index line 0) (\<lambda>c.
     if c = header then Inr [] else bindE (mapE py_int (str_split line '','')) (\<lambda>ns. Inr [ns]))"
  have "?f (int_line vs) = Inr [vs]" if vs: "vs \<noteq> []" for vs
  proof -
    obtain c cs where c: "int_line vs = c # cs" "is_digit c \<or> c = CHR ''-''" using int_line_first [OF vs] by blast
    then have "c \<noteq> header" using assms(1,2) by auto
    moreover have "py_index (int_line vs) 0 = Inr c" using py_index_nat [of 0 "int_line vs"] c(1) by simp
    moreover have "mapE py_int (int_words vs) = Inr (map (\<lambda>v. v) vs)"
      by (rule int_words_read [OF _ vs]) (rule py_int_word)
    ultimately show ?thesis by (simp add: int_line_split [OF vs])
  qed
  then have "mapE ?f (map int_line rows) = Inr (map (\<lambda>vs. [vs]) rows)"
    using assms(3) by (induction rows) auto
  moreover have "?f (header # name) = Inr []" using py_index_nat [of 0 "header # name"] by simp
  moreover have "concat (map (\<lambda>vs. [vs]) rows) = rows" by (induction rows) auto
  ultimately show ?thesis by (simp add: read_numbers_def)
qed

text \<open>The contract of the fitted network: for each row as many numbers as the network has outputs.\<close>

definition predicts_rows ::
  "shape_function \<Rightarrow> (network_plan \<Rightarrow> nat list \<Rightarrow> int list list \<Rightarrow> 'a list list result) \<Rightarrow> bool" where
  "predicts_rows out_shape predict_for \<longleftrightarrow> (\<forall>plan out rows. output_shape out_shape TF plan = Some [out] \<longrightarrow>
     (\<exists>pred. predict_for plan (length rows # input_shape plan) rows = Inr pred \<and> length pred = length rows \<and>
        list_all (\<lambda>ys. length ys = out) pred))"

definition prediction_line :: "nat \<Rightarrow> nat \<Rightarrow> string" where
  "prediction_line k digit = str_digits k @ '','' @ str_digits digit @ [newline]"

section \<open>Properties\<close>



end
