(* ===== verification/Keras_Letters.thy ===== *)
theory Keras_Letters
  imports Keras_Scripts
begin

text \<open>
  The scripts of \<open>python/lstm/\<close> from the alphabet to the letters they show: the windows in the shape the network
  is made for, the network, and the demonstration of what it learnt. What the fitted network predicts is an argument.
\<close>

section \<open>The scripts\<close>

text \<open>The network is made for the shapes of its data.\<close>

definition lstm_network :: "nat \<Rightarrow> nat list \<Rightarrow> nat list \<Rightarrow> network_plan" where
  "lstm_network units X y =
     \<lparr> input_shape = [X ! 1, X ! 2], layers = [LSTM units, Dense (y ! 1), Activation ''softmax''] \<rparr>"

type_synonym letter_fit = "(nat list \<times> nat) list \<times> network_plan \<times> nat list \<times> nat list"

definition fit_letters ::
  "reshape_function \<Rightarrow> categorical_function \<Rightarrow> nat \<Rightarrow> nat \<Rightarrow> ((nat list \<times> nat) list \<times> nat \<times> nat \<times> nat) result
     \<Rightarrow> letter_fit result" where
  "fit_letters reshape to_categorical units seq_length data =
     bindE data (\<lambda>(ws, n, steps, features).
     bindE (reshape [length ws, seq_length] (map int [n, steps, features])) (\<lambda>X.
     bindE (to_categorical (map (\<lambda>(_, y). int y) ws) None) (\<lambda>y. Inr (ws, lstm_network units X y, X, y))))"

definition lstm :: "reshape_function \<Rightarrow> categorical_function \<Rightarrow> letter_fit result" where
  "lstm reshape to_categorical = fit_letters reshape to_categorical 32 1 lstm_data"

definition lstm_3 :: "reshape_function \<Rightarrow> categorical_function \<Rightarrow> letter_fit result" where
  "lstm_3 reshape to_categorical = fit_letters reshape to_categorical 32 3 lstm_3_data"

definition lstm_3_better :: "reshape_function \<Rightarrow> categorical_function \<Rightarrow> letter_fit result" where
  "lstm_3_better reshape to_categorical = fit_letters reshape to_categorical 32 3 lstm_3_better_data"

definition stateful_lstm :: "reshape_function \<Rightarrow> categorical_function \<Rightarrow> letter_fit result" where
  "stateful_lstm reshape to_categorical = fit_letters reshape to_categorical 16 1 stateful_lstm_data"

text \<open>
  Each window and the letter that is predicted for it; \<open>dims\<close> is the shape a window is given, \<open>predict_for\<close> what
  the network predicts for a window in a shape.
\<close>

definition demonstrate ::
  "reshape_function \<Rightarrow> (nat \<Rightarrow> nat list) \<Rightarrow> (nat list \<Rightarrow> nat list \<Rightarrow> 'a::linorder list result) \<Rightarrow> (nat list \<times> nat) list
     \<Rightarrow> (string \<times> char) list result" where
  "demonstrate reshape dims predict_for ws = mapE (\<lambda>(pattern, _).
     bindE (reshape [length pattern] (map int (dims (length pattern)))) (\<lambda>x.
     bindE (predict_for x pattern) (\<lambda>prediction.
     let index = argmax prediction in
     bindE (the_key (int_to_char alphabet index)) (\<lambda>letter.
     bindE (mapE (\<lambda>v. the_key (int_to_char alphabet v)) pattern) (\<lambda>seq_in. Inr (seq_in, letter)))))) ws"

definition window_dims :: "nat \<Rightarrow> nat list" where
  "window_dims k = [1, k, 1]"

definition lstm_3_dims :: "nat \<Rightarrow> nat list" where
  "lstm_3_dims k = [1, 1, k]"

text \<open>The two walks of \<open>stateful_lstm.py\<close>; the state of the network is reset between them.\<close>

definition stateful_walks :: "(nat \<Rightarrow> 's \<Rightarrow> 'a::linorder list \<times> 's) \<Rightarrow> 's \<Rightarrow> ((char \<times> char) list \<times> (char \<times> char) list) result" where
  "stateful_walks net reset =
     bindE (py_index alphabet 0) (\<lambda>first.
     bindE (the_key (char_to_int alphabet first)) (\<lambda>seed.
     bindE (walk net (length alphabet - 1) seed reset) (\<lambda>shown.
     let letter = CHR ''K'' in
     bindE (the_key (char_to_int alphabet letter)) (\<lambda>seed.
     bindE (walk net 5 seed reset) (\<lambda>new_start. Inr (shown, new_start))))))"

section \<open>What is shown\<close>

text \<open>The data and the network agree in their shapes.\<close>

definition fits_letters :: "shape_function \<Rightarrow> letter_fit \<Rightarrow> bool" where
  "fits_letters out_shape = (\<lambda>(ws, plan, X, y). \<exists>out. output_shape out_shape TF plan = Some out \<and>
     X = length ws # input_shape plan \<and> y = length ws # out)"

text \<open>What a network predicts for one window of its shape is as many numbers as it has outputs.\<close>

definition predicts :: "shape_function \<Rightarrow> network_plan \<Rightarrow> (nat list \<Rightarrow> nat list \<Rightarrow> 'a list result) \<Rightarrow> bool" where
  "predicts out_shape plan predict_for \<longleftrightarrow> (\<forall>pattern. \<exists>ys. predict_for (1 # input_shape plan) pattern = Inr ys \<and>
     output_shape out_shape TF plan = Some [length ys])"

lemma Max_run: "0 < k \<Longrightarrow> Max ((\<lambda>i. int (i + n)) ` {0..<k}) = int (k - 1 + n)"
proof (rule Max_eqI)
  assume "0 < k"
  then show "int (k - 1 + n) \<in> (\<lambda>i. int (i + n)) ` {0..<k}" by (intro image_eqI [of _ _ "k - 1"]) auto
qed auto

lemma length_alphabet: "length alphabet = 26"
  by (simp add: alphabet_def)

text \<open>The windows of three letters and of one, and what \<open>fit_letters\<close> makes of them.\<close>

lemma fit_letters_value:
  assumes "documented_arrays reshape to_categorical" and "n * steps * features = n * seq" and "0 < n"
    and "ws = map (\<lambda>i. ([i..<i + k], i + k)) [0..<n]"
  shows "fit_letters reshape to_categorical units seq (Inr (ws, n, steps, features)) =
    Inr (ws, \<lparr> input_shape = [steps, features], layers = [LSTM units, Dense (n + k), Activation ''softmax''] \<rparr>,
      [n, steps, features], [n, n + k])"
proof -
  have ys: "map (\<lambda>(_, y). int y) ws = map (\<lambda>i. int (i + k)) [0..<n]" by (simp add: assms(4))
  have "set (map (\<lambda>(_, y). int y) ws) = (\<lambda>i. int (i + k)) ` {0..<n}" unfolding ys by simp
  then have "nat (Max (set (map (\<lambda>(_, y). int y) ws))) + 1 = n + k" using Max_run [of n k] assms(3) by simp
  moreover have "map (\<lambda>(_, y). int y) ws \<noteq> []" "list_all (\<lambda>y. 0 \<le> y) (map (\<lambda>(_, y). int y) ws)"
    using assms(3) unfolding ys by (simp_all add: list_all_iff)
  moreover have "reshape [length ws, seq] (map int [n, steps, features]) = Inr [n, steps, features]"
    using assms(2,4) by (intro documented_arraysD(1) [OF assms(1)]) (simp add: mult.assoc)
  ultimately show ?thesis
    using documented_arraysD(4) [OF assms(1), of "map (\<lambda>(_, y). int y) ws"] assms(4)
    by (simp add: fit_letters_def lstm_network_def)
qed

lemma letter_fits:
  assumes "documented out_shape" and "q + k = 26"
  shows "output_shape out_shape TF
    \<lparr> input_shape = [steps, features], layers = [LSTM units, Dense (q + k), Activation ''softmax''] \<rparr> = Some [26]"
  using assms(2) by (simp add: output_shape_def documentedD [OF assms(1)])

lemma letters_of_codes:
  assumes "i + n \<le> 26"
  shows "mapE (\<lambda>v. the_key (int_to_char alphabet v)) [i..<i + n] = Inr (take n (drop i alphabet))"
proof -
  have "mapE (\<lambda>v. the_key (int_to_char alphabet v)) [i..<i + n] = Inr (map ((!) alphabet) [i..<i + n])"
    using assms by (intro mapE_Inr) (simp add: int_to_char_def length_alphabet)
  moreover have "map ((!) alphabet) [i..<i + n] = take n (drop i alphabet)"
    using assms by (intro nth_equalityI) (auto simp: length_alphabet)
  ultimately show ?thesis by simp
qed

lemma demonstrate_value:
  assumes "\<And>i. i + n < 26 \<Longrightarrow> \<exists>x. reshape [n] (map int (dims n)) = Inr x \<and> predict_for x [i..<i + n] = Inr (ys i) \<and> length (ys i) = 26"
  shows "demonstrate reshape dims predict_for (map (\<lambda>i. ([i..<i + n], i + n)) [0..<26 - n]) =
    Inr (map (\<lambda>i. (take n (drop i alphabet), alphabet ! argmax (ys i))) [0..<26 - n])"
proof -
  let ?f = "\<lambda>(pattern, _). bindE (reshape [length pattern] (map int (dims (length pattern)))) (\<lambda>x.
     bindE (predict_for x pattern) (\<lambda>prediction.
     let index = argmax prediction in
     bindE (the_key (int_to_char alphabet index)) (\<lambda>letter.
     bindE (mapE (\<lambda>v. the_key (int_to_char alphabet v)) pattern) (\<lambda>seq_in. Inr (seq_in, letter)))))"
  have one: "?f ([i..<i + n], i + n) = Inr (take n (drop i alphabet), alphabet ! argmax (ys i))" if i: "i + n < 26" for i
  proof -
    obtain x where x: "reshape [n] (map int (dims n)) = Inr x" "predict_for x [i..<i + n] = Inr (ys i)" "length (ys i) = 26"
      using assms [OF i] by blast
    have "ys i \<noteq> []" using x(3) by auto
    then have "int_to_char alphabet (argmax (ys i)) = Some (alphabet ! argmax (ys i))"
      using argmax_less [of "ys i"] x(3) by (simp add: int_to_char_def length_alphabet)
    then show ?thesis using x letters_of_codes [of i n] that by simp
  qed
  have all: "mapE ?f (map (\<lambda>i. ([i..<i + n], i + n)) is) =
      Inr (map (\<lambda>i. (take n (drop i alphabet), alphabet ! argmax (ys i))) is)" if "\<forall>i\<in>set is. i + n < 26" for "is"
    using that one by (induction "is") auto
  have "\<forall>i\<in>set [0..<26 - n]. i + n < 26" by auto
  from all [OF this] show ?thesis unfolding demonstrate_def .
qed

text \<open>A walk goes on from the letter it has shown last, and never leaves the alphabet.\<close>

lemma walk_runs:
  assumes "\<And>seed st. length (fst (net seed st)) = 26" and "seed < 26"
  shows "\<exists>shown. walk net k seed st = Inr shown \<and> length shown = k \<and> set (map snd shown) \<subseteq> set alphabet \<and>
    map fst shown = take k (alphabet ! seed # map snd shown)"
  using assms(2)
proof (induction k arbitrary: seed st)
  case (Suc k)
  obtain ys st' where net: "net seed st = (ys, st')" by fastforce
  with assms(1) [of seed st] have "length ys = 26" by simp
  moreover from this have "ys \<noteq> []" by auto
  ultimately have i: "argmax ys < 26" using argmax_less [of ys] by simp
  from Suc.IH [OF i, of st'] obtain shown where "walk net k (argmax ys) st' = Inr shown" "length shown = k"
    "set (map snd shown) \<subseteq> set alphabet" "map fst shown = take k (alphabet ! argmax ys # map snd shown)" by blast
  then show ?case
    using Suc.prems i net by (auto simp: int_to_char_def length_alphabet)
qed simp

text \<open>
  The walks of \<open>stateful_lstm.py\<close> start at A and at K, show 25 and 5 letters, and each letter that was predicted
  is the next that is asked for.
\<close>

lemma stateful_walks_run:
  assumes "\<And>seed st. length (fst (net seed st)) = 26"
  shows "\<exists>shown new_start. stateful_walks net reset = Inr (shown, new_start) \<and> length shown = 25 \<and> length new_start = 5 \<and>
    map fst shown = take 25 (CHR ''A'' # map snd shown) \<and> map fst new_start = take 5 (CHR ''K'' # map snd new_start)"
proof -
  have abc: "distinct alphabet" "alphabet ! 0 = CHR ''A''" "alphabet ! 10 = CHR ''K''" by (simp_all add: alphabet_def)
  have "py_index alphabet 0 = Inr (CHR ''A'')"
    using py_index_nat [of 0 alphabet] abc(2) by (simp add: length_alphabet)
  moreover have "char_to_int alphabet (CHR ''A'') = Some 0" "char_to_int alphabet (CHR ''K'') = Some 10"
    using char_to_int_distinct [OF abc(1), of 0] char_to_int_distinct [OF abc(1), of 10] abc(2,3) by (simp_all add: length_alphabet)
  ultimately show ?thesis
    using walk_runs [of net, OF assms, of 0 25 reset] walk_runs [of net, OF assms, of 10 5 reset] abc(2,3)
    by (auto simp: stateful_walks_def length_alphabet)
qed

section \<open>Properties\<close>

text \<open>
  C34: each script that learns letters from windows makes its data and its network without an exception, of
  shapes that fit; and whatever numbers the network then predicts, as many as it has outputs, the demonstration
  shows every window of the alphabet in order, each with the letter whose number is greatest: there are as many
  outputs as letters, so no prediction is without a letter.
\<close>

theorem letters_shown:
  fixes predict_for :: "nat list \<Rightarrow> nat list \<Rightarrow> real list result"
  assumes "documented out_shape" and "documented_arrays reshape to_categorical"
    and "(script, dims, n) \<in> {(lstm, window_dims, 1), (lstm_3, lstm_3_dims, 3), (lstm_3_better, window_dims, 3)}"
  shows "\<exists>ws plan X y. script reshape to_categorical = Inr (ws, plan, X, y) \<and> fits_letters out_shape (ws, plan, X, y) \<and>
    output_shape out_shape TF plan = Some [length alphabet] \<and>
    (predicts out_shape plan predict_for \<longrightarrow> (\<exists>ys.
      list_all (\<lambda>i. predict_for (dims n) [i..<i + n] = Inr (ys i)) [0..<26 - n] \<and>
      demonstrate reshape dims predict_for ws =
        Inr (map (\<lambda>i. (take n (drop i alphabet), alphabet ! argmax (ys i))) [0..<26 - n])))"
proof -
  have run1: "[i..<i + 1] = [i]" and run3: "[i..<i + 3] = [i, i + 1, i + 2]" for i by (simp_all add: upt_rec numeral_3_eq_3)
  let ?ws = "map (\<lambda>i. ([i..<i + n], i + n)) [0..<26 - n]"
  let ?plan = "\<lparr> input_shape = tl (dims n), layers = [LSTM 32, Dense (26 - n + n), Activation ''softmax''] \<rparr>"
  let ?X = "(26 - n) # tl (dims n)"
  have script: "script reshape to_categorical = Inr (?ws, ?plan, ?X, [26 - n, 26 - n + n])"
    using assms(3)
  proof (elim insertE emptyE)
    assume s: "(script, dims, n) = (lstm, window_dims, 1)"
    have "lstm_data = Inr (?ws, 25, 1, 1)" using s by (simp add: lstm_data_runs)
    then show ?thesis
      using s fit_letters_value [OF assms(2), of 25 1 1 1 ?ws 1 32] by (simp add: lstm_def window_dims_def)
  next
    assume s: "(script, dims, n) = (lstm_3, lstm_3_dims, 3)"
    have "lstm_3_data = Inr (?ws, 23, 1, 3)" using s by (simp add: lstm_data_runs run3)
    then show ?thesis
      using s fit_letters_value [OF assms(2), of 23 1 3 3 ?ws 3 32] by (simp add: lstm_3_def lstm_3_dims_def)
  next
    assume s: "(script, dims, n) = (lstm_3_better, window_dims, 3)"
    have "lstm_3_better_data = Inr (?ws, 23, 3, 1)" using s by (simp add: lstm_data_runs run3)
    then show ?thesis
      using s fit_letters_value [OF assms(2), of 23 3 1 3 ?ws 3 32] by (simp add: lstm_3_better_def window_dims_def)
  qed
  have dims: "dims n = 1 # tl (dims n)" "prod_list (dims n) = n" "length (tl (dims n)) = 2" "26 - n + n = 26"
    using assms(3) by (auto simp: window_dims_def lstm_3_dims_def)
  obtain steps features where tl: "tl (dims n) = [steps, features]"
    using dims(3) by (cases "tl (dims n)"; cases "tl (tl (dims n))") auto
  have out: "output_shape out_shape TF ?plan = Some [26]"
    unfolding tl by (rule letter_fits [OF assms(1)]) (rule dims(4))
  have fits: "fits_letters out_shape (?ws, ?plan, ?X, [26 - n, 26 - n + n])"
    using out dims(4) by (simp add: fits_letters_def)
  have shown: "\<exists>ys. list_all (\<lambda>i. predict_for (dims n) [i..<i + n] = Inr (ys i)) [0..<26 - n] \<and>
      demonstrate reshape dims predict_for ?ws =
        Inr (map (\<lambda>i. (take n (drop i alphabet), alphabet ! argmax (ys i))) [0..<26 - n])"
    if p: "predicts out_shape ?plan predict_for"
  proof -
    have "\<forall>i. \<exists>ys. predict_for (dims n) [i..<i + n] = Inr ys \<and> length ys = 26"
      using p out dims(1) unfolding predicts_def by (metis network_plan.select_convs(1) list.inject option.inject)
    from choice [OF this] obtain ys where "\<forall>i. predict_for (dims n) [i..<i + n] = Inr (ys i) \<and> length (ys i) = 26"
      by blast
    moreover have "reshape [n] (map int (dims n)) = Inr (dims n)"
      using dims(2) by (intro documented_arraysD(1) [OF assms(2)]) simp
    ultimately show ?thesis
      by (intro exI [of _ ys] conjI demonstrate_value) (auto simp: list_all_iff)
  qed
  show ?thesis using script fits out shown unfolding length_alphabet by blast
qed

theorem letters_shown_witness:
  "\<exists>ws plan X y. lstm_3 sample_reshape sample_categorical = Inr (ws, plan, X, y) \<and> fits_letters sample_shape (ws, plan, X, y) \<and>
    (\<exists>shown. demonstrate sample_reshape lstm_3_dims (\<lambda>_ _. Inr (replicate 26 (0::real))) ws = Inr shown)"
proof -
  let ?zeros = "\<lambda>_ _. Inr (replicate 26 (0::real))"
  have "(lstm_3, lstm_3_dims, 3) \<in> {(lstm, window_dims, 1), (lstm_3, lstm_3_dims, 3), (lstm_3_better, window_dims, 3)}" by simp
  note run = letters_shown [OF sample_shape_documented sample_arrays this, of ?zeros]
  from run show ?thesis
  proof (elim exE conjE)
    fix ws plan X y
    assume "lstm_3 sample_reshape sample_categorical = Inr (ws, plan, X, y)" "fits_letters sample_shape (ws, plan, X, y)"
      and out: "output_shape sample_shape TF plan = Some [length alphabet]"
      and shown: "predicts sample_shape plan ?zeros \<longrightarrow> (\<exists>ys. list_all (\<lambda>i. ?zeros (lstm_3_dims 3) [i..<i + 3] = Inr (ys i)) [0..<26 - 3] \<and>
        demonstrate sample_reshape lstm_3_dims ?zeros ws =
          Inr (map (\<lambda>i. (take 3 (drop i alphabet), alphabet ! argmax (ys i))) [0..<26 - 3]))"
    moreover have "predicts sample_shape plan ?zeros" using out by (simp add: predicts_def length_alphabet)
    ultimately show ?thesis by blast
  qed
qed

end
