(* ===== verification/Spec2Isabelle.thy ===== *)
theory Spec2Isabelle
  imports Lint_Main Lint_Cache Build_Cpplint Build_Link Build_Plan Data_Index Adaboost_Main Net_Scripts
    Keras_Gan Keras_Kaggle Keras_Letters
begin

section \<open>The Python code of profitcode\<close>

text \<open>
  The repository holds trading programs in C++ and, in Python, the tools that build and check them and
  a collection of learning programs. This development models the Python code under \<open>src/\<close>. Every
  definition follows one function, method or block of the source and keeps its name where it can.

  \<^bold>\<open>The parts.\<close>
  \<^item> \<open>backend/tools/cpplint.py\<close>, the style checker. \<open>main\<close> reads the command line, and
    \<open>ProcessFile\<close> hands the lines of each file to \<open>ProcessFileData\<close>, which strips comments and
    strings and runs \<open>ProcessLine\<close> on every line; each check reports through \<open>Error\<close>, which the
    module-wide settings and the \<open>NOLINT\<close> comments may silence.
  \<^item> \<open>backend/tools/waf-plugins/\<close> and \<open>rule.py\<close>, the build: what is declared, the unit tests that
    are run, the search path of the programs, and the lint tasks that start \<open>cpplint.py\<close>.
  \<^item> \<open>python/manu_nn/\<close>, \<open>python/adaboost/\<close>, \<open>python/handle_data/\<close>: two neural networks, boosted
    stumps, the splitting of records into columns, and the Keras scripts
    of \<open>python/gan/\<close>, \<open>python/nn/\<close> and \<open>python/lstm/\<close>.

  \<^bold>\<open>Shared ground.\<close> \<open>Prelude\<close> has Python's exceptions, results (an exception or a value), loops
  that may raise (\<open>forE\<close>, \<open>mapE\<close>, \<open>seqE\<close>), indexing and slicing, and the collection
  \<open>keeps_intros\<close> of rules by which an invariant is shown to survive a check. \<open>Py_String\<close>,
  \<open>Py_Regex\<close> and \<open>Py_Path\<close> model the string methods, the \<open>re\<close> module and \<open>os.path\<close> as the
  code uses them. The matcher of \<open>Py_Regex\<close> is a backtracking engine over parsed patterns; the fuel of a
  repetition is the length of the remaining text plus its lower bound plus one, which is enough because
  every further round must consume a character, and the parser's fuel is bounded by the length of the
  pattern.

  \<^bold>\<open>cpplint.py.\<close> The state is the record \<open>lint\<close> of \<open>Lint_State\<close> (settings, counts, suppressions,
  lines written); a check is a function from that state to a result.
  \<^item> \<open>Lint_State\<close>: \<open>_CppLintState\<close>, \<open>ParseNolintSuppressions\<close>, \<open>_ShouldPrintError\<close>, \<open>Error\<close>.
    The locale \<open>error_handler\<close> is what a check relies on of its error function, and \<open>framed_handler\<close>
    adds what reporting leaves alone; both are interpreted on \<open>Error\<close>.
  \<^item> \<open>Lint_File\<close>: \<open>FileInfo\<close>, header guards, the checks of whole files. \<open>Lint_Lines\<close>:
    \<open>CleansedLines\<close>, multi-line comments, \<open>CloseExpression\<close>, the first line checks.
    \<open>Lint_Include\<close>: \<open>_IncludeState\<close>, include order, include-what-you-use. \<open>Lint_Function\<close>:
    \<open>_FunctionState\<close>. \<open>Lint_Class\<close>: \<open>_ClassState\<close>. \<open>Lint_Style\<close> and \<open>Lint_Language\<close>: the
    checks of \<open>CheckStyle\<close> and \<open>CheckLanguage\<close>. \<open>Lint_Cache\<close>: \<open>Match\<close> and \<open>Search\<close> with
    their cache.
  \<^item> \<open>Lint_Process\<close>: \<open>ProcessLine\<close>, \<open>ProcessFileData\<close>, \<open>ProcessFile\<close>; the locale
    \<open>file_handler\<close> collects what a run over a file needs. \<open>Lint_Options\<close>: \<open>getopt\<close> and
    \<open>ParseArguments\<close>. \<open>Lint_Main\<close>: \<open>main\<close>.
  The lemmas show what each check reports and when it is silent, that the states stay well formed, that a
  whole file is linted without an exception or an endless loop, and that the lines a run writes are
  accounted for in its counts and exit status.
  \<open>Build_Cpplint\<close> joins this program to the build: the lint task that starts it by way of \<open>waf\<close>'s
  \<open>cmd_and_log\<close> fails exactly when it counts an error.

  \<^bold>\<open>The build.\<close> \<open>Build_Test\<close>: selection and runs of the unit tests and their summary
  (\<open>unittest_gtest.py\<close>); the results do not depend on the order in which tests finish. \<open>Build_Gtest\<close>:
  unpacking the library, as a trace of file operations, and attaching it. \<open>Build_Link\<close>: the search of
  \<open>local_rpath.py\<close>, a \<open>partial_function\<close> because it may go round for ever: it ends on ranked
  libraries and does not end on a round. \<open>Build_Lint\<close>: the lint tasks of \<open>lint.py\<close> as an inductive step
  relation over declaring, polling and scheduling, with an invariant of all reachable builds.
  \<open>Build_Plan\<close>: \<open>rule.py\<close> and \<open>defaults.py\<close>.

  \<^bold>\<open>The learning programs.\<close> \<open>Backprop\<close> models \<open>manu_nn.py\<close> over an ordered field, with
  \<open>math.exp\<close> as the argument \<open>expf\<close> whose contract is the locale \<open>exponential\<close>;
  \<open>Backprop_Gradient\<close> interprets it on the real exponential function, which raises
  \<open>OverflowError\<close> above a bound, and shows that a training step is a step of gradient descent.
  \<open>Matrix_Net\<close> models \<open>nick_nn_2_3.py\<close>: matrices with the number -1 for a failed operation, and the
  class \<open>fullNN\<close>, whose shapes training keeps. \<open>Adaboost\<close> models \<open>2.py\<close>: the search for a stump,
  the rounds of training with the bound on the training error, and judging. \<open>Net_Scripts\<close> and
  \<open>Adaboost_Main\<close> run the three scripts from their data to what they print: the first never raises
  anything but \<open>OverflowError\<close> and predicts classes it was taught, the last reads its two files with the numerals
  of Python 3 (\<open>Py_Number\<close>) and prints an accuracy that the theory of boosting bounds from below on the training
  file. \<open>Data_Index\<close> models \<open>handle_data.py\<close>.

  \<^bold>\<open>The Keras scripts.\<close> \<open>Keras_Nets\<close> holds the networks of \<open>python/gan\<close> and \<open>python/nn\<close> as
  plans of layers, and the objects of \<open>DCGAN\<close>, which share one discriminator. Arrays are modelled by their shapes:
  under the documented behaviour of the layers (\<open>documented\<close>) and of \<open>numpy\<close>'s \<open>reshape\<close> and
  Keras's \<open>to_categorical\<close> (\<open>documented_arrays\<close>), \<open>Keras_Scripts\<close> shows that the scripts on handwritten
  digits hand their networks what they take, \<open>Keras_Gan\<close> that the adversarial training never raises and what it
  draws and saves, \<open>Keras_Kaggle\<close> (\<open>kaggle_mnist.py\<close>) what is read and written, and \<open>Keras_Letters\<close>
  (\<open>python/lstm\<close>, on the windows of \<open>Keras_Data\<close>) what the demonstrations show.

  \<^bold>\<open>Arguments of the model.\<close> The file system and standard input are the record \<open>environment\<close>; the
  order in which a dictionary is enumerated (\<open>dict_order\<close>, \<open>key_order\<close>), random numbers, \<open>numpy\<close>'s
  shape of a matrix (\<open>np_shape\<close>), what a layer makes of a shape (\<open>out_shape\<close>), what becomes of a shape or of labels (\<open>reshape\<close>,
  \<open>to_categorical\<close>, \<open>np_mat\<close>), what a network predicts (\<open>predict_for\<close>), how a number is shown
  (\<open>show_float\<close>), processes (\<open>popen\<close>, \<open>call\<close>), \<open>waf\<close>'s own status of a task and its
  tools, and what the network delivers are arguments of the definitions that use them.

  \<^bold>\<open>Limits.\<close> A character is a code point below 256, so the check for the replacement character U+FFFD
  in \<open>ProcessFileData\<close> never fires. Numbers of the learning programs are exact: rounding is not
  modelled, the overflow of \<open>math.exp\<close> is. In \<open>Adaboost\<close> a logarithm or division that makes
  \<open>numpy\<close> produce a number that is not finite is \<open>None\<close>, and is shown not to occur; division is that
  of Python 3, while the other scripts are Python 2.

  \<^bold>\<open>Not modelled.\<close> \<open>GetLineWidth\<close> of \<open>cpplint.py\<close>, whose only call is commented out, and code behind an
  unconditional \<open>return\<close>. What the scripts under \<open>python/gan\<close>, \<open>python/nn\<close> and \<open>python/lstm\<close> leave to
  Keras, TensorFlow and matplotlib, which the repository does not hold: the numbers in their arrays, fitting,
  evaluating, and the plots of \<open>lenet5.py\<close>; what a fitted network predicts is an argument. The tables that
  \<open>nick_nn_2_3.py\<close> prints on the way, and the lines on the time taken. The \<open>options\<close> functions of the build
  scripts, which only declare options to \<open>waf\<close>. The C++ programs.
\<close>

end
